(* ===== verification/Prelude.thy ===== *)
theory Prelude
  imports Complex_Main "HOL-Library.AList"
begin

text \<open>
  Shared vocabulary of the development: the JavaScript values the TypeScript sources compute
  with, and the generic lemmas the component theories use.

  \<^item> \<open>jsnum\<close> is a JavaScript number: a finite value, the two infinities or \<open>NaN\<close>. A finite
    double is kept as the exact rational it denotes; rounding of sums and products is not
    modelled, overflow of a power of two is (\<open>js_pow2\<close>).
  \<^item> \<open>date\<close> is a \<open>Date\<close> object: an instant in milliseconds or an Invalid Date; comparing with an
    Invalid Date is false, as comparing with \<open>NaN\<close> is.
  \<^item> a \<open>string\<close> is a list of code units in the Latin-1 range; \<open>js_trim\<close> removes the white space
    \<open>String.prototype.trim\<close> removes in that range.
  \<^item> a \<open>Map\<close> is an association list in insertion order: \<open>AList.update\<close> replaces in place or
    appends, as \<open>Map.set\<close> does, \<open>AList.delete\<close> is \<open>Map.delete\<close> and \<open>map_of\<close> is \<open>Map.get\<close>.
  \<^item> a \<open>Record<string,string>\<close> is a partial map and an object spread is \<open>(++)\<close>.
  \<^item> an operation that may throw returns \<open>error + result\<close>.
\<close>

named_theorems js_num_simps \<open>arithmetic and comparison of JavaScript numbers\<close>
named_theorems date_simps \<open>comparison and construction of dates\<close>
named_theorems jsmap_simps \<open>lookups in insertion-ordered maps\<close>

section \<open>Numbers\<close>

datatype jsnum = Fin rat | PInf | NInf | NaN

abbreviation jsint :: "int \<Rightarrow> jsnum" where
  "jsint i \<equiv> Fin (of_int i)"

fun js_isFinite :: "jsnum \<Rightarrow> bool" where
  "js_isFinite (Fin _) = True"
| "js_isFinite _ = False"

fun js_isInteger :: "jsnum \<Rightarrow> bool" where
  "js_isInteger (Fin r) = (of_int \<lfloor>r\<rfloor> = r)"
| "js_isInteger _ = False"

definition js_isSafeInteger :: "jsnum \<Rightarrow> bool" where
  "js_isSafeInteger x =
     (js_isInteger x \<and> (case x of Fin r \<Rightarrow> \<bar>r\<bar> \<le> 9007199254740991 | _ \<Rightarrow> False))"

fun js_lt :: "jsnum \<Rightarrow> jsnum \<Rightarrow> bool" where
  "js_lt (Fin a) (Fin b) = (a < b)"
| "js_lt (Fin _) PInf = True"
| "js_lt NInf (Fin _) = True"
| "js_lt NInf PInf = True"
| "js_lt _ _ = False"

definition js_le :: "jsnum \<Rightarrow> jsnum \<Rightarrow> bool" where
  "js_le a b = (js_lt a b \<or> (a = b \<and> a \<noteq> NaN))"

fun js_neg :: "jsnum \<Rightarrow> jsnum" where
  "js_neg (Fin a) = Fin (- a)"
| "js_neg PInf = NInf"
| "js_neg NInf = PInf"
| "js_neg NaN = NaN"

fun js_add :: "jsnum \<Rightarrow> jsnum \<Rightarrow> jsnum" where
  "js_add (Fin a) (Fin b) = Fin (a + b)"
| "js_add NaN _ = NaN"
| "js_add _ NaN = NaN"
| "js_add PInf NInf = NaN"
| "js_add NInf PInf = NaN"
| "js_add PInf _ = PInf"
| "js_add NInf _ = NInf"
| "js_add _ PInf = PInf"
| "js_add _ NInf = NInf"

definition js_sub :: "jsnum \<Rightarrow> jsnum \<Rightarrow> jsnum" where
  "js_sub a b = js_add a (js_neg b)"

fun js_scale_inf :: "rat \<Rightarrow> jsnum \<Rightarrow> jsnum" where
  "js_scale_inf r x = (if r = 0 then NaN else if 0 < r then x else js_neg x)"

fun js_mul :: "jsnum \<Rightarrow> jsnum \<Rightarrow> jsnum" where
  "js_mul (Fin a) (Fin b) = Fin (a * b)"
| "js_mul NaN _ = NaN"
| "js_mul _ NaN = NaN"
| "js_mul (Fin a) x = js_scale_inf a x"
| "js_mul x (Fin b) = js_scale_inf b x"
| "js_mul PInf x = x"
| "js_mul NInf x = js_neg x"

definition js_min :: "jsnum \<Rightarrow> jsnum \<Rightarrow> jsnum" where
  "js_min a b = (if a = NaN \<or> b = NaN then NaN else if js_lt b a then b else a)"

definition js_max :: "jsnum \<Rightarrow> jsnum \<Rightarrow> jsnum" where
  "js_max a b = (if a = NaN \<or> b = NaN then NaN else if js_lt a b then b else a)"

text \<open>\<open>Math.round\<close>: the nearest integer, halves rounded up.\<close>

fun js_round :: "jsnum \<Rightarrow> jsnum" where
  "js_round (Fin r) = jsint \<lfloor>r + 1 / 2\<rfloor>"
| "js_round x = x"

text \<open>\<open>2 ** e\<close> for an integer exponent: a double holds no power above \<open>2 ^ 1023\<close>.\<close>

definition js_pow2 :: "jsnum \<Rightarrow> jsnum" where
  "js_pow2 e = (case e of
      Fin r \<Rightarrow> if 1024 \<le> r then PInf else Fin (2 ^ nat \<lfloor>r\<rfloor>)
    | PInf \<Rightarrow> PInf | NInf \<Rightarrow> Fin 0 | NaN \<Rightarrow> NaN)"

lemma js_le_Fin [simp, js_num_simps]: "js_le (Fin a) (Fin b) = (a \<le> b)"
  by (auto simp: js_le_def)

lemma js_le_NaN [simp]: "\<not> js_le NaN x" "\<not> js_le x NaN"
  by (auto simp: js_le_def)

lemma js_sub_Fin [simp, js_num_simps]: "js_sub (Fin a) (Fin b) = Fin (a - b)"
  by (simp add: js_sub_def)

lemma js_min_Fin [simp, js_num_simps]: "js_min (Fin a) (Fin b) = Fin (min a b)"
  by (auto simp: js_min_def)

lemma js_max_Fin [simp, js_num_simps]: "js_max (Fin a) (Fin b) = Fin (max a b)"
  by (auto simp: js_max_def)

lemma js_isFinite_iff: "js_isFinite x \<longleftrightarrow> (\<exists>r. x = Fin r)"
  by (cases x) auto

lemma js_isInteger_iff: "js_isInteger x \<longleftrightarrow> (\<exists>i. x = jsint i)"
proof (cases x)
  case (Fin r)
  then show ?thesis by (metis floor_of_int js_isInteger.simps(1) jsnum.inject)
qed auto

lemma js_isInteger_finite: "js_isInteger x \<Longrightarrow> js_isFinite x"
  by (cases x) auto

lemma js_le_refl_finite: "js_isFinite x \<Longrightarrow> js_le x x"
  by (auto simp: js_isFinite_iff)

lemma js_lt_irrefl [simp]: "\<not> js_lt x x"
  by (cases x) auto

lemma js_lt_not_sym: "js_lt a b \<Longrightarrow> \<not> js_lt b a"
  by (cases a; cases b) auto

lemma js_le_trans: "js_le a b \<Longrightarrow> js_le b c \<Longrightarrow> js_le a c"
  by (cases a; cases b; cases c) (auto simp: js_le_def)

lemma js_le_antisym: "js_le a b \<Longrightarrow> js_le b a \<Longrightarrow> a = b"
  by (cases a; cases b) (auto simp: js_le_def)

lemma js_not_lt_iff: "a \<noteq> NaN \<Longrightarrow> b \<noteq> NaN \<Longrightarrow> \<not> js_lt a b \<longleftrightarrow> js_le b a"
  by (cases a; cases b) (auto simp: js_le_def)

lemma js_min_le:
  "a \<noteq> NaN \<Longrightarrow> b \<noteq> NaN \<Longrightarrow> js_le (js_min a b) a \<and> js_le (js_min a b) b"
  by (cases a; cases b) (auto simp: js_min_def js_le_def)

section \<open>Dates\<close>

datatype date = Instant int | InvalidDate

fun getTime :: "date \<Rightarrow> jsnum" where
  "getTime (Instant t) = jsint t"
| "getTime InvalidDate = NaN"

text \<open>\<open>new Date(x)\<close>: out of range and not a number give an Invalid Date; the fraction is cut.\<close>

definition js_trunc :: "rat \<Rightarrow> int" where
  "js_trunc r = (if 0 \<le> r then \<lfloor>r\<rfloor> else \<lceil>r\<rceil>)"

fun newDate :: "jsnum \<Rightarrow> date" where
  "newDate (Fin r) = (if \<bar>r\<bar> \<le> 8640000000000000 then Instant (js_trunc r) else InvalidDate)"
| "newDate _ = InvalidDate"

fun date_le :: "date \<Rightarrow> date \<Rightarrow> bool" where
  "date_le (Instant a) (Instant b) = (a \<le> b)"
| "date_le _ _ = False"

fun date_lt :: "date \<Rightarrow> date \<Rightarrow> bool" where
  "date_lt (Instant a) (Instant b) = (a < b)"
| "date_lt _ _ = False"

fun valid_date :: "date \<Rightarrow> bool" where
  "valid_date (Instant _) = True"
| "valid_date InvalidDate = False"

lemma js_trunc_of_int [simp]: "js_trunc (of_int i) = i"
  by (simp add: js_trunc_def)

lemma date_le_getTime: "date_le a b = js_le (getTime a) (getTime b)"
  by (cases a; cases b) auto

lemma date_lt_getTime: "date_lt a b = js_lt (getTime a) (getTime b)"
  by (cases a; cases b) auto

lemma date_le_trans: "date_le a b \<Longrightarrow> date_le b c \<Longrightarrow> date_le a c"
  by (cases a; cases b; cases c) auto

lemma date_le_total: "valid_date a \<Longrightarrow> valid_date b \<Longrightarrow> date_le a b \<or> date_le b a"
  by (cases a; cases b) auto

lemma date_lt_le_trans: "date_lt a b \<Longrightarrow> date_le b c \<Longrightarrow> date_lt a c"
  by (cases a; cases b; cases c) auto

lemma date_le_lt_trans: "date_le a b \<Longrightarrow> date_lt b c \<Longrightarrow> date_lt a c"
  by (cases a; cases b; cases c) auto

lemma date_lt_not_le: "date_lt a b \<Longrightarrow> \<not> date_le b a"
  by (cases a; cases b) auto

lemma date_not_le_lt: "valid_date a \<Longrightarrow> valid_date b \<Longrightarrow> \<not> date_le a b \<longleftrightarrow> date_lt b a"
  by (cases a; cases b) auto

lemma date_le_valid: "date_le a b \<Longrightarrow> valid_date a \<and> valid_date b"
  by (cases a; cases b) auto

lemma date_lt_valid: "date_lt a b \<Longrightarrow> valid_date a \<and> valid_date b"
  by (cases a; cases b) auto

lemma date_lt_imp_le: "date_lt a b \<Longrightarrow> date_le a b"
  by (cases a; cases b) auto

lemma date_le_refl [simp]: "date_le d d = valid_date d"
  by (cases d) auto

lemma date_lt_irrefl [simp]: "\<not> date_lt d d"
  by (cases d) auto

text \<open>A deadline at least a millisecond ahead of an instant lies after it.\<close>

lemma js_trunc_ahead:
  fixes d :: rat
  assumes "1 \<le> d"
  shows "t < js_trunc (of_int t + d)"
proof (cases "0 \<le> of_int t + d")
  case True
  have "t + 1 \<le> \<lfloor>of_int t + d\<rfloor>" using assms by (simp add: le_floor_iff)
  with True show ?thesis by (simp add: js_trunc_def)
next
  case False
  have "\<not> \<lceil>of_int t + d\<rceil> \<le> t"
    using assms by (simp add: ceiling_le_iff)
  with False show ?thesis by (simp add: js_trunc_def)
qed

lemma newDate_ahead [date_simps]:
  assumes "valid_date (newDate (js_add (getTime now) (Fin d)))" and "1 \<le> d" and "valid_date now"
  shows "date_lt now (newDate (js_add (getTime now) (Fin d)))"
  using assms by (cases now) (auto simp: js_trunc_ahead split: if_splits)

section \<open>Strings\<close>

definition js_ws :: "char \<Rightarrow> bool" where
  "js_ws c = (c \<in> set [CHR 0x09, CHR 0x0A, CHR 0x0B, CHR 0x0C, CHR 0x0D, CHR 0x20, CHR 0xA0])"

definition js_trim :: "string \<Rightarrow> string" where
  "js_trim s = rev (dropWhile js_ws (rev (dropWhile js_ws s)))"

text \<open>\<open>value?.trim()\<close> followed by a truthiness test: \<open>None\<close> for an absent or blank string.\<close>

definition trimmed :: "string option \<Rightarrow> string option" where
  "trimmed v = (case v of None \<Rightarrow> None | Some s \<Rightarrow> if js_trim s = [] then None else Some (js_trim s))"

definition truthy :: "string option \<Rightarrow> string option" where
  "truthy v = (case v of None \<Rightarrow> None | Some s \<Rightarrow> if s = [] then None else Some s)"

text \<open>\<open>a ?? b\<close> on optional values.\<close>

definition nullish :: "'a option \<Rightarrow> 'a option \<Rightarrow> 'a option" where
  "nullish a b = (case a of None \<Rightarrow> b | Some x \<Rightarrow> Some x)"

lemma dropWhile_dropWhile_same [simp]: "dropWhile P (dropWhile P xs) = dropWhile P xs"
  by (induction xs) auto

lemma dropWhile_id_hd: "xs = [] \<or> \<not> P (hd xs) \<Longrightarrow> dropWhile P xs = xs"
  by (cases xs) auto

lemma hd_rev_dropWhile_rev:
  "rev (dropWhile P (rev ys)) \<noteq> [] \<Longrightarrow> hd (rev (dropWhile P (rev ys))) = hd ys"
proof (induction ys rule: rev_induct)
  case (snoc y ys)
  then show ?case by (cases "P y") (auto simp: hd_append)
qed simp

lemma dropWhile_rev_dropWhile:
  "dropWhile P (rev (dropWhile P (rev (dropWhile P xs)))) = rev (dropWhile P (rev (dropWhile P xs)))"
proof (rule dropWhile_id_hd)
  let ?r = "rev (dropWhile P (rev (dropWhile P xs)))"
  show "?r = [] \<or> \<not> P (hd ?r)"
  proof (cases "?r = []")
    case False
    then have "hd ?r = hd (dropWhile P xs)" by (rule hd_rev_dropWhile_rev)
    moreover have "dropWhile P xs \<noteq> []" using False by (metis dropWhile.simps(1) rev.simps(1))
    ultimately show ?thesis using hd_dropWhile [of P xs] by metis
  qed blast
qed

lemma js_trim_idem [simp]: "js_trim (js_trim s) = js_trim s"
  by (simp add: js_trim_def dropWhile_rev_dropWhile)

lemma js_trim_Nil [simp]: "js_trim [] = []"
  by (simp add: js_trim_def)

lemma js_trim_Nil_iff: "js_trim s = [] \<longleftrightarrow> (\<forall>c\<in>set s. js_ws c)"
proof
  assume "js_trim s = []"
  then have "\<forall>c\<in>set (dropWhile js_ws s). js_ws c"
    by (simp add: js_trim_def)
  then have "dropWhile js_ws s = []"
    by (metis hd_dropWhile hd_in_set)
  then show "\<forall>c\<in>set s. js_ws c" by simp
next
  assume "\<forall>c\<in>set s. js_ws c"
  then have "dropWhile js_ws s = []" by simp
  then show "js_trim s = []" by (simp only: js_trim_def rev.simps dropWhile.simps)
qed

lemma set_js_trim: "set (js_trim s) \<subseteq> set s"
  unfolding js_trim_def by (metis set_dropWhileD set_rev subsetI)

lemma trimmed_Some: "trimmed v = Some s \<Longrightarrow> s \<noteq> [] \<and> js_trim s = s"
  by (auto simp: trimmed_def split: option.splits if_splits)

lemma trimmed_idem [simp]: "trimmed (trimmed v) = trimmed v"
  by (auto simp: trimmed_def split: option.splits)

lemma trimmed_None [simp]: "trimmed None = None"
  by (simp add: trimmed_def)

lemma nullish_None [simp]: "nullish None b = b" "nullish (Some x) b = Some x"
  by (simp_all add: nullish_def)

lemma nullish_eq_None_iff [simp]: "nullish a b = None \<longleftrightarrow> a = None \<and> b = None"
  by (auto simp: nullish_def split: option.splits)

section \<open>Decimal rendering\<close>

text \<open>\<open>String(n)\<close> and template interpolation of a natural number.\<close>

fun nat_digits :: "nat \<Rightarrow> string" where
  "nat_digits n =
     (if n < 10 then [char_of (48 + n)] else nat_digits (n div 10) @ [char_of (48 + n mod 10)])"

declare nat_digits.simps [simp del]

lemma digit_char_inj: "a < 10 \<Longrightarrow> b < 10 \<Longrightarrow> char_of (48 + a) = (char_of (48 + b) :: char) \<longleftrightarrow> a = (b::nat)"
proof
  assume "a < 10" "b < 10" "char_of (48 + a) = (char_of (48 + b) :: char)"
  then have "of_char (char_of (48 + a) :: char) = (of_char (char_of (48 + b) :: char) :: nat)" by simp
  with \<open>a < 10\<close> \<open>b < 10\<close> show "a = b" by simp
qed simp

lemma nat_digits_not_Nil [simp]: "nat_digits n \<noteq> []"
  by (subst nat_digits.simps) simp

lemma nat_digits_inj: "nat_digits m = nat_digits n \<Longrightarrow> m = n"
proof (induction m arbitrary: n rule: nat_digits.induct)
  case (1 m)
  show ?case
  proof (cases "m < 10"; cases "n < 10")
    assume "m < 10" "n < 10"
    with "1.prems" show ?thesis
      by (simp add: nat_digits.simps [of m] nat_digits.simps [of n] digit_char_inj)
  next
    assume "m < 10" "\<not> n < 10"
    with "1.prems" show ?thesis
      using nat_digits_not_Nil [of "n div 10"]
      by (auto simp: nat_digits.simps [of m] nat_digits.simps [of n])
  next
    assume "\<not> m < 10" "n < 10"
    with "1.prems" show ?thesis
      using nat_digits_not_Nil [of "m div 10"]
      by (auto simp: nat_digits.simps [of m] nat_digits.simps [of n])
  next
    assume big: "\<not> m < 10" "\<not> n < 10"
    with "1.prems" have "nat_digits (m div 10) = nat_digits (n div 10)" "m mod 10 = n mod 10"
      by (simp_all add: nat_digits.simps [of m] nat_digits.simps [of n] digit_char_inj)
    with "1.IH" big have "m div 10 = n div 10" by simp
    with \<open>m mod 10 = n mod 10\<close> show ?thesis by (metis div_mult_mod_eq)
  qed
qed

lemma nat_digits_chars: "list_all (\<lambda>c. \<exists>d<10. c = char_of (48 + d :: nat)) (nat_digits n)"
proof (induction n rule: nat_digits.induct)
  case (1 n)
  have "n mod 10 < 10" by simp
  then have last: "\<exists>d<10. char_of (48 + n mod 10) = (char_of (48 + d :: nat) :: char)" by blast
  show ?case
  proof (cases "n < 10")
    case True
    then have "\<exists>d<10. char_of (48 + n) = (char_of (48 + d :: nat) :: char)" by blast
    with True show ?thesis by (simp only: nat_digits.simps [of n] if_True list.pred_inject simp_thms)
  next
    case False
    with last 1 show ?thesis
      by (simp only: nat_digits.simps [of n] if_False list_all_append list.pred_inject simp_thms)
  qed
qed

section \<open>Insertion-ordered maps\<close>

abbreviation map_keys :: "('k \<times> 'v) list \<Rightarrow> 'k list" where
  "map_keys m \<equiv> map fst m"

abbreviation jsmap_ok :: "('k \<times> 'v) list \<Rightarrow> bool" where
  "jsmap_ok m \<equiv> distinct (map fst m)"

declare map_of_eq_Some_iff [simp del]

lemma map_of_AList_update [simp, jsmap_simps]:
  "map_of (AList.update k v m) = (map_of m)(k \<mapsto> v)"
  by (rule update_conv')

lemma map_of_AList_delete [simp, jsmap_simps]:
  "map_of (AList.delete k m) = (map_of m)(k := None)"
  by (rule delete_conv')

lemma jsmap_ok_update [intro, simp]: "jsmap_ok m \<Longrightarrow> jsmap_ok (AList.update k v m)"
  by (rule distinct_update)

lemma jsmap_ok_delete [intro, simp]: "jsmap_ok m \<Longrightarrow> jsmap_ok (AList.delete k m)"
  by (rule distinct_delete)

text \<open>Replacing the value of a present key keeps every key in its place.\<close>

lemma map_keys_update_present:
  "k \<in> set (map fst m) \<Longrightarrow> map fst (AList.update k v m) = map fst m"
  by (simp add: update_keys)

text \<open>Updating and deleting commute with everything about other entries.\<close>

lemma in_update_jsmap:
  "jsmap_ok m \<Longrightarrow>
    (k', v') \<in> set (AList.update k v m) \<longleftrightarrow> (k' = k \<and> v' = v) \<or> (k' \<noteq> k \<and> (k', v') \<in> set m)"
  by (induction m) (auto simp: image_iff dest: image_eqI)

lemma in_delete_jsmap:
  "(k', v') \<in> set (AList.delete k m) \<longleftrightarrow> k' \<noteq> k \<and> (k', v') \<in> set m"
  by (auto simp: AList.delete_eq)

section \<open>Dynamic values\<close>

text \<open>A value of static type \<open>unknown\<close>.\<close>

datatype js_value =
    JUndefined | JNull | JBool bool | JNumber jsnum | JString string
  | JArray "js_value list" | JObject "(string \<times> js_value) list"

section \<open>Results\<close>

text \<open>
  A function that throws or returns: \<open>guardE\<close> throws unless its condition holds, and \<open>seqE\<close>
  runs a second statement when the first did not throw.
\<close>

definition guardE :: "bool \<Rightarrow> 'e \<Rightarrow> 'e + unit" where
  "guardE c e = (if c then Inr () else Inl e)"

definition seqE :: "'e + unit \<Rightarrow> 'e + 'a \<Rightarrow> 'e + 'a" where
  "seqE a b = (case a of Inl e \<Rightarrow> Inl e | Inr _ \<Rightarrow> b)"

fun seqsE :: "('e + unit) list \<Rightarrow> 'e + unit" where
  "seqsE [] = Inr ()"
| "seqsE (x # xs) = seqE x (seqsE xs)"

lemma guardE_Inr [simp]: "guardE c e = Inr u \<longleftrightarrow> c"
  by (simp add: guardE_def)

lemma guardE_Inl [simp]: "guardE c e = Inl e' \<longleftrightarrow> \<not> c \<and> e' = e"
  by (auto simp: guardE_def)

lemma seqE_unit [simp]: "seqE (Inr u) x = x"
  by (simp add: seqE_def)

lemma seqE_Inr [simp]: "seqE a b = Inr x \<longleftrightarrow> a = Inr () \<and> b = Inr x"
  by (auto simp: seqE_def split: sum.splits)

lemma seqE_Inl: "seqE a b = Inl e \<longleftrightarrow> a = Inl e \<or> (a = Inr () \<and> b = Inl e)"
  by (auto simp: seqE_def split: sum.splits)

lemma seqsE_Inr: "seqsE xs = Inr () \<longleftrightarrow> (\<forall>x\<in>set xs. x = Inr ())"
  by (induction xs) auto

lemma unit_result_cases: "(r :: 'e + unit) = Inr () \<or> (\<exists>e. r = Inl e)"
  by (cases r) auto

lemma length_filter_update:
  "i < length xs \<Longrightarrow>
    length (filter P (xs[i := x])) + (if P (xs ! i) then 1 else 0) = length (filter P xs) + (if P x then 1 else 0)"
proof (induction xs arbitrary: i)
  case (Cons y ys)
  then show ?case by (cases i) auto
qed simp

end
