(* ===== verification/Retry_Policy.thy ===== *)
theory Retry_Policy
  imports Prelude
begin

text \<open>
  The retry policy of the task queue: \<open>src/queue-core/task-queue/domain/retry-policy.ts\<close> and the
  error codes of \<open>queue-errors.ts\<close>. Numbers are JavaScript numbers, so the guards against \<open>NaN\<close>
  and the infinities are the code's own, and so is the overflow of \<open>2 ** exponent\<close>.
\<close>

section \<open>Definitions\<close>

datatype queue_error_code =
    Closed | Duplicate | JobNotFound | InvalidInput | InvalidRetryPolicy | ProcessorNotStarted

text \<open>\<open>SubscriptionQueueError\<close>: a code and a message.\<close>

datatype queue_error = SubscriptionQueueError queue_error_code string

fun error_code :: "queue_error \<Rightarrow> queue_error_code" where
  "error_code (SubscriptionQueueError c _) = c"

record retry_policy =
  rp_maxAttempts :: jsnum
  rp_baseDelayMs :: jsnum
  rp_maxDelayMs :: jsnum
  rp_jitterRatio :: "jsnum option"

definition defaultSubscriptionRetryPolicy :: retry_policy where
  "defaultSubscriptionRetryPolicy =
     \<lparr>rp_maxAttempts = Fin 3, rp_baseDelayMs = Fin 1000, rp_maxDelayMs = Fin 60000,
      rp_jitterRatio = Some (Fin (1 / 10))\<rparr>"

definition invalid_retry_policy :: "retry_policy \<Rightarrow> bool" where
  "invalid_retry_policy p =
     (\<not> js_isInteger (rp_maxAttempts p) \<or>
      js_lt (rp_maxAttempts p) (Fin 1) \<or>
      \<not> js_isFinite (rp_baseDelayMs p) \<or>
      js_lt (rp_baseDelayMs p) (Fin 0) \<or>
      \<not> js_isFinite (rp_maxDelayMs p) \<or>
      js_lt (rp_maxDelayMs p) (rp_baseDelayMs p) \<or>
      (case rp_jitterRatio p of None \<Rightarrow> False
       | Some j \<Rightarrow> \<not> js_isFinite j \<or> js_lt j (Fin 0) \<or> js_lt (Fin 1) j))"

definition assertRetryPolicy :: "retry_policy \<Rightarrow> queue_error + unit" where
  "assertRetryPolicy p =
     (if invalid_retry_policy p
      then Inl (SubscriptionQueueError InvalidRetryPolicy ''Invalid subscription queue retry policy.'')
      else Inr ())"

text \<open>
  \<open>rnd\<close> is what the optional \<open>random\<close> callback returns, \<open>math_random\<close> what \<open>Math.random()\<close>
  returns where it is asked.
\<close>

definition backoff_raw :: "jsnum \<Rightarrow> retry_policy \<Rightarrow> jsnum" where
  "backoff_raw attempt p =
     (let exponent = js_max (Fin 0) (js_sub attempt (Fin 1))
      in js_min (rp_maxDelayMs p) (js_mul (rp_baseDelayMs p) (js_pow2 exponent)))"

definition computeBackoffDelayMs ::
    "jsnum \<Rightarrow> retry_policy \<Rightarrow> jsnum option \<Rightarrow> jsnum \<Rightarrow> queue_error + jsnum" where
  "computeBackoffDelayMs attempt p rnd math_random =
     seqE (assertRetryPolicy p)
       (let raw = backoff_raw attempt p;
            jitterRatio = (case rp_jitterRatio p of None \<Rightarrow> Fin 0 | Some j \<Rightarrow> j)
        in if jitterRatio = Fin 0 then Inr raw
           else
             let random = (case rnd of None \<Rightarrow> math_random | Some r \<Rightarrow> r);
                 jitter = js_mul (js_mul raw jitterRatio) (js_sub (js_mul random (Fin 2)) (Fin 1))
             in Inr (js_max (Fin 0) (js_round (js_add raw jitter))))"

section \<open>The policies the guard accepts\<close>

text \<open>A policy in the shape the guard leaves: an integral attempt bound and finite delays.\<close>

lemma assertRetryPolicy_ok_iff:
  "assertRetryPolicy p = Inr () \<longleftrightarrow>
     (\<exists>n b m. rp_maxAttempts p = jsint n \<and> 1 \<le> n \<and> rp_baseDelayMs p = Fin b \<and> 0 \<le> b \<and>
        rp_maxDelayMs p = Fin m \<and> b \<le> m \<and>
        (case rp_jitterRatio p of None \<Rightarrow> True | Some j \<Rightarrow> \<exists>r. j = Fin r \<and> 0 \<le> r \<and> r \<le> 1))"
  by (auto simp: assertRetryPolicy_def invalid_retry_policy_def js_isInteger_iff js_isFinite_iff not_less
      split: option.splits)

lemma assertRetryPolicy_error:
  "assertRetryPolicy p = Inl e \<Longrightarrow> error_code e = InvalidRetryPolicy"
  by (auto simp: assertRetryPolicy_def split: if_splits)

lemma default_policy_ok [simp]: "assertRetryPolicy defaultSubscriptionRetryPolicy = Inr ()"
  by (simp add: assertRetryPolicy_def invalid_retry_policy_def defaultSubscriptionRetryPolicy_def)

section \<open>The delay before jitter\<close>

lemma js_pow2_int:
  assumes "0 \<le> k" and "k < 1024"
  shows "js_pow2 (jsint k) = Fin (2 ^ nat k)"
  using assms by (simp add: js_pow2_def)

lemma backoff_raw_exact:
  assumes "rp_baseDelayMs p = Fin b" and "rp_maxDelayMs p = Fin m"
    and "1 \<le> n" and "n \<le> 1024"
  shows "backoff_raw (jsint n) p = Fin (min m (b * 2 ^ nat (n - 1)))"
proof -
  have "js_max (Fin 0) (js_sub (jsint n) (Fin 1)) = jsint (n - 1)"
    using assms(3) by (simp add: max_def)
  with assms js_pow2_int [of "n - 1"] show ?thesis
    by (simp add: backoff_raw_def)
qed

lemma backoff_raw_overflow:
  assumes "rp_baseDelayMs p = Fin b" and "rp_maxDelayMs p = Fin m" and "1024 < n"
  shows "backoff_raw (jsint n) p = (if b = 0 then NaN else if 0 < b then Fin m else NInf)"
proof -
  have "js_max (Fin 0) (js_sub (jsint n) (Fin 1)) = jsint (n - 1)"
    using assms(3) by (simp add: max_def)
  moreover have "js_pow2 (jsint (n - 1)) = PInf" using assms(3) by (simp add: js_pow2_def)
  ultimately show ?thesis
    using assms by (auto simp: backoff_raw_def js_min_def)
qed

lemma backoff_raw_finite:
  assumes "rp_baseDelayMs p = Fin b" and "rp_maxDelayMs p = Fin m" and "0 \<le> b" and "b \<le> m"
    and "1 \<le> n" and "n \<le> 1024 \<or> 0 < b"
  obtains d where "backoff_raw (jsint n) p = Fin d" and "0 \<le> d" and "d \<le> m"
proof (cases "n \<le> 1024")
  case True
  with assms have "backoff_raw (jsint n) p = Fin (min m (b * 2 ^ nat (n - 1)))"
    by (simp only: backoff_raw_exact)
  moreover have "0 \<le> min m (b * 2 ^ nat (n - 1))" using assms by simp
  ultimately show ?thesis by (rule that) simp
next
  case False
  with assms have "backoff_raw (jsint n) p = Fin m" by (simp add: backoff_raw_overflow)
  then show ?thesis using assms by (intro that [of m]) auto
qed

section \<open>The delay\<close>

lemma jitter_bounds:
  fixes r j d :: rat
  assumes "0 \<le> r" "r \<le> 1" "0 \<le> j" "j \<le> 1" "0 \<le> d"
  shows "0 \<le> d + d * j * (r * 2 - 1)" and "d + d * j * (r * 2 - 1) \<le> d * (1 + j)"
proof -
  have dj: "0 \<le> d * j" "d * j \<le> d" using assms by (auto simp: mult_left_le)
  have "- (d * j) \<le> d * j * (r * 2 - 1)"
    using mult_left_mono [of "- 1" "r * 2 - 1" "d * j"] assms(1) dj(1) by simp
  with dj show "0 \<le> d + d * j * (r * 2 - 1)" by simp
  have "d * j * (r * 2 - 1) \<le> d * j"
    using mult_left_mono [of "r * 2 - 1" 1 "d * j"] assms(2) dj(1) by simp
  then show "d + d * j * (r * 2 - 1) \<le> d * (1 + j)" by (simp add: algebra_simps)
qed

lemma round_bounds:
  fixes x :: rat
  assumes "0 \<le> x"
  shows "0 \<le> \<lfloor>x + 1 / 2\<rfloor>" and "of_int \<lfloor>x + 1 / 2\<rfloor> \<le> x + 1 / 2"
  using assms by simp_all

lemma computeBackoff_no_jitter:
  assumes "assertRetryPolicy p = Inr ()" and "rp_jitterRatio p = None \<or> rp_jitterRatio p = Some (Fin 0)"
  shows "computeBackoffDelayMs a p rnd mr = Inr (backoff_raw a p)"
  using assms by (auto simp: computeBackoffDelayMs_def seqE_def Let_def)

lemma computeBackoff_error:
  "computeBackoffDelayMs a p rnd mr = Inl e \<longleftrightarrow> assertRetryPolicy p = Inl e"
  using unit_result_cases [of "assertRetryPolicy p"]
  by (auto simp: computeBackoffDelayMs_def seqE_def Let_def)

text \<open>The midpoint random value, which the queue passes, cancels the jitter up to rounding.\<close>

lemma computeBackoff_midpoint:
  assumes "assertRetryPolicy p = Inr ()" and "backoff_raw a p = Fin d" and "0 \<le> d"
  shows "\<exists>x. computeBackoffDelayMs a p (Some (Fin (1 / 2))) mr = Inr (Fin x) \<and>
           (x = d \<or> x = of_int \<lfloor>d + 1 / 2\<rfloor>)"
proof -
  from assms(1) have "\<exists>r. (case rp_jitterRatio p of None \<Rightarrow> Fin 0 | Some j \<Rightarrow> j) = Fin r"
    by (auto simp: assertRetryPolicy_ok_iff split: option.splits)
  with assms show ?thesis
    by (auto simp: computeBackoffDelayMs_def seqE_def Let_def max_def)
qed

text \<open>
  For a policy the guard accepts, an attempt number the exponent can represent (up to 1024, or
  any when the base delay is positive) and a random value in the unit interval, the delay is a
  finite number, never negative and at most the cap enlarged by the jitter ratio, rounded.
\<close>

theorem backoff_bounded:
  assumes ok: "assertRetryPolicy p = Inr ()"
    and cap: "rp_maxDelayMs p = Fin m" and base: "rp_baseDelayMs p = Fin b"
    and n: "1 \<le> n" "n \<le> 1024 \<or> 0 < b"
    and rnd: "0 \<le> r" "r \<le> 1"
  shows "\<exists>d. computeBackoffDelayMs (jsint n) p (Some (Fin r)) mr = Inr (Fin d) \<and>
           0 \<le> d \<and> d \<le> 2 * m + 1 / 2 \<and>
           (rp_jitterRatio p = None \<longrightarrow> d \<le> m)"
proof -
  from ok cap base obtain "0 \<le> b" "b \<le> m" by (auto simp: assertRetryPolicy_ok_iff)
  with base cap n obtain d where d: "backoff_raw (jsint n) p = Fin d" "0 \<le> d" "d \<le> m"
    by (metis backoff_raw_finite)
  show ?thesis
  proof (cases "rp_jitterRatio p")
    case None
    with ok d show ?thesis by (simp add: computeBackoff_no_jitter)
  next
    case (Some js)
    with ok obtain j where j: "js = Fin j" "0 \<le> j" "j \<le> 1" by (auto simp: assertRetryPolicy_ok_iff)
    let ?x = "d + d * j * (r * 2 - 1)"
    have x: "0 \<le> ?x" "?x \<le> d * (1 + j)" using jitter_bounds rnd j d by blast+
    have "d * (1 + j) \<le> m * 2" using d j by (intro mult_mono) auto
    with x have "?x \<le> 2 * m" by simp
    with x round_bounds [of ?x] have "0 \<le> \<lfloor>?x + 1 / 2\<rfloor>" "rat_of_int \<lfloor>?x + 1 / 2\<rfloor> \<le> 2 * m + 1 / 2"
      by linarith+
    with d ok Some j \<open>0 \<le> b\<close> \<open>b \<le> m\<close> show ?thesis
      by (auto simp: computeBackoffDelayMs_def seqE_def Let_def)
  qed
qed

theorem backoff_bounded_witness:
  "\<exists>d. computeBackoffDelayMs (jsint 3) defaultSubscriptionRetryPolicy (Some (Fin (1/4))) (Fin 0) =
      Inr (Fin d) \<and> 0 \<le> d \<and> d \<le> 2 * 60000 + 1 / 2"
  using backoff_bounded [of defaultSubscriptionRetryPolicy 60000 1000 3 "1/4" "Fin 0"]
  by (auto simp: defaultSubscriptionRetryPolicy_def
      assertRetryPolicy_def invalid_retry_policy_def)

text \<open>
  Without jitter the delay is exactly the base delay doubled once per earlier attempt and cut
  at the cap, so it never shrinks from one attempt to the next.
\<close>

theorem backoff_exponential:
  assumes "assertRetryPolicy p = Inr ()" and "rp_jitterRatio p = None"
    and "rp_baseDelayMs p = Fin b" and "rp_maxDelayMs p = Fin m"
    and "1 \<le> n" and "n < 1024"
  shows "computeBackoffDelayMs (jsint n) p rnd mr = Inr (Fin (min m (b * 2 ^ nat (n - 1)))) \<and>
         (\<exists>d d'. computeBackoffDelayMs (jsint n) p rnd mr = Inr (Fin d) \<and>
            computeBackoffDelayMs (jsint (n + 1)) p rnd mr = Inr (Fin d') \<and> d \<le> d')"
proof -
  have eq: "computeBackoffDelayMs (jsint k) p rnd mr = Inr (Fin (min m (b * 2 ^ nat (k - 1))))"
    if "1 \<le> k" "k \<le> 1024" for k
    using that assms(1-4) by (simp only: computeBackoff_no_jitter backoff_raw_exact simp_thms)
  have "(2::rat) ^ nat (n - 1) \<le> 2 ^ nat (n + 1 - 1)"
    by (intro power_increasing) auto
  moreover have "0 \<le> b" using assms by (auto simp: assertRetryPolicy_ok_iff)
  ultimately have "b * 2 ^ nat (n - 1) \<le> b * 2 ^ nat (n + 1 - 1)" by (rule mult_left_mono)
  then have "min m (b * 2 ^ nat (n - 1)) \<le> min m (b * 2 ^ nat (n + 1 - 1))"
    by (rule min.mono [OF order_refl])
  with eq [of n] eq [of "n + 1"] assms show ?thesis by auto
qed

theorem backoff_exponential_witness:
  "computeBackoffDelayMs (jsint 3)
     \<lparr>rp_maxAttempts = Fin 5, rp_baseDelayMs = Fin 100, rp_maxDelayMs = Fin 1000, rp_jitterRatio = None\<rparr>
     None (Fin 0) = Inr (Fin 400)"
  using backoff_exponential [of "\<lparr>rp_maxAttempts = Fin 5, rp_baseDelayMs = Fin 100,
      rp_maxDelayMs = Fin 1000, rp_jitterRatio = None\<rparr>" 100 1000 3 None "Fin 0"]
  by (simp add: assertRetryPolicy_def invalid_retry_policy_def)

text \<open>
  With a base delay of zero, which the guard accepts, the delay of an attempt beyond the 1024th
  is not a number: the power of two overflows to infinity and zero times infinity is \<open>NaN\<close>.
\<close>

theorem backoff_zero_base_overflow:
  assumes "assertRetryPolicy p = Inr ()" and "rp_jitterRatio p = None"
    and "rp_baseDelayMs p = Fin 0" and "1024 < n"
  shows "computeBackoffDelayMs (jsint n) p rnd mr = Inr NaN"
  using assms backoff_raw_overflow [of p 0 _ n]
  by (auto simp: computeBackoff_no_jitter assertRetryPolicy_ok_iff)

theorem backoff_zero_base_overflow_witness:
  "computeBackoffDelayMs (jsint 1025)
     \<lparr>rp_maxAttempts = Fin 2000, rp_baseDelayMs = Fin 0, rp_maxDelayMs = Fin 0, rp_jitterRatio = None\<rparr>
     None (Fin 0) = Inr NaN"
  by (rule backoff_zero_base_overflow) (simp_all add: assertRetryPolicy_def invalid_retry_policy_def)

end
