(* ===== verification/Queue_Validation.thy ===== *)
theory Queue_Validation
  imports Retry_Policy
begin

text \<open>
  The data of the task queue and its input checks: \<open>queue-task.ts\<close>, \<open>queue-envelope.ts\<close> and
  \<open>queue-validation.ts\<close> of \<open>src/queue-core/task-queue/domain\<close>. A check returns \<open>Inl\<close> of the error
  it throws. Where a check only repeats what the static type guarantees (an input that is an object,
  a date that is a \<open>Date\<close>), the type of the model carries it; metadata is of static type unknown in
  its check and stays a dynamic value.
\<close>

section \<open>Definitions\<close>

datatype task_status = Queued | Leased | Completed | RetryScheduled | DeadLettered

record 'job queue_task =
  qt_taskId :: string
  qt_job :: 'job
  qt_attempt :: jsnum
  qt_maxAttempts :: jsnum
  qt_idempotencyKey :: "string option"
  qt_runAfter :: date
  qt_createdAt :: date
  qt_metadata :: js_value

record 'job queue_claim =
  qc_task :: "'job queue_task"
  qc_leaseId :: string
  qc_leaseExpiresAt :: date

record 'job enqueue_input =
  ei_taskId :: "string option"
  ei_job :: 'job
  ei_idempotencyKey :: "string option"
  ei_runAfter :: "date option"
  ei_maxAttempts :: "jsnum option"
  ei_metadata :: "js_value option"

datatype enqueue_result = Accepted string | IdempotentReplay string

datatype fail_result = FailRetryScheduled jsnum date | FailDeadLettered

record 'job task_envelope =
  te_kind :: string
  te_version :: jsnum
  te_queueId :: string
  te_task :: "'job queue_task"

definition envelope_kind :: string where
  "envelope_kind = ''subscription_queue_task''"

definition subscriptionQueueTaskEnvelopeVersion :: jsnum where
  "subscriptionQueueTaskEnvelopeVersion = Fin 1"

definition buildSubscriptionQueueTaskEnvelope :: "string \<Rightarrow> 'job queue_task \<Rightarrow> 'job task_envelope" where
  "buildSubscriptionQueueTaskEnvelope queueId task =
     \<lparr>te_kind = envelope_kind, te_version = subscriptionQueueTaskEnvelopeVersion,
      te_queueId = queueId, te_task = task\<rparr>"

definition throwInvalidInput :: "string \<Rightarrow> queue_error + unit" where
  "throwInvalidInput message = Inl (SubscriptionQueueError InvalidInput message)"

definition assertNonBlankString :: "string \<Rightarrow> string \<Rightarrow> queue_error + unit" where
  "assertNonBlankString s message = (if js_trim s = [] then throwInvalidInput message else Inr ())"

definition assertValidDate :: "date \<Rightarrow> string \<Rightarrow> queue_error + unit" where
  "assertValidDate d message = (if getTime d = NaN then throwInvalidInput message else Inr ())"

fun string_entries :: "(string \<times> js_value) list \<Rightarrow> bool" where
  "string_entries [] = True"
| "string_entries ((k, v) # es) =
     (js_trim k \<noteq> [] \<and> (case v of JString _ \<Rightarrow> True | _ \<Rightarrow> False) \<and> string_entries es)"

definition assertStringRecord :: "js_value \<Rightarrow> string \<Rightarrow> queue_error + unit" where
  "assertStringRecord v message =
     (case v of
        JObject es \<Rightarrow> if string_entries es then Inr () else throwInvalidInput message
      | _ \<Rightarrow> throwInvalidInput message)"

definition assertSubscriptionQueueId :: "string \<Rightarrow> queue_error + unit" where
  "assertSubscriptionQueueId queueId = assertNonBlankString queueId ''Queue id is required.''"

definition positive_integer :: "jsnum \<Rightarrow> bool" where
  "positive_integer n = (js_isInteger n \<and> \<not> js_lt n (Fin 1))"

definition assertSubscriptionQueueEnqueueInput :: "'job enqueue_input \<Rightarrow> queue_error + unit" where
  "assertSubscriptionQueueEnqueueInput input = seqsE
     [case ei_taskId input of None \<Rightarrow> Inr ()
        | Some t \<Rightarrow> assertNonBlankString t ''Task id is required when provided.'',
      case ei_idempotencyKey input of None \<Rightarrow> Inr ()
        | Some k \<Rightarrow> assertNonBlankString k ''Idempotency key is required when provided.'',
      case ei_runAfter input of None \<Rightarrow> Inr ()
        | Some d \<Rightarrow> assertValidDate d ''Task runAfter must be a valid Date.'',
      case ei_maxAttempts input of None \<Rightarrow> Inr ()
        | Some n \<Rightarrow> if \<not> positive_integer n
                    then throwInvalidInput ''Task maxAttempts must be a positive integer.'' else Inr (),
      case ei_metadata input of None \<Rightarrow> Inr ()
        | Some m \<Rightarrow> assertStringRecord m ''Task metadata must contain strings.'']"

definition assertSubscriptionQueueClaimInput :: "jsnum \<Rightarrow> date option \<Rightarrow> queue_error + unit" where
  "assertSubscriptionQueueClaimInput leaseTtlMs now = seqsE
     [if \<not> js_isFinite leaseTtlMs \<or> js_le leaseTtlMs (Fin 0)
        then throwInvalidInput ''Lease TTL must be a positive finite number.'' else Inr (),
      case now of None \<Rightarrow> Inr () | Some d \<Rightarrow> assertValidDate d ''Claim time must be a valid Date.'']"

definition assertSubscriptionQueueTask :: "'job queue_task \<Rightarrow> queue_error + unit" where
  "assertSubscriptionQueueTask t = seqsE
     [assertNonBlankString (qt_taskId t) ''Task id is required.'',
      if \<not> positive_integer (qt_attempt t)
        then throwInvalidInput ''Task attempt must be a positive integer.'' else Inr (),
      if \<not> positive_integer (qt_maxAttempts t)
        then throwInvalidInput ''Task maxAttempts must be a positive integer.'' else Inr (),
      if js_lt (qt_maxAttempts t) (qt_attempt t)
        then throwInvalidInput ''Task attempt cannot exceed maxAttempts.'' else Inr (),
      case qt_idempotencyKey t of None \<Rightarrow> Inr ()
        | Some k \<Rightarrow> assertNonBlankString k ''Task idempotency key is required when provided.'',
      assertValidDate (qt_runAfter t) ''Task runAfter must be a valid Date.'',
      assertValidDate (qt_createdAt t) ''Task createdAt must be a valid Date.'',
      assertStringRecord (qt_metadata t) ''Task metadata must contain strings.'']"

definition assertSubscriptionQueueTaskEnvelope :: "'job task_envelope \<Rightarrow> queue_error + unit" where
  "assertSubscriptionQueueTaskEnvelope e = seqsE
     [if te_kind e \<noteq> envelope_kind \<or> te_version e \<noteq> subscriptionQueueTaskEnvelopeVersion
        then throwInvalidInput ''Task envelope is not supported.'' else Inr (),
      assertSubscriptionQueueId (te_queueId e),
      assertSubscriptionQueueTask (te_task e)]"

section \<open>What the checks accept\<close>

named_theorems queue_checks \<open>when a check of the queue's inputs passes\<close>

lemma assertNonBlankString_ok [queue_checks]: "assertNonBlankString s m = Inr () \<longleftrightarrow> js_trim s \<noteq> []"
  by (simp add: assertNonBlankString_def throwInvalidInput_def)

lemma assertValidDate_ok [queue_checks]: "assertValidDate d m = Inr () \<longleftrightarrow> valid_date d"
  by (cases d) (simp_all add: assertValidDate_def throwInvalidInput_def)

lemma positive_integer_iff [queue_checks]: "positive_integer n \<longleftrightarrow> (\<exists>i\<ge>1. n = jsint i)"
proof
  assume "positive_integer n"
  then obtain i where "n = jsint i" "\<not> js_lt (jsint i) (Fin 1)"
    by (auto simp: positive_integer_def js_isInteger_iff)
  then have "1 \<le> (of_int i :: rat)" by simp
  then have "1 \<le> i" by linarith
  with \<open>n = jsint i\<close> show "\<exists>i\<ge>1. n = jsint i" by blast
qed (auto simp: positive_integer_def)

lemma assertStringRecord_ok [queue_checks]:
  "assertStringRecord v m = Inr () \<longleftrightarrow> (\<exists>es. v = JObject es \<and> string_entries es)"
  by (auto simp: assertStringRecord_def throwInvalidInput_def split: js_value.splits)

lemma string_entries_iff:
  "string_entries es \<longleftrightarrow> (\<forall>(k, v)\<in>set es. js_trim k \<noteq> [] \<and> (\<exists>s. v = JString s))"
  by (induction es rule: string_entries.induct) (auto split: js_value.splits)

definition input_ok :: "'job enqueue_input \<Rightarrow> bool" where
  "input_ok i \<longleftrightarrow>
     (\<forall>t. ei_taskId i = Some t \<longrightarrow> js_trim t \<noteq> []) \<and>
     (\<forall>k. ei_idempotencyKey i = Some k \<longrightarrow> js_trim k \<noteq> []) \<and>
     (\<forall>d. ei_runAfter i = Some d \<longrightarrow> valid_date d) \<and>
     (\<forall>n. ei_maxAttempts i = Some n \<longrightarrow> (\<exists>m\<ge>1. n = jsint m)) \<and>
     (\<forall>v. ei_metadata i = Some v \<longrightarrow> (\<exists>es. v = JObject es \<and> string_entries es))"

definition task_ok :: "'job queue_task \<Rightarrow> bool" where
  "task_ok t \<longleftrightarrow> js_trim (qt_taskId t) \<noteq> [] \<and>
     (\<exists>n m. qt_attempt t = jsint n \<and> qt_maxAttempts t = jsint m \<and> 1 \<le> n \<and> n \<le> m) \<and>
     (\<forall>k. qt_idempotencyKey t = Some k \<longrightarrow> js_trim k \<noteq> []) \<and>
     valid_date (qt_runAfter t) \<and> valid_date (qt_createdAt t) \<and>
     (\<exists>es. qt_metadata t = JObject es \<and> string_entries es)"

lemma throwInvalidInput_neq [simp]: "throwInvalidInput m \<noteq> Inr ()"
  by (simp add: throwInvalidInput_def)

lemma enqueue_input_ok_iff [queue_checks]:
  "assertSubscriptionQueueEnqueueInput i = Inr () \<longleftrightarrow> input_ok i"
  by (auto simp: assertSubscriptionQueueEnqueueInput_def input_ok_def queue_checks split: option.splits if_splits)

lemma claim_input_ok_iff [queue_checks]:
  "assertSubscriptionQueueClaimInput ttl now = Inr () \<longleftrightarrow>
     (\<exists>r>0. ttl = Fin r) \<and> (\<forall>d. now = Some d \<longrightarrow> valid_date d)"
  by (cases ttl)
     (auto simp: assertSubscriptionQueueClaimInput_def queue_checks split: option.splits if_splits)

lemma attempt_range_iff:
  "(\<exists>n m. a = jsint n \<and> b = jsint m \<and> 1 \<le> n \<and> n \<le> m) \<longleftrightarrow>
     positive_integer a \<and> positive_integer b \<and> \<not> js_lt b a"
  by (fastforce simp: positive_integer_iff)

lemma queue_task_ok_iff [queue_checks]: "assertSubscriptionQueueTask t = Inr () \<longleftrightarrow> task_ok t"
  unfolding task_ok_def attempt_range_iff
  by (auto simp: assertSubscriptionQueueTask_def assertNonBlankString_ok assertValidDate_ok
      assertStringRecord_ok split: option.splits if_splits)

text \<open>
  The envelope the builder makes passes the envelope check exactly when its queue id is not
  blank and its task passes the task check: the builder and the check agree on kind and version.
\<close>

theorem built_envelope_accepted:
  "assertSubscriptionQueueTaskEnvelope (buildSubscriptionQueueTaskEnvelope queueId t) = Inr () \<longleftrightarrow>
     js_trim queueId \<noteq> [] \<and> assertSubscriptionQueueTask t = Inr ()"
  by (auto simp: assertSubscriptionQueueTaskEnvelope_def buildSubscriptionQueueTaskEnvelope_def
      assertSubscriptionQueueId_def queue_checks)

end
