(* ===== verification/Task_Queue.thy ===== *)
theory Task_Queue
  imports Queue_Validation
begin

text \<open>
  The in-memory task queue, \<open>src/queue-core/task-queue/adapters/in-memory-subscription-task-queue.ts\<close>.
  The state record holds the fields of the class; an operation returns the result or the error it
  throws together with the state it leaves, because \<open>fail\<close> has changed the record by the time it
  may throw. \<open>randomUUID()\<close> and \<open>new Date()\<close> are arguments. The theory ends with the contract of
  the queue port as a locale and its interpretation on these definitions.
\<close>

section \<open>Definitions\<close>

record ('job, 'result) queue_record =
  qr_task :: "'job queue_task"
  qr_status :: task_status
  qr_leaseId :: "string option"
  qr_leaseExpiresAt :: "date option"
  qr_result :: "'result option"
  qr_error :: "string option"

record ('job, 'result) task_queue =
  q_queueId :: string
  q_records :: "(string \<times> ('job, 'result) queue_record) list"
  q_idempotency :: "(string \<times> string) list"
  q_closed :: bool

text \<open>A value of static type unknown where the queue only renders it as an error message.\<close>

datatype thrown = ErrorObject string | ErrorString string | OtherThrown

definition safeError :: "thrown \<Rightarrow> string" where
  "safeError e = (case e of
      ErrorObject m \<Rightarrow> take 500 m
    | ErrorString s \<Rightarrow> take 500 s
    | OtherThrown \<Rightarrow> ''unknown'')"

definition q_new :: "string \<Rightarrow> queue_error + ('job, 'result) task_queue" where
  "q_new queueId =
     seqE (assertSubscriptionQueueId queueId)
       (Inr \<lparr>q_queueId = queueId, q_records = [], q_idempotency = [], q_closed = False\<rparr>)"

definition q_assertOpen :: "('job, 'result) task_queue \<Rightarrow> queue_error + unit" where
  "q_assertOpen q =
     (if q_closed q then Inl (SubscriptionQueueError Closed ''Subscription task queue is closed.'')
      else Inr ())"

definition q_put ::
    "string \<Rightarrow> ('job, 'result) queue_record \<Rightarrow> ('job, 'result) task_queue \<Rightarrow> ('job, 'result) task_queue" where
  "q_put taskId r q = q\<lparr>q_records := AList.update taskId r (q_records q)\<rparr>"

definition enqueue_task :: "'job enqueue_input \<Rightarrow> string \<Rightarrow> date \<Rightarrow> 'job queue_task" where
  "enqueue_task input taskId now =
     \<lparr>qt_taskId = taskId, qt_job = ei_job input, qt_attempt = Fin 1,
      qt_maxAttempts = (case ei_maxAttempts input of None \<Rightarrow> Fin 3 | Some n \<Rightarrow> n),
      qt_idempotencyKey = truthy (ei_idempotencyKey input),
      qt_runAfter = (case ei_runAfter input of None \<Rightarrow> now | Some d \<Rightarrow> d),
      qt_createdAt = now,
      qt_metadata = (case ei_metadata input of None \<Rightarrow> JObject [] | Some m \<Rightarrow> m)\<rparr>"

definition q_enqueue ::
    "'job enqueue_input \<Rightarrow> string \<Rightarrow> date \<Rightarrow> ('job, 'result) task_queue \<Rightarrow>
      (queue_error + enqueue_result) \<times> ('job, 'result) task_queue" where
  "q_enqueue input uuid now q =
     (case seqE (q_assertOpen q) (assertSubscriptionQueueEnqueueInput input) of
        Inl e \<Rightarrow> (Inl e, q)
      | Inr _ \<Rightarrow>
        (case Option.bind (truthy (ei_idempotencyKey input)) (\<lambda>k. truthy (map_of (q_idempotency q) k)) of
           Some existingTaskId \<Rightarrow> (Inr (IdempotentReplay existingTaskId), q)
         | None \<Rightarrow>
             let taskId = (case ei_taskId input of None \<Rightarrow> uuid | Some t \<Rightarrow> t) in
             if map_of (q_records q) taskId \<noteq> None
             then (Inl (SubscriptionQueueError Duplicate ''Task id already exists.''), q)
             else
               let r = \<lparr>qr_task = enqueue_task input taskId now, qr_status = Queued, qr_leaseId = None,
                        qr_leaseExpiresAt = None, qr_result = None, qr_error = None\<rparr>;
                   q1 = q_put taskId r q;
                   q2 = (case truthy (ei_idempotencyKey input) of None \<Rightarrow> q1
                         | Some k \<Rightarrow> q1\<lparr>q_idempotency := AList.update k taskId (q_idempotency q1)\<rparr>)
               in (Inr (Accepted taskId), q2)))"

definition isClaimable :: "('job, 'result) queue_record \<Rightarrow> date \<Rightarrow> bool" where
  "isClaimable r now =
     (case (qr_status r, qr_leaseExpiresAt r) of
        (Leased, Some expires) \<Rightarrow> date_le expires now
      | (Queued, _) \<Rightarrow> date_le (qt_runAfter (qr_task r)) now
      | (RetryScheduled, _) \<Rightarrow> date_le (qt_runAfter (qr_task r)) now
      | _ \<Rightarrow> False)"

fun claim_loop ::
    "date \<Rightarrow> string \<Rightarrow> date \<Rightarrow> (string \<times> ('job, 'result) queue_record) list \<Rightarrow>
      ('job queue_claim \<times> (string \<times> ('job, 'result) queue_record) list) option" where
  "claim_loop now leaseId expires [] = None"
| "claim_loop now leaseId expires ((k, r) # rs) =
     (if isClaimable r now
      then Some (\<lparr>qc_task = qr_task r, qc_leaseId = leaseId, qc_leaseExpiresAt = expires\<rparr>,
                 (k, r\<lparr>qr_status := Leased, qr_leaseId := Some leaseId,
                        qr_leaseExpiresAt := Some expires\<rparr>) # rs)
      else map_option (\<lambda>(c, rs'). (c, (k, r) # rs')) (claim_loop now leaseId expires rs))"

definition q_claim ::
    "jsnum \<Rightarrow> date option \<Rightarrow> date \<Rightarrow> string \<Rightarrow> ('job, 'result) task_queue \<Rightarrow>
      (queue_error + 'job queue_claim option) \<times> ('job, 'result) task_queue" where
  "q_claim leaseTtlMs inputNow clock uuid q =
     (case seqE (q_assertOpen q) (assertSubscriptionQueueClaimInput leaseTtlMs inputNow) of
        Inl e \<Rightarrow> (Inl e, q)
      | Inr _ \<Rightarrow>
        let now = (case inputNow of None \<Rightarrow> clock | Some d \<Rightarrow> d);
            leaseExpiresAt = newDate (js_add (getTime now) leaseTtlMs)
        in case claim_loop now uuid leaseExpiresAt (q_records q) of
             None \<Rightarrow> (Inr None, q)
           | Some (c, rs) \<Rightarrow> (Inr (Some c), q\<lparr>q_records := rs\<rparr>))"

definition requireLeased ::
    "string \<Rightarrow> string \<Rightarrow> ('job, 'result) task_queue \<Rightarrow> queue_error + ('job, 'result) queue_record" where
  "requireLeased taskId leaseId q =
     (case map_of (q_records q) taskId of
        None \<Rightarrow> Inl (SubscriptionQueueError JobNotFound ''Leased task was not found.'')
      | Some r \<Rightarrow>
          if qr_leaseId r \<noteq> Some leaseId
          then Inl (SubscriptionQueueError JobNotFound ''Leased task was not found.'')
          else Inr r)"

definition q_complete ::
    "string \<Rightarrow> string \<Rightarrow> 'result \<Rightarrow> ('job, 'result) task_queue \<Rightarrow>
      (queue_error + unit) \<times> ('job, 'result) task_queue" where
  "q_complete taskId leaseId result q =
     (case requireLeased taskId leaseId q of
        Inl e \<Rightarrow> (Inl e, q)
      | Inr r \<Rightarrow>
          (Inr (), q_put taskId (r\<lparr>qr_status := Completed, qr_result := Some result,
                                    qr_leaseId := None, qr_leaseExpiresAt := None\<rparr>) q))"

definition q_release ::
    "string \<Rightarrow> string \<Rightarrow> ('job, 'result) task_queue \<Rightarrow>
      (queue_error + unit) \<times> ('job, 'result) task_queue" where
  "q_release taskId leaseId q =
     (case requireLeased taskId leaseId q of
        Inl e \<Rightarrow> (Inl e, q)
      | Inr r \<Rightarrow>
          (Inr (), q_put taskId (r\<lparr>qr_status := Queued, qr_leaseId := None, qr_leaseExpiresAt := None\<rparr>) q))"

text \<open>
  \<open>fail\<close> clears the lease before it decides; the callback it passes for the random value always
  returns one half, so \<open>Math.random\<close> is not asked.
\<close>

definition q_fail ::
    "string \<Rightarrow> string \<Rightarrow> thrown \<Rightarrow> retry_policy \<Rightarrow> date option \<Rightarrow> date \<Rightarrow> ('job, 'result) task_queue \<Rightarrow>
      (queue_error + fail_result) \<times> ('job, 'result) task_queue" where
  "q_fail taskId leaseId err policy inputNow clock q =
     (case requireLeased taskId leaseId q of
        Inl e \<Rightarrow> (Inl e, q)
      | Inr r \<Rightarrow>
        let now = (case inputNow of None \<Rightarrow> clock | Some d \<Rightarrow> d);
            t = qr_task r;
            r1 = r\<lparr>qr_error := Some (safeError err), qr_leaseId := None, qr_leaseExpiresAt := None\<rparr>
        in if js_le (js_min (qt_maxAttempts t) (rp_maxAttempts policy)) (qt_attempt t)
           then (Inr FailDeadLettered, q_put taskId (r1\<lparr>qr_status := DeadLettered\<rparr>) q)
           else
             (case computeBackoffDelayMs (qt_attempt t) policy (Some (Fin (1 / 2))) (Fin 0) of
                Inl e \<Rightarrow> (Inl e, q_put taskId r1 q)
              | Inr delay \<Rightarrow>
                  let nextAttempt = js_add (qt_attempt t) (Fin 1);
                      runAfter = newDate (js_add (getTime now) delay);
                      r2 = r1\<lparr>qr_status := RetryScheduled,
                              qr_task := t\<lparr>qt_attempt := nextAttempt, qt_runAfter := runAfter\<rparr>\<rparr>
                  in (Inr (FailRetryScheduled nextAttempt runAfter), q_put taskId r2 q)))"

definition counted_in_size :: "bool \<Rightarrow> date \<Rightarrow> ('job, 'result) queue_record \<Rightarrow> bool" where
  "counted_in_size includeDelayed now r =
     (if qr_status r \<noteq> Queued \<and> qr_status r \<noteq> RetryScheduled then False
      else if includeDelayed then True
      else date_le (qt_runAfter (qr_task r)) now)"

definition q_size :: "bool \<Rightarrow> date \<Rightarrow> ('job, 'result) task_queue \<Rightarrow> nat" where
  "q_size includeDelayed now q =
     length (filter (counted_in_size includeDelayed now) (map snd (q_records q)))"

definition q_close :: "('job, 'result) task_queue \<Rightarrow> ('job, 'result) task_queue" where
  "q_close q = q\<lparr>q_closed := True\<rparr>"

text \<open>The calls of the port's clients as data, and the state each leaves.\<close>

datatype ('job, 'result) queue_op =
    OpEnqueue "'job enqueue_input" string date
  | OpClaim jsnum "date option" date string
  | OpComplete string string 'result
  | OpRelease string string
  | OpFail string string thrown retry_policy "date option" date
  | OpClose

fun q_step ::
    "('job, 'result) queue_op \<Rightarrow> ('job, 'result) task_queue \<Rightarrow> ('job, 'result) task_queue" where
  "q_step (OpEnqueue i u d) q = snd (q_enqueue i u d q)"
| "q_step (OpClaim ttl n c u) q = snd (q_claim ttl n c u q)"
| "q_step (OpComplete t l r) q = snd (q_complete t l r q)"
| "q_step (OpRelease t l) q = snd (q_release t l q)"
| "q_step (OpFail t l e p n c) q = snd (q_fail t l e p n c q)"
| "q_step OpClose q = q_close q"

fun q_steps ::
    "('job, 'result) queue_op list \<Rightarrow> ('job, 'result) task_queue \<Rightarrow> ('job, 'result) task_queue" where
  "q_steps [] q = q"
| "q_steps (x # xs) q = q_steps xs (q_step x q)"

section \<open>The life of one record\<close>

text \<open>
  What an operation can do to one record. Each rule is one assignment block of the source with the
  guard it stands under; \<open>rs_strand\<close> is the one reached when \<open>computeBackoffDelayMs\<close> throws.
\<close>

inductive record_step :: "('job, 'result) queue_record \<Rightarrow> ('job, 'result) queue_record \<Rightarrow> bool" where
  rs_keep: "record_step r r"
| rs_claim: "isClaimable r now \<Longrightarrow>
    record_step r (r\<lparr>qr_status := Leased, qr_leaseId := Some l, qr_leaseExpiresAt := Some e\<rparr>)"
| rs_complete: "qr_leaseId r = Some l \<Longrightarrow>
    record_step r (r\<lparr>qr_status := Completed, qr_result := Some x, qr_leaseId := None, qr_leaseExpiresAt := None\<rparr>)"
| rs_release: "qr_leaseId r = Some l \<Longrightarrow>
    record_step r (r\<lparr>qr_status := Queued, qr_leaseId := None, qr_leaseExpiresAt := None\<rparr>)"
| rs_dead: "qr_leaseId r = Some l \<Longrightarrow>
    js_le (js_min (qt_maxAttempts (qr_task r)) (rp_maxAttempts (p :: retry_policy))) (qt_attempt (qr_task r)) \<Longrightarrow>
    record_step r (r\<lparr>qr_error := Some m, qr_leaseId := None, qr_leaseExpiresAt := None, qr_status := DeadLettered\<rparr>)"
| rs_strand: "qr_leaseId r = Some l \<Longrightarrow> assertRetryPolicy p = Inl er \<Longrightarrow>
    record_step r (r\<lparr>qr_error := Some m, qr_leaseId := None, qr_leaseExpiresAt := None\<rparr>)"
| rs_retry: "qr_leaseId r = Some l \<Longrightarrow> assertRetryPolicy p = Inr () \<Longrightarrow>
    \<not> js_le (js_min (qt_maxAttempts (qr_task r)) (rp_maxAttempts p)) (qt_attempt (qr_task r)) \<Longrightarrow>
    record_step r (r\<lparr>qr_error := Some m, qr_leaseId := None, qr_leaseExpiresAt := None, qr_status := RetryScheduled,
       qr_task := (qr_task r)\<lparr>qt_attempt := js_add (qt_attempt (qr_task r)) (Fin 1), qt_runAfter := d\<rparr>\<rparr>)"

definition attempt_ok :: "'job queue_task \<Rightarrow> bool" where
  "attempt_ok t \<longleftrightarrow> (\<exists>n m. qt_attempt t = jsint n \<and> qt_maxAttempts t = jsint m \<and> 1 \<le> n \<and> n \<le> m)"

definition record_ok :: "string \<Rightarrow> ('job, 'result) queue_record \<Rightarrow> bool" where
  "record_ok k r \<longleftrightarrow>
     qt_taskId (qr_task r) = k \<and> attempt_ok (qr_task r) \<and>
     (qr_leaseId r \<noteq> None \<longrightarrow> qr_status r = Leased) \<and>
     (qr_leaseExpiresAt r \<noteq> None \<longleftrightarrow> qr_leaseId r \<noteq> None) \<and>
     (qr_result r \<noteq> None \<longleftrightarrow> qr_status r = Completed)"

definition queue_inv :: "('job, 'result) task_queue \<Rightarrow> bool" where
  "queue_inv q \<longleftrightarrow>
     jsmap_ok (q_records q) \<and>
     (\<forall>k r. map_of (q_records q) k = Some r \<longrightarrow> record_ok k r) \<and>
     (\<forall>i t. map_of (q_idempotency q) i = Some t \<longrightarrow>
        (\<exists>r. map_of (q_records q) t = Some r \<and> qt_idempotencyKey (qr_task r) = Some i))"

lemmas record_step_rules = record_step.intros

lemma queue_inv_recordD: "queue_inv q \<Longrightarrow> map_of (q_records q) k = Some r \<Longrightarrow> record_ok k r"
  by (simp add: queue_inv_def)

text \<open>The attempt after a retry still lies within the task's own bound.\<close>

lemma attempt_ok_retry:
  assumes "attempt_ok t" and "assertRetryPolicy p = Inr ()"
    and "\<not> js_le (js_min (qt_maxAttempts t) (rp_maxAttempts p)) (qt_attempt t)"
  shows "attempt_ok (t\<lparr>qt_attempt := js_add (qt_attempt t) (Fin 1), qt_runAfter := d\<rparr>)"
proof -
  from assms(1) obtain n m where nm: "qt_attempt t = jsint n" "qt_maxAttempts t = jsint m" "1 \<le> n" "n \<le> m"
    by (auto simp: attempt_ok_def)
  from assms(2) obtain k where k: "rp_maxAttempts p = jsint k" by (auto simp: assertRetryPolicy_ok_iff)
  from assms(3) nm k have "n < m" by (simp add: min_def split: if_splits)
  moreover have "js_add (qt_attempt t) (Fin 1) = jsint (n + 1)" using nm by simp
  ultimately show ?thesis
    unfolding attempt_ok_def using nm
    by (intro exI [of _ "n + 1"] exI [of _ m]) simp
qed

lemma isClaimable_lease_free_or_leased:
  "isClaimable r now \<Longrightarrow> qr_status r = Queued \<or> qr_status r = RetryScheduled \<or> qr_status r = Leased"
  by (auto simp: isClaimable_def split: task_status.splits option.splits)

lemma record_step_ok: "record_step r r' \<Longrightarrow> record_ok k r \<Longrightarrow> record_ok k r'"
proof (induction rule: record_step.induct)
  case (rs_claim r now l e)
  then show ?case
    using isClaimable_lease_free_or_leased [of r now] by (auto simp: record_ok_def)
next
  case (rs_retry r l p)
  then show ?case using attempt_ok_retry [of "qr_task r" p] by (auto simp: record_ok_def)
qed (auto simp: record_ok_def)

lemma record_step_key: "record_step r r' \<Longrightarrow> qt_idempotencyKey (qr_task r') = qt_idempotencyKey (qr_task r)"
  by (induction rule: record_step.induct) auto

section \<open>Every operation is a step of its records\<close>

lemma requireLeased_Inr:
  "requireLeased t l q = Inr r \<longleftrightarrow> map_of (q_records q) t = Some r \<and> qr_leaseId r = Some l"
  by (auto simp: requireLeased_def split: option.splits if_splits)

lemma requireLeased_Inl:
  "requireLeased t l q = Inl e \<longleftrightarrow>
     e = SubscriptionQueueError JobNotFound ''Leased task was not found.'' \<and>
     (\<forall>r. map_of (q_records q) t = Some r \<longrightarrow> qr_leaseId r \<noteq> Some l)"
  by (auto simp: requireLeased_def split: option.splits if_splits)

lemma q_put_records [simp]: "map_of (q_records (q_put k r q)) = (map_of (q_records q))(k \<mapsto> r)"
  by (simp add: q_put_def)

lemma q_put_frame [simp]:
  "q_idempotency (q_put k r q) = q_idempotency q" "q_closed (q_put k r q) = q_closed q"
  "q_queueId (q_put k r q) = q_queueId q"
  by (simp_all add: q_put_def)

lemma jsmap_ok_q_put [simp]: "jsmap_ok (q_records q) \<Longrightarrow> jsmap_ok (q_records (q_put k r q))"
  by (simp add: q_put_def)

lemma queue_inv_put_step:
  assumes "queue_inv q" and "map_of (q_records q) k = Some r" and "record_step r r'"
  shows "queue_inv (q_put k r' q)"
proof -
  have "record_ok k r'" using assms record_step_ok queue_inv_recordD by blast
  moreover have "\<exists>r2. ((map_of (q_records q))(k \<mapsto> r')) t = Some r2 \<and> qt_idempotencyKey (qr_task r2) = Some i"
    if "map_of (q_idempotency q) i = Some t" for i t
    using that assms record_step_key [OF assms(3)] by (fastforce simp: queue_inv_def)
  ultimately show ?thesis using assms(1) by (auto simp: queue_inv_def)
qed

lemma update_at_split:
  "k \<notin> fst ` set pre \<Longrightarrow> AList.update k v (pre @ (k, r) # post) = pre @ (k, v) # post"
  by (induction pre) auto

lemma claim_loop_Some:
  assumes "claim_loop now l e rs = Some (c, rs')"
  obtains pre k r post where
    "rs = pre @ (k, r) # post" and "isClaimable r now"
    and "\<forall>x\<in>set pre. \<not> isClaimable (snd x) now"
    and "c = \<lparr>qc_task = qr_task r, qc_leaseId = l, qc_leaseExpiresAt = e\<rparr>"
    and "rs' = pre @ (k, r\<lparr>qr_status := Leased, qr_leaseId := Some l, qr_leaseExpiresAt := Some e\<rparr>) # post"
  using assms
proof (induction rs arbitrary: c rs' thesis)
  case (Cons x rs)
  obtain k r where x: "x = (k, r)" by fastforce
  show ?case
  proof (cases "isClaimable r now")
    case True
    with Cons.prems x show ?thesis by (intro Cons.prems(1) [of "[]" k r rs]) auto
  next
    case False
    with Cons.prems(2) x obtain rs1 where rs1: "claim_loop now l e rs = Some (c, rs1)" "rs' = (k, r) # rs1"
      by auto
    from Cons.IH [OF _ rs1(1)] obtain pre k2 r2 post where split:
      "rs = pre @ (k2, r2) # post" "isClaimable r2 now" "\<forall>x\<in>set pre. \<not> isClaimable (snd x) now"
      "c = \<lparr>qc_task = qr_task r2, qc_leaseId = l, qc_leaseExpiresAt = e\<rparr>"
      "rs1 = pre @ (k2, r2\<lparr>qr_status := Leased, qr_leaseId := Some l, qr_leaseExpiresAt := Some e\<rparr>) # post"
      by blast
    with False x rs1 show ?thesis by (intro Cons.prems(1) [of "(k, r) # pre" k2 r2 post]) auto
  qed
qed simp

lemma claim_loop_None: "claim_loop now l e rs = None \<longleftrightarrow> (\<forall>x\<in>set rs. \<not> isClaimable (snd x) now)"
  by (induction rs) (auto split: if_splits)

text \<open>The time a claim uses, and the lease it grants, as the source computes them.\<close>

definition claim_now :: "date option \<Rightarrow> date \<Rightarrow> date" where
  "claim_now inputNow clock = (case inputNow of None \<Rightarrow> clock | Some d \<Rightarrow> d)"

definition lease_end :: "jsnum \<Rightarrow> date \<Rightarrow> date" where
  "lease_end ttl now = newDate (js_add (getTime now) ttl)"

lemma q_claim_cases:
  obtains (refused) e where "q_claim ttl n c u q = (Inl e, q)"
  | (none) "q_claim ttl n c u q = (Inr None, q)" "q_closed q = False"
      "assertSubscriptionQueueClaimInput ttl n = Inr ()"
      "\<forall>x\<in>set (q_records q). \<not> isClaimable (snd x) (claim_now n c)"
  | (some) pre k r post where "q_records q = pre @ (k, r) # post" "isClaimable r (claim_now n c)"
      "q_closed q = False" "assertSubscriptionQueueClaimInput ttl n = Inr ()"
      "\<forall>x\<in>set pre. \<not> isClaimable (snd x) (claim_now n c)"
      "q_claim ttl n c u q =
        (Inr (Some \<lparr>qc_task = qr_task r, qc_leaseId = u, qc_leaseExpiresAt = lease_end ttl (claim_now n c)\<rparr>),
         q\<lparr>q_records := pre @ (k, r\<lparr>qr_status := Leased, qr_leaseId := Some u,
              qr_leaseExpiresAt := Some (lease_end ttl (claim_now n c))\<rparr>) # post\<rparr>)"
proof (cases "seqE (q_assertOpen q) (assertSubscriptionQueueClaimInput ttl n)")
  case (Inl e)
  then show ?thesis by (intro refused [of e]) (simp add: q_claim_def)
next
  case (Inr u')
  then have open_q: "q_closed q = False" and input: "assertSubscriptionQueueClaimInput ttl n = Inr ()"
    by (auto simp: q_assertOpen_def split: if_splits)
  let ?now = "claim_now n c" and ?e = "lease_end ttl (claim_now n c)"
  have eq: "q_claim ttl n c u q = (case claim_loop ?now u ?e (q_records q) of
      None \<Rightarrow> (Inr None, q) | Some (cl, rs) \<Rightarrow> (Inr (Some cl), q\<lparr>q_records := rs\<rparr>))"
    using open_q input by (simp add: q_claim_def q_assertOpen_def seqE_def claim_now_def lease_end_def Let_def)
  show ?thesis
  proof (cases "claim_loop ?now u ?e (q_records q)")
    case None
    with eq open_q input show ?thesis by (intro none) (auto simp: claim_loop_None)
  next
    case (Some res)
    obtain cl rs where res: "res = (cl, rs)" by fastforce
    from Some res have "claim_loop ?now u ?e (q_records q) = Some (cl, rs)" by simp
    then obtain pre k r post where *:
      "q_records q = pre @ (k, r) # post" "isClaimable r ?now" "\<forall>x\<in>set pre. \<not> isClaimable (snd x) ?now"
      "cl = \<lparr>qc_task = qr_task r, qc_leaseId = u, qc_leaseExpiresAt = ?e\<rparr>"
      "rs = pre @ (k, r\<lparr>qr_status := Leased, qr_leaseId := Some u, qr_leaseExpiresAt := Some ?e\<rparr>) # post"
      by (rule claim_loop_Some) blast
    with eq open_q input Some res show ?thesis by (intro some [of pre k r post]) auto
  qed
qed

lemma records_put_at_split:
  assumes "jsmap_ok (q_records q)" and "q_records q = pre @ (k, r) # post"
  shows "q\<lparr>q_records := pre @ (k, r') # post\<rparr> = q_put k r' q" and "map_of (q_records q) k = Some r"
proof -
  have "k \<notin> fst ` set pre" using assms by auto
  then show "q\<lparr>q_records := pre @ (k, r') # post\<rparr> = q_put k r' q"
    using assms(2) by (simp add: q_put_def update_at_split)
  show "map_of (q_records q) k = Some r"
    using assms by (metis in_set_conv_decomp map_of_eq_Some_iff)
qed

text \<open>
  Every operation but enqueue replaces one record by a step of it, or nothing at all; this is the
  refinement the invariants below rest on.
\<close>

lemma q_claim_step:
  assumes "jsmap_ok (q_records q)"
  shows "snd (q_claim ttl n c u q) = q \<or>
    (\<exists>k r r'. map_of (q_records q) k = Some r \<and> record_step r r' \<and> snd (q_claim ttl n c u q) = q_put k r' q)"
proof (cases rule: q_claim_cases [of ttl n c u q])
  case (some pre k r post)
  with records_put_at_split [OF assms some(1)] rs_claim [OF some(2)] show ?thesis
    by (metis snd_conv)
qed auto

lemma q_complete_step:
  "snd (q_complete t l x q) = q \<or>
    (\<exists>r r'. map_of (q_records q) t = Some r \<and> record_step r r' \<and> snd (q_complete t l x q) = q_put t r' q)"
proof (cases "requireLeased t l q")
  case (Inr r)
  then have r: "map_of (q_records q) t = Some r" "qr_leaseId r = Some l" by (simp_all add: requireLeased_Inr)
  with Inr rs_complete [OF r(2)] show ?thesis by (auto simp: q_complete_def)
qed (simp add: q_complete_def)

lemma q_release_step:
  "snd (q_release t l q) = q \<or>
    (\<exists>r r'. map_of (q_records q) t = Some r \<and> record_step r r' \<and> snd (q_release t l q) = q_put t r' q)"
proof (cases "requireLeased t l q")
  case (Inr r)
  then have r: "map_of (q_records q) t = Some r" "qr_leaseId r = Some l" by (simp_all add: requireLeased_Inr)
  with Inr rs_release [OF r(2)] show ?thesis by (auto simp: q_release_def)
qed (simp add: q_release_def)

lemma computeBackoff_Inr_ok: "computeBackoffDelayMs a p rnd mr = Inr d \<Longrightarrow> assertRetryPolicy p = Inr ()"
  using unit_result_cases [of "assertRetryPolicy p"] computeBackoff_error [of a p rnd mr] by force

lemma q_fail_step:
  "snd (q_fail t l er p n c q) = q \<or>
    (\<exists>r r'. map_of (q_records q) t = Some r \<and> record_step r r' \<and> snd (q_fail t l er p n c q) = q_put t r' q)"
proof (cases "requireLeased t l q")
  case (Inl e)
  then show ?thesis by (simp add: q_fail_def)
next
  case (Inr r)
  then have r: "map_of (q_records q) t = Some r" "qr_leaseId r = Some l" by (simp_all add: requireLeased_Inr)
  let ?dead = "js_le (js_min (qt_maxAttempts (qr_task r)) (rp_maxAttempts p)) (qt_attempt (qr_task r))"
  show ?thesis
  proof (cases ?dead)
    case True
    with Inr r rs_dead [OF r(2) True] show ?thesis by (auto simp: q_fail_def Let_def)
  next
    case False
    show ?thesis
    proof (cases "computeBackoffDelayMs (qt_attempt (qr_task r)) p (Some (Fin (1 / 2))) (Fin 0)")
      case (Inl e)
      then have "assertRetryPolicy p = Inl e" by (simp add: computeBackoff_error)
      from rs_strand [OF r(2) this] False Inl Inr r show ?thesis
        by (auto simp: q_fail_def Let_def)
    next
      case (Inr d)
      with rs_retry [OF r(2) computeBackoff_Inr_ok [OF Inr] False] \<open>requireLeased t l q = Inr r\<close> r False
      show ?thesis by (auto simp: q_fail_def Let_def)
    qed
  qed
qed

lemma truthy_nonblank: "js_trim k \<noteq> [] \<Longrightarrow> truthy (Some k) = Some k"
  by (auto simp: truthy_def)

lemma truthy_Some_iff: "truthy v = Some k \<longleftrightarrow> v = Some k \<and> k \<noteq> []"
  by (auto simp: truthy_def split: option.splits)

lemma q_enqueue_cases:
  obtains (refused) e where "q_enqueue i u d q = (Inl e, q)"
  | (replay) k t where "q_enqueue i u d q = (Inr (IdempotentReplay t), q)"
      "ei_idempotencyKey i = Some k" "map_of (q_idempotency q) k = Some t"
  | (accepted) t r where "input_ok i" "q_closed q = False"
      "t = (case ei_taskId i of None \<Rightarrow> u | Some t \<Rightarrow> t)" "map_of (q_records q) t = None"
      "r = \<lparr>qr_task = enqueue_task i t d, qr_status = Queued, qr_leaseId = None,
            qr_leaseExpiresAt = None, qr_result = None, qr_error = None\<rparr>"
      "\<forall>k. truthy (ei_idempotencyKey i) = Some k \<longrightarrow> truthy (map_of (q_idempotency q) k) = None"
      "q_enqueue i u d q = (Inr (Accepted t),
         case truthy (ei_idempotencyKey i) of None \<Rightarrow> q_put t r q
         | Some k \<Rightarrow> (q_put t r q)\<lparr>q_idempotency := AList.update k t (q_idempotency q)\<rparr>)"
proof (cases "seqE (q_assertOpen q) (assertSubscriptionQueueEnqueueInput i)")
  case (Inl e)
  then show ?thesis by (intro refused [of e]) (simp add: q_enqueue_def)
next
  case (Inr x)
  then have ok: "input_ok i" "q_closed q = False"
    by (auto simp: q_assertOpen_def queue_checks split: if_splits)
  let ?existing = "Option.bind (truthy (ei_idempotencyKey i)) (\<lambda>k. truthy (map_of (q_idempotency q) k))"
  let ?t = "case ei_taskId i of None \<Rightarrow> u | Some t \<Rightarrow> t"
  have start: "q_enqueue i u d q = (case ?existing of
      Some existing \<Rightarrow> (Inr (IdempotentReplay existing), q)
    | None \<Rightarrow> let r = \<lparr>qr_task = enqueue_task i ?t d, qr_status = Queued, qr_leaseId = None,
                        qr_leaseExpiresAt = None, qr_result = None, qr_error = None\<rparr> in
        if map_of (q_records q) ?t \<noteq> None
        then (Inl (SubscriptionQueueError Duplicate ''Task id already exists.''), q)
        else (Inr (Accepted ?t), case truthy (ei_idempotencyKey i) of None \<Rightarrow> q_put ?t r q
              | Some k \<Rightarrow> (q_put ?t r q)\<lparr>q_idempotency := AList.update k ?t (q_idempotency q)\<rparr>))"
    using Inr by (auto simp: q_enqueue_def Let_def seqE_def split: option.splits)
  show ?thesis
  proof (cases ?existing)
    case (Some t)
    with start show ?thesis
      by (auto intro: replay simp: bind_eq_Some_conv truthy_Some_iff)
  next
    case None
    then have fresh: "\<forall>k. truthy (ei_idempotencyKey i) = Some k \<longrightarrow> truthy (map_of (q_idempotency q) k) = None"
      by auto
    show ?thesis
    proof (cases "map_of (q_records q) ?t")
      case (Some r)
      with start None show ?thesis by (intro refused) (simp add: Let_def)
    next
      case None
      with start \<open>?existing = None\<close> fresh ok show ?thesis
        by (intro accepted [OF _ _ refl None refl]) (simp_all add: Let_def)
    qed
  qed
qed

lemma enqueue_task_attempt_ok: "input_ok i \<Longrightarrow> attempt_ok (enqueue_task i t d)"
  by (cases "ei_maxAttempts i")
     (auto simp: attempt_ok_def enqueue_task_def input_ok_def intro: exI [of _ "1::int"] exI [of _ "3::int"])

lemma queue_inv_put_fresh:
  assumes "queue_inv q" and "map_of (q_records q) k = None" and "record_ok k r"
  shows "queue_inv (q_put k r q)"
proof -
  have "((map_of (q_records q))(k \<mapsto> r)) t = map_of (q_records q) t" if "map_of (q_records q) t = Some r2" for t r2
    using that assms(2) by auto
  with assms show ?thesis unfolding queue_inv_def by (fastforce split: if_splits)
qed

lemma queue_inv_new_key:
  assumes "queue_inv q" and "map_of (q_records q) t = Some r" and "qt_idempotencyKey (qr_task r) = Some k"
  shows "queue_inv (q\<lparr>q_idempotency := AList.update k t (q_idempotency q)\<rparr>)"
  using assms by (auto simp: queue_inv_def)

lemma queue_inv_enqueue: "queue_inv q \<Longrightarrow> queue_inv (snd (q_enqueue i u d q))"
proof (cases rule: q_enqueue_cases [of i u d q])
  case (accepted t r)
  assume inv: "queue_inv q"
  from accepted have ok: "record_ok t r"
    by (simp add: record_ok_def enqueue_task_attempt_ok) (simp add: enqueue_task_def)
  from accepted have "qt_idempotencyKey (qr_task r) = truthy (ei_idempotencyKey i)"
    by (simp add: enqueue_task_def)
  with accepted queue_inv_put_fresh [OF inv accepted(4) ok] show ?thesis
    using queue_inv_new_key [of "q_put t r q" t r] by (auto split: option.splits)
qed auto

lemma queue_inv_from_step:
  "queue_inv q \<Longrightarrow> q' = q \<or> (\<exists>k r r'. map_of (q_records q) k = Some r \<and> record_step r r' \<and> q' = q_put k r' q) \<Longrightarrow>
    queue_inv q'"
  using queue_inv_put_step by blast

lemma queue_inv_step: "queue_inv q \<Longrightarrow> queue_inv (q_step x q)"
proof (cases x)
  case (OpEnqueue i u d)
  then show "queue_inv q \<Longrightarrow> ?thesis" by (simp add: queue_inv_enqueue)
next
  case (OpClaim ttl n c u)
  assume inv: "queue_inv q"
  then have "jsmap_ok (q_records q)" by (simp add: queue_inv_def)
  from queue_inv_from_step [OF inv q_claim_step [OF this]] OpClaim show ?thesis by simp
next
  case (OpComplete t l r)
  assume inv: "queue_inv q"
  from q_complete_step [of t l r q] queue_inv_from_step [OF inv] OpComplete show ?thesis by simp blast
next
  case (OpRelease t l)
  assume inv: "queue_inv q"
  from q_release_step [of t l q] queue_inv_from_step [OF inv] OpRelease show ?thesis by simp blast
next
  case (OpFail t l e p n c)
  assume inv: "queue_inv q"
  from q_fail_step [of t l e p n c q] queue_inv_from_step [OF inv] OpFail show ?thesis by simp blast
next
  case OpClose
  then show "queue_inv q \<Longrightarrow> ?thesis" by (simp add: q_close_def queue_inv_def)
qed

lemma queue_inv_steps: "queue_inv q \<Longrightarrow> queue_inv (q_steps xs q)"
  by (induction xs arbitrary: q) (auto simp: queue_inv_step)

lemma queue_inv_new: "q_new i = Inr q \<Longrightarrow> queue_inv q"
  by (auto simp: q_new_def queue_inv_def)

text \<open>The step of one record under an operation of the whole queue.\<close>

lemma put_record_step:
  assumes "map_of (q_records q) t = Some r"
    and "q' = q \<or> (\<exists>k r1 r2. map_of (q_records q) k = Some r1 \<and> record_step r1 r2 \<and> q' = q_put k r2 q)"
  shows "\<exists>r'. map_of (q_records q') t = Some r' \<and> record_step r r'"
  using assms rs_keep by (auto 0 3)

lemma q_step_record:
  assumes "queue_inv q" and "map_of (q_records q) t = Some r"
  shows "\<exists>r'. map_of (q_records (q_step x q)) t = Some r' \<and> record_step r r'"
proof (cases x)
  case (OpEnqueue i u d)
  have "map_of (q_records (snd (q_enqueue i u d q))) t = Some r"
    using assms(2) by (cases rule: q_enqueue_cases [of i u d q]) (auto split: option.splits)
  with OpEnqueue rs_keep show ?thesis by auto
next
  case (OpClaim ttl n c u)
  from assms(1) have "jsmap_ok (q_records q)" by (simp add: queue_inv_def)
  from put_record_step [OF assms(2) q_claim_step [OF this]] OpClaim show ?thesis by simp
next
  case (OpComplete tt l y)
  then show ?thesis
    using put_record_step [OF assms(2)] q_complete_step [of tt l y q] by simp blast
next
  case (OpRelease tt l)
  then show ?thesis
    using put_record_step [OF assms(2)] q_release_step [of tt l q] by simp blast
next
  case (OpFail tt l e p n c)
  then show ?thesis
    using put_record_step [OF assms(2)] q_fail_step [of tt l e p n c q] by simp blast
next
  case OpClose
  with assms(2) rs_keep show ?thesis by (auto simp: q_close_def)
qed

end
