(* ===== verification/Queue_Laws.thy ===== *)
theory Queue_Laws
  imports Task_Queue
begin

text \<open>
  What the in-memory task queue promises over whole histories of calls: leases are exclusive and
  fenced, records that have ended stay ended, idempotency keys are honoured, claims are first in
  first out, and a failed attempt is retried within its budget and not before its time. The theory
  closes with the contract of \<open>SubscriptionTaskQueuePort\<close>
  (\<open>src/queue-core/task-queue/ports/subscription-task-queue-port.ts\<close>) as a locale, interpreted on
  the queue of \<open>Task_Queue\<close>.
\<close>

section \<open>Histories\<close>

lemma q_steps_append: "q_steps (xs @ ys) q = q_steps ys (q_steps xs q)"
  by (induction xs arbitrary: q) auto

text \<open>The life of a task as its status shows it.\<close>

inductive lifecycle :: "task_status \<Rightarrow> task_status \<Rightarrow> bool" where
  "lifecycle Queued Leased"
| "lifecycle RetryScheduled Leased"
| "lifecycle Leased Leased"
| "lifecycle Leased Queued"
| "lifecycle Leased RetryScheduled"
| "lifecycle Leased Completed"
| "lifecycle Leased DeadLettered"

inductive_simps lifecycle_from_end: "lifecycle Completed s" "lifecycle DeadLettered s"

lemma record_step_lifecycle:
  "record_step r r' \<Longrightarrow> record_ok k r \<Longrightarrow> qr_status r' = qr_status r \<or> lifecycle (qr_status r) (qr_status r')"
  by (induction rule: record_step.induct)
     (auto simp: record_ok_def intro: lifecycle.intros dest!: isClaimable_lease_free_or_leased)

lemma record_step_fixed:
  "record_step r r' \<Longrightarrow> qt_taskId (qr_task r') = qt_taskId (qr_task r) \<and> qt_job (qr_task r') = qt_job (qr_task r) \<and>
    qt_maxAttempts (qr_task r') = qt_maxAttempts (qr_task r) \<and> qt_createdAt (qr_task r') = qt_createdAt (qr_task r)"
  by (induction rule: record_step.induct) auto

lemma record_steps:
  assumes "queue_inv q" and "map_of (q_records q) t = Some r"
  shows "\<exists>r'. map_of (q_records (q_steps xs q)) t = Some r' \<and> record_step\<^sup>*\<^sup>* r r'"
  using assms
proof (induction xs arbitrary: q r)
  case (Cons x xs)
  from q_step_record [OF Cons.prems] obtain r1
    where "map_of (q_records (q_step x q)) t = Some r1" "record_step r r1" by blast
  with Cons.IH [OF queue_inv_step [OF Cons.prems(1)]] show ?case
    by (metis converse_rtranclp_into_rtranclp q_steps.simps(2))
qed auto

lemma record_steps_fixed:
  "record_step\<^sup>*\<^sup>* r r' \<Longrightarrow> qt_taskId (qr_task r') = qt_taskId (qr_task r) \<and> qt_job (qr_task r') = qt_job (qr_task r) \<and>
    qt_maxAttempts (qr_task r') = qt_maxAttempts (qr_task r) \<and> qt_createdAt (qr_task r') = qt_createdAt (qr_task r)"
  by (induction rule: rtranclp_induct) (auto dest: record_step_fixed)

lemma record_steps_lifecycle:
  "record_step\<^sup>*\<^sup>* r r' \<Longrightarrow> record_ok k r \<Longrightarrow> record_ok k r' \<and> lifecycle\<^sup>*\<^sup>* (qr_status r) (qr_status r')"
proof (induction rule: rtranclp_induct)
  case (step r1 r2)
  then have "record_ok k r1" "record_ok k r2" by (auto intro: record_step_ok)
  with step record_step_lifecycle [OF step.hyps(2) \<open>record_ok k r1\<close>] show ?case
    by (metis rtranclp.rtrancl_into_rtrancl)
qed simp

text \<open>A record nothing can touch again: it holds no lease and is never claimable.\<close>

definition inert :: "('job, 'result) queue_record \<Rightarrow> bool" where
  "inert r \<longleftrightarrow> qr_leaseId r = None \<and>
     (qr_status r = Completed \<or> qr_status r = DeadLettered \<or> (qr_status r = Leased \<and> qr_leaseExpiresAt r = None))"

lemma inert_not_claimable: "inert r \<Longrightarrow> \<not> isClaimable r now"
  by (auto simp: inert_def isClaimable_def)

lemma inert_step: "record_step r r' \<Longrightarrow> inert r \<Longrightarrow> r' = r"
  by (induction rule: record_step.induct) (auto simp: inert_not_claimable, auto simp: inert_def)

lemma inert_steps: "record_step\<^sup>*\<^sup>* r r' \<Longrightarrow> inert r \<Longrightarrow> r' = r"
  by (induction rule: rtranclp_induct) (auto dest: inert_step)

lemma inert_forever:
  "queue_inv q \<Longrightarrow> map_of (q_records q) t = Some r \<Longrightarrow> inert r \<Longrightarrow> map_of (q_records (q_steps xs q)) t = Some r"
  using record_steps [of q t r xs] inert_steps by blast

text \<open>An operation leaves a lease alone when it does not name it and is no claim at or after its end.\<close>

fun leaves_lease :: "string \<Rightarrow> string \<Rightarrow> date \<Rightarrow> ('job, 'result) queue_op \<Rightarrow> bool" where
  "leaves_lease t l e (OpClaim ttl n c u) = (\<not> date_le e (claim_now n c))"
| "leaves_lease t l e (OpComplete t' l' x) = ((t', l') \<noteq> (t, l))"
| "leaves_lease t l e (OpRelease t' l') = ((t', l') \<noteq> (t, l))"
| "leaves_lease t l e (OpFail t' l' er p n c) = ((t', l') \<noteq> (t, l))"
| "leaves_lease t l e (OpEnqueue i u d) = True"
| "leaves_lease t l e OpClose = True"

lemma not_leased_noop:
  assumes "\<not> (\<exists>r. map_of (q_records q) t = Some r \<and> qr_leaseId r = Some l)"
  shows "q_complete t l x q = (Inl (SubscriptionQueueError JobNotFound ''Leased task was not found.''), q)"
    and "q_release t l q = (Inl (SubscriptionQueueError JobNotFound ''Leased task was not found.''), q)"
    and "q_fail t l er p n c q = (Inl (SubscriptionQueueError JobNotFound ''Leased task was not found.''), q)"
proof -
  from assms have "requireLeased t l q = Inl (SubscriptionQueueError JobNotFound ''Leased task was not found.'')"
    by (auto simp: requireLeased_Inl)
  then show "q_complete t l x q = (Inl (SubscriptionQueueError JobNotFound ''Leased task was not found.''), q)"
    "q_release t l q = (Inl (SubscriptionQueueError JobNotFound ''Leased task was not found.''), q)"
    "q_fail t l er p n c q = (Inl (SubscriptionQueueError JobNotFound ''Leased task was not found.''), q)"
    by (simp_all add: q_complete_def q_release_def q_fail_def)
qed

lemma settle_other:
  assumes "map_of (q_records q) t = Some r" and "qr_leaseId r = Some l" and "(t', l') \<noteq> (t, l)"
  shows "map_of (q_records (snd (q_complete t' l' x q))) t = Some r"
    and "map_of (q_records (snd (q_release t' l' q))) t = Some r"
    and "map_of (q_records (snd (q_fail t' l' er p n c q))) t = Some r"
proof -
  consider "t' \<noteq> t" | "\<not> (\<exists>r. map_of (q_records q) t' = Some r \<and> qr_leaseId r = Some l')"
    using assms by fastforce
  then have "map_of (q_records (snd (q_complete t' l' x q))) t = Some r \<and>
    map_of (q_records (snd (q_release t' l' q))) t = Some r \<and>
    map_of (q_records (snd (q_fail t' l' er p n c q))) t = Some r"
  proof cases
    case 1
    with assms(1) show ?thesis
      using q_complete_step [of t' l' x q] q_release_step [of t' l' q] q_fail_step [of t' l' er p n c q]
      by (smt (verit) fun_upd_apply q_put_records)
  next
    case 2
    with assms(1) show ?thesis by (simp add: not_leased_noop)
  qed
  then show "map_of (q_records (snd (q_complete t' l' x q))) t = Some r"
    "map_of (q_records (snd (q_release t' l' q))) t = Some r"
    "map_of (q_records (snd (q_fail t' l' er p n c q))) t = Some r" by auto
qed

lemma claim_other:
  assumes "jsmap_ok (q_records q)" and "map_of (q_records q) t = Some r" and "\<not> isClaimable r (claim_now n c)"
  shows "map_of (q_records (snd (q_claim ttl n c u q))) t = Some r"
proof (cases rule: q_claim_cases [of ttl n c u q])
  case (some pre k r1 post)
  with records_put_at_split [OF assms(1) some(1)] assms have "k \<noteq> t" by auto
  with some assms records_put_at_split [OF assms(1) some(1)] show ?thesis by simp
qed (use assms in auto)

lemma lease_survives_step:
  assumes "queue_inv q" and "map_of (q_records q) t = Some r"
    and "qr_leaseId r = Some l" and "qr_leaseExpiresAt r = Some e" and "leaves_lease t l e x"
  shows "map_of (q_records (q_step x q)) t = Some r"
proof (cases x)
  case (OpEnqueue i u d)
  with assms(2) show ?thesis
    by (cases rule: q_enqueue_cases [of i u d q]) (auto split: option.splits)
next
  case (OpClaim ttl n c u)
  have "qr_status r = Leased" using queue_inv_recordD [OF assms(1,2)] assms(3) by (simp add: record_ok_def)
  with assms OpClaim have "\<not> isClaimable r (claim_now n c)" by (simp add: isClaimable_def)
  with assms OpClaim show ?thesis by (simp add: claim_other queue_inv_def)
qed (use assms settle_other [OF assms(2,3)] in \<open>simp_all add: q_close_def\<close>)

lemma lease_survives_steps:
  assumes "queue_inv q" and "map_of (q_records q) t = Some r"
    and "qr_leaseId r = Some l" and "qr_leaseExpiresAt r = Some e" and "list_all (leaves_lease t l e) xs"
  shows "map_of (q_records (q_steps xs q)) t = Some r"
  using assms by (induction xs arbitrary: q) (auto simp: lease_survives_step queue_inv_step)

section \<open>Idempotency keys\<close>

lemma idempotency_step:
  assumes "map_of (q_idempotency q) k = Some t" and "t \<noteq> []"
  shows "map_of (q_idempotency (q_step x q)) k = Some t"
proof (cases x)
  case (OpEnqueue i u d)
  from assms have "truthy (map_of (q_idempotency q) k) = Some t" by (simp add: truthy_Some_iff)
  then show ?thesis using assms OpEnqueue
    by (cases rule: q_enqueue_cases [of i u d q]) (auto split: option.splits)
next
  case (OpClaim ttl n c u)
  then show ?thesis using assms by (cases rule: q_claim_cases [of ttl n c u q]) auto
next
  case (OpComplete t l y)
  then show ?thesis using assms q_complete_step [of t l y q] by auto
next
  case (OpRelease t l)
  then show ?thesis using assms q_release_step [of t l q] by auto
next
  case (OpFail t l e p n c)
  then show ?thesis using assms q_fail_step [of t l e p n c q] by auto
qed (use assms in \<open>auto simp: q_close_def\<close>)

lemma idempotency_steps:
  "map_of (q_idempotency q) k = Some t \<Longrightarrow> t \<noteq> [] \<Longrightarrow> map_of (q_idempotency (q_steps xs q)) k = Some t"
  by (induction xs arbitrary: q) (auto simp: idempotency_step)

lemma q_enqueue_replay:
  assumes "input_ok i" and "q_closed q = False" and "ei_idempotencyKey i = Some k"
    and "map_of (q_idempotency q) k = Some t" and "t \<noteq> []"
  shows "q_enqueue i u d q = (Inr (IdempotentReplay t), q)"
proof -
  from assms(1,3) have "truthy (ei_idempotencyKey i) = Some k"
    by (simp add: input_ok_def truthy_nonblank)
  moreover have "seqE (q_assertOpen q) (assertSubscriptionQueueEnqueueInput i) = Inr ()"
    using assms by (simp add: q_assertOpen_def enqueue_input_ok_iff)
  ultimately show ?thesis using assms by (simp add: q_enqueue_def truthy_Some_iff truthy_def)
qed

lemma q_enqueue_accepted_key:
  assumes "q_enqueue i u d q = (Inr (Accepted t), q1)" and "ei_idempotencyKey i = Some k" and "u \<noteq> []"
  shows "map_of (q_idempotency q1) k = Some t" and "t \<noteq> []"
proof -
  have "map_of (q_idempotency q1) k = Some t \<and> t \<noteq> []"
  proof (cases rule: q_enqueue_cases [of i u d q])
    case (accepted t1 r)
    with assms have "truthy (ei_idempotencyKey i) = Some k"
      by (simp add: input_ok_def truthy_nonblank)
    with accepted assms show ?thesis by (auto simp: input_ok_def split: option.splits)
  qed (use assms in auto)
  then show "map_of (q_idempotency q1) k = Some t" and "t \<noteq> []" by auto
qed

section \<open>Claims\<close>

text \<open>The claim loop is a search for the first claimable record.\<close>

lemma claim_loop_find:
  "map_option fst (claim_loop now l e rs) =
     map_option (\<lambda>(k, r). \<lparr>qc_task = qr_task r, qc_leaseId = l, qc_leaseExpiresAt = e\<rparr>)
       (find (\<lambda>(k, r). isClaimable r now) rs)"
  by (induction now l e rs rule: claim_loop.induct) (auto simp: option.map_comp comp_def case_prod_beta)

lemma claimable_after_claim:
  "\<not> date_le e now \<Longrightarrow>
    \<not> isClaimable (r\<lparr>qr_status := Leased, qr_leaseId := Some l, qr_leaseExpiresAt := Some e\<rparr>) now"
  by (simp add: isClaimable_def)

definition claimable_ids :: "date \<Rightarrow> ('job, 'result) task_queue \<Rightarrow> string list" where
  "claimable_ids now q = map fst (filter (\<lambda>(k, r). isClaimable r now) (q_records q))"

text \<open>A client that claims again and again at one moment, one fresh lease id per call.\<close>

fun claim_many ::
    "jsnum \<Rightarrow> date \<Rightarrow> string list \<Rightarrow> ('job, 'result) task_queue \<Rightarrow>
      'job queue_claim list \<times> ('job, 'result) task_queue" where
  "claim_many ttl now [] q = ([], q)"
| "claim_many ttl now (u # us) q =
     (case q_claim ttl (Some now) now u q of
        (Inr (Some c), q') \<Rightarrow> (let (cs, q'') = claim_many ttl now us q' in (c # cs, q''))
      | (_, q') \<Rightarrow> ([], q'))"

lemma claim_takes_first:
  assumes "queue_inv q" and "q_closed q = False" and "assertSubscriptionQueueClaimInput ttl (Some now) = Inr ()"
    and "\<not> date_le (lease_end ttl now) now" and "claimable_ids now q = t # ts"
  shows "\<exists>c q'. q_claim ttl (Some now) clk u q = (Inr (Some c), q') \<and> qt_taskId (qc_task c) = t \<and>
    queue_inv q' \<and> q_closed q' = False \<and> claimable_ids now q' = ts"
proof (cases rule: q_claim_cases [of ttl "Some now" clk u q])
  case (refused e)
  with assms show ?thesis by (auto simp: q_claim_def q_assertOpen_def Let_def split: option.splits)
next
  case none
  with assms(5) show ?thesis by (auto simp: claimable_ids_def claim_now_def filter_empty_conv filter_eq_Cons_iff)
next
  case (some pre k r post)
  have "filter (\<lambda>(k, r). isClaimable r now) pre = []"
    using some by (auto simp: claim_now_def filter_empty_conv)
  with assms(4,5) some have "k = t" "map fst (filter (\<lambda>(k, r). isClaimable r now) post) = ts"
    by (auto simp: claimable_ids_def claim_now_def)
  moreover have "qt_taskId (qr_task r) = k"
    using assms(1) records_put_at_split(2) [OF _ some(1)] queue_inv_recordD
    by (fastforce simp: queue_inv_def record_ok_def)
  moreover have "queue_inv (snd (q_claim ttl (Some now) clk u q))"
    using queue_inv_step [OF assms(1), of "OpClaim ttl (Some now) clk u"] by simp
  ultimately show ?thesis
    using some assms(4) \<open>filter _ pre = []\<close>
    by (auto simp: claimable_ids_def claim_now_def claimable_after_claim)
qed

lemma claim_many_all:
  assumes "queue_inv q" and "q_closed q = False" and "assertSubscriptionQueueClaimInput ttl (Some now) = Inr ()"
    and "\<not> date_le (lease_end ttl now) now" and "length (claimable_ids now q) \<le> length us"
  shows "map (\<lambda>c. qt_taskId (qc_task c)) (fst (claim_many ttl now us q)) = claimable_ids now q"
  using assms
proof (induction us arbitrary: q)
  case (Cons u us)
  show ?case
  proof (cases "claimable_ids now q")
    case Nil
    then have "claim_loop now u e (q_records q) = None" for e
      by (auto simp: claim_loop_None claimable_ids_def filter_empty_conv)
    with Nil Cons.prems show ?thesis by (simp add: q_claim_def q_assertOpen_def)
  next
    case (Cons t ts)
    from claim_takes_first [OF Cons.prems(1-4) this, of now u] obtain c q' where c:
      "q_claim ttl (Some now) now u q = (Inr (Some c), q')" "qt_taskId (qc_task c) = t"
      "queue_inv q'" "q_closed q' = False" "claimable_ids now q' = ts" by blast
    from Cons.IH [OF c(3,4) Cons.prems(3,4)] c(5) Cons Cons.prems(5)
    have "map (\<lambda>c. qt_taskId (qc_task c)) (fst (claim_many ttl now us q')) = ts" by simp
    with c Cons show ?thesis by (simp add: case_prod_beta Let_def)
  qed
qed simp

section \<open>Failed attempts\<close>

lemma q_fail_held:
  assumes "map_of (q_records q) t = Some r" and "qr_leaseId r = Some l"
  shows "q_fail t l er p n c q =
    (let r1 = r\<lparr>qr_error := Some (safeError er), qr_leaseId := None, qr_leaseExpiresAt := None\<rparr>
     in if js_le (js_min (qt_maxAttempts (qr_task r)) (rp_maxAttempts p)) (qt_attempt (qr_task r))
        then (Inr FailDeadLettered, q_put t (r1\<lparr>qr_status := DeadLettered\<rparr>) q)
        else case computeBackoffDelayMs (qt_attempt (qr_task r)) p (Some (Fin (1 / 2))) (Fin 0) of
               Inl e \<Rightarrow> (Inl e, q_put t r1 q)
             | Inr delay \<Rightarrow>
                 (let a = js_add (qt_attempt (qr_task r)) (Fin 1);
                      d = newDate (js_add (getTime (claim_now n c)) delay)
                  in (Inr (FailRetryScheduled a d),
                      q_put t (r1\<lparr>qr_status := RetryScheduled,
                        qr_task := (qr_task r)\<lparr>qt_attempt := a, qt_runAfter := d\<rparr>\<rparr>) q)))"
proof -
  have "requireLeased t l q = Inr r" using assms by (simp add: requireLeased_Inr)
  then show ?thesis by (simp add: q_fail_def claim_now_def Let_def split: sum.split)
qed

lemma q_fail_retry_record:
  assumes "q_fail t l er p n c q = (Inr (FailRetryScheduled a d), q')"
  shows "\<exists>r. map_of (q_records q') t = Some r \<and> qr_status r = RetryScheduled \<and>
    qr_leaseId r = None \<and> qt_attempt (qr_task r) = a \<and> qt_runAfter (qr_task r) = d"
proof (cases "\<exists>r. map_of (q_records q) t = Some r \<and> qr_leaseId r = Some l")
  case True
  then obtain r where "map_of (q_records q) t = Some r" "qr_leaseId r = Some l" by blast
  from assms [unfolded q_fail_held [OF this]] show ?thesis
    by (auto simp: Let_def split: if_splits sum.splits)
next
  case False
  with assms show ?thesis by (simp add: not_leased_noop)
qed

section \<open>The contract of the port\<close>

text \<open>
  A client of the port claims work and then settles the claim. \<open>settle\<close> is \<open>None\<close> when the port
  refuses the lease; otherwise it is the state the call leaves. The laws are what the queue
  processor relies on.
\<close>

locale leased_work =
  fixes inv :: "'q \<Rightarrow> bool"
    and holds :: "string \<Rightarrow> string \<Rightarrow> 'q \<Rightarrow> bool"
    and take_work :: "'c \<Rightarrow> 'q \<Rightarrow> (string \<times> string) option \<times> 'q"
    and settle :: "'s \<Rightarrow> string \<Rightarrow> string \<Rightarrow> 'q \<Rightarrow> 'q option"
  assumes take_inv: "inv q \<Longrightarrow> inv (snd (take_work c q))"
    and take_holds: "inv q \<Longrightarrow> take_work c q = (Some (t, l), q') \<Longrightarrow> holds t l q'"
    and settle_inv: "inv q \<Longrightarrow> settle s t l q = Some q' \<Longrightarrow> inv q'"
    and settle_iff_holds: "inv q \<Longrightarrow> settle s t l q \<noteq> None \<longleftrightarrow> holds t l q"
    and settle_gives_up: "inv q \<Longrightarrow> settle s t l q = Some q' \<Longrightarrow> \<not> holds t l' q'"
    and settle_elsewhere: "inv q \<Longrightarrow> settle s t l q = Some q' \<Longrightarrow> t' \<noteq> t \<Longrightarrow> holds t' l' q' = holds t' l' q"
    and holds_one: "inv q \<Longrightarrow> holds t l q \<Longrightarrow> holds t l' q \<Longrightarrow> l = l'"
begin

text \<open>Settling many claims in turn; a refused one changes nothing.\<close>

fun settle_all :: "('s \<times> string \<times> string) list \<Rightarrow> 'q \<Rightarrow> 'q" where
  "settle_all [] q = q"
| "settle_all ((s, t, l) # xs) q = settle_all xs (case settle s t l q of None \<Rightarrow> q | Some q' \<Rightarrow> q')"

lemma taken_work_settles: "inv q \<Longrightarrow> take_work c q = (Some (t, l), q') \<Longrightarrow> \<exists>q''. settle s t l q' = Some q''"
  using take_holds take_inv settle_iff_holds by (metis option.exhaust snd_conv)

lemma settled_once: "inv q \<Longrightarrow> settle s t l q = Some q' \<Longrightarrow> settle s' t l' q' = None"
  using settle_gives_up settle_inv settle_iff_holds by blast

lemma settle_all_inv: "inv q \<Longrightarrow> inv (settle_all xs q)"
  by (induction xs arbitrary: q) (auto split: option.splits, metis settle_inv)

lemma settle_all_others:
  "inv q \<Longrightarrow> holds t l q \<Longrightarrow> \<forall>(s, t', l') \<in> set xs. (t', l') \<noteq> (t, l) \<Longrightarrow> holds t l (settle_all xs q)"
proof (induction xs arbitrary: q)
  case (Cons x xs)
  obtain s t' l' where x: "x = (s, t', l')" by (cases x)
  show ?case
  proof (cases "settle s t' l' q")
    case None
    with Cons x show ?thesis by simp
  next
    case (Some q1)
    then have "holds t' l' q" using Cons.prems(1) settle_iff_holds by (metis option.distinct(1))
    then have "t' \<noteq> t" using Cons.prems x holds_one [of q t l l'] by auto
    with Some Cons x settle_elsewhere [of q s t' l' q1 t l] settle_inv [of q s t' l' q1]
    show ?thesis by simp
  qed
qed simp

lemma settle_all_settled:
  assumes "inv q" and "settle s t l q = Some q'"
  shows "\<not> holds t l' (settle_all xs q')"
proof -
  have gone: "inv q1 \<Longrightarrow> \<forall>l. \<not> holds t l q1 \<Longrightarrow> \<forall>l. \<not> holds t l (settle_all xs q1)" for q1
  proof (induction xs arbitrary: q1)
    case (Cons x xs)
    obtain s' t' l'' where x: "x = (s', t', l'')" by (cases x)
    show ?case
    proof (cases "settle s' t' l'' q1")
      case (Some q2)
      then have "t' \<noteq> t" using Cons.prems settle_iff_holds by (metis option.distinct(1))
      with Some Cons x settle_elsewhere [of q1 s' t' l'' q2 t] settle_inv [of q1 s' t' l'' q2]
      show ?thesis by simp
    qed (use Cons x in simp)
  qed simp
  with assms show ?thesis using settle_gives_up settle_inv by blast
qed

end

text \<open>The queue's claims and settlements in the form of the contract.\<close>

datatype 'result settlement =
    SettleComplete 'result
  | SettleRelease
  | SettleFail thrown retry_policy "date option" date

definition q_holds :: "string \<Rightarrow> string \<Rightarrow> ('job, 'result) task_queue \<Rightarrow> bool" where
  "q_holds t l q \<longleftrightarrow> (\<exists>r. map_of (q_records q) t = Some r \<and> qr_leaseId r = Some l)"

fun q_settle ::
    "'result settlement \<Rightarrow> string \<Rightarrow> string \<Rightarrow> ('job, 'result) task_queue \<Rightarrow> ('job, 'result) task_queue option" where
  "q_settle s t l q =
     (case requireLeased t l q of
        Inl e \<Rightarrow> None
      | Inr r \<Rightarrow> Some (case s of
            SettleComplete x \<Rightarrow> snd (q_complete t l x q)
          | SettleRelease \<Rightarrow> snd (q_release t l q)
          | SettleFail e p n c \<Rightarrow> snd (q_fail t l e p n c q)))"

definition q_take ::
    "jsnum \<times> date option \<times> date \<times> string \<Rightarrow> ('job, 'result) task_queue \<Rightarrow>
      (string \<times> string) option \<times> ('job, 'result) task_queue" where
  "q_take = (\<lambda>(ttl, n, c, u) q. case q_claim ttl n c u q of
       (Inr (Some cl), q') \<Rightarrow> (Some (qt_taskId (qc_task cl), qc_leaseId cl), q')
     | (_, q') \<Rightarrow> (None, q'))"

lemma q_take_snd: "snd (q_take (ttl, n, c, u) q) = snd (q_claim ttl n c u q)"
  by (auto simp: q_take_def split: prod.splits sum.splits option.splits)

lemma q_take_inv:
  assumes "queue_inv q"
  shows "queue_inv (snd (q_take c q))"
proof -
  obtain ttl n cl u where "c = (ttl, n, cl, u)" by (cases c)
  with queue_inv_step [OF assms, of "OpClaim ttl n cl u"] show ?thesis by (simp add: q_take_snd)
qed

lemma q_take_holds:
  assumes "queue_inv q" and "q_take x q = (Some (t, l), q')"
  shows "q_holds t l q'"
proof -
  obtain ttl n c u where x: "x = (ttl, n, c, u)" by (cases x)
  show ?thesis
  proof (cases rule: q_claim_cases [of ttl n c u q])
    case (some pre k r post)
    have ok: "jsmap_ok (q_records q)" using assms(1) by (simp add: queue_inv_def)
    note at_k = records_put_at_split [OF ok some(1)]
    have "qt_taskId (qr_task r) = k"
      using queue_inv_recordD [OF assms(1) at_k(2)] by (simp add: record_ok_def)
    with assms(2) at_k(1) have "t = k \<and> l = u \<and> (\<exists>e. q' = q_put k (r\<lparr>qr_status := Leased,
        qr_leaseId := Some u, qr_leaseExpiresAt := Some e\<rparr>) q)"
      by (auto simp: x q_take_def some(6))
    then show ?thesis by (auto simp: q_holds_def)
  qed (use assms x in \<open>auto simp: q_take_def\<close>)
qed

lemma q_settle_step:
  "q_settle s t l q = Some q' \<Longrightarrow> \<exists>x. q' = q_step x q \<and> (\<forall>t' l' e. (t', l') \<noteq> (t, l) \<longrightarrow> leaves_lease t' l' e x)"
  by (cases s)
     (auto split: sum.splits intro: exI [of _ "OpComplete t l _"] exI [of _ "OpRelease t l"]
        exI [of _ "OpFail t l _ _ _ _"])

lemma q_settle_put:
  assumes "q_settle s t l q = Some q'"
  shows "\<exists>r'. q' = q_put t r' q \<and> qr_leaseId r' = None"
proof -
  from assms obtain r where "requireLeased t l q = Inr r" by (auto split: sum.splits)
  then have r: "map_of (q_records q) t = Some r" "qr_leaseId r = Some l" by (simp_all add: requireLeased_Inr)
  have "\<exists>r'. snd (q_fail t l e p n c q) = q_put t r' q \<and> qr_leaseId r' = None" for e p n c
    unfolding q_fail_held [OF r] by (auto simp: Let_def split: sum.splits)
  moreover have "\<exists>r'. snd (q_complete t l x q) = q_put t r' q \<and> qr_leaseId r' = None" for x
    by (rule exI [of _ "r\<lparr>qr_status := Completed, qr_result := Some x, qr_leaseId := None, qr_leaseExpiresAt := None\<rparr>"])
       (simp add: q_complete_def \<open>requireLeased t l q = Inr r\<close>)
  moreover have "\<exists>r'. snd (q_release t l q) = q_put t r' q \<and> qr_leaseId r' = None"
    by (rule exI [of _ "r\<lparr>qr_status := Queued, qr_leaseId := None, qr_leaseExpiresAt := None\<rparr>"])
       (simp add: q_release_def \<open>requireLeased t l q = Inr r\<close>)
  ultimately show ?thesis
    using assms \<open>requireLeased t l q = Inr r\<close> by (cases s) (simp_all, metis+)
qed

lemma q_settle_iff: "q_settle s t l q \<noteq> None \<longleftrightarrow> q_holds t l q"
  by (simp add: q_holds_def requireLeased_def split: option.split)

lemma q_settle_holds:
  "q_settle s t l q = Some q' \<Longrightarrow> q_holds t' l' q' \<longleftrightarrow> t' \<noteq> t \<and> q_holds t' l' q"
  by (drule q_settle_put) (auto simp: q_holds_def split: if_splits)

lemma q_settle_inv: "queue_inv q \<Longrightarrow> q_settle s t l q = Some q' \<Longrightarrow> queue_inv q'"
  by (drule q_settle_step) (auto simp: queue_inv_step)

declare q_settle.simps [simp del]

interpretation lq: leased_work queue_inv q_holds q_take q_settle
  by unfold_locales
     (simp_all only: q_take_inv q_take_holds q_settle_inv q_settle_iff q_settle_holds,
      auto simp: q_holds_def)

section \<open>Properties\<close>

text \<open>A small queue for the concrete instances: one task under a lease, one waiting.\<close>

definition demo_task :: "string \<Rightarrow> nat queue_task" where
  "demo_task t = \<lparr>qt_taskId = t, qt_job = 7, qt_attempt = jsint 1, qt_maxAttempts = jsint 3,
     qt_idempotencyKey = None, qt_runAfter = Instant 0, qt_createdAt = Instant 0, qt_metadata = JObject []\<rparr>"

definition demo_held :: "(nat, nat) queue_record" where
  "demo_held = \<lparr>qr_task = demo_task ''a'', qr_status = Leased, qr_leaseId = Some ''L1'',
     qr_leaseExpiresAt = Some (Instant 100), qr_result = None, qr_error = None\<rparr>"

definition demo_waiting :: "(nat, nat) queue_record" where
  "demo_waiting = \<lparr>qr_task = demo_task ''b'', qr_status = Queued, qr_leaseId = None,
     qr_leaseExpiresAt = None, qr_result = None, qr_error = None\<rparr>"

definition demo_queue :: "(nat, nat) task_queue" where
  "demo_queue = \<lparr>q_queueId = ''q'', q_records = [(''a'', demo_held), (''b'', demo_waiting)],
     q_idempotency = [], q_closed = False\<rparr>"

definition demo_input :: "nat enqueue_input" where
  "demo_input = \<lparr>ei_taskId = Some ''c'', ei_job = 9, ei_idempotencyKey = Some ''key'', ei_runAfter = None,
     ei_maxAttempts = None, ei_metadata = None\<rparr>"

definition demo_bad_policy :: retry_policy where
  "demo_bad_policy = \<lparr>rp_maxAttempts = Fin 3, rp_baseDelayMs = Fin 10, rp_maxDelayMs = Fin 5, rp_jitterRatio = None\<rparr>"

lemma demo_inv: "queue_inv demo_queue"
  by (auto simp: queue_inv_def demo_queue_def record_ok_def attempt_ok_def demo_held_def demo_waiting_def
      demo_task_def intro: exI [of _ "1::int"] exI [of _ "3::int"])

lemma demo_records:
  "map_of (q_records demo_queue) ''a'' = Some demo_held" "map_of (q_records demo_queue) ''b'' = Some demo_waiting"
  by (simp_all add: demo_queue_def)

lemma demo_input_ok: "input_ok demo_input"
  by (simp add: input_ok_def demo_input_def js_trim_def js_ws_def)

text \<open>
  C2. Whatever calls a new queue receives, its records stay well formed: keys are distinct, every
  record is filed under its own task id, its attempt number stays between one and the task's
  maximum, a lease id and a lease end exist together and only while the status is leased, a result
  exists exactly when the task is completed, and every idempotency key points to a record that
  carries that key.
\<close>

theorem queue_invariant:
  assumes "q_new queueId = Inr q"
  shows "queue_inv (q_steps calls q)"
  using queue_inv_steps [OF queue_inv_new [OF assms]] .

theorem queue_invariant_witness:
  "queue_inv (q_steps [OpEnqueue demo_input ''u'' (Instant 5), OpClaim (Fin 50) None (Instant 6) ''L'']
     \<lparr>q_queueId = ''q'', q_records = [], q_idempotency = [], q_closed = False\<rparr>)"
  by (rule queue_invariant [of "''q''"])
     (simp add: q_new_def assertSubscriptionQueueId_def assertNonBlankString_def js_trim_def js_ws_def)

text \<open>
  C1. A lease is exclusive. While a task is under a lease, no history of calls changes its record
  in any way, unless one of the calls names both the task and that lease, or claims at a time at
  or after the end of the lease.
\<close>

theorem exclusive_lease:
  assumes "queue_inv q" and "map_of (q_records q) t = Some r"
    and "qr_leaseId r = Some l" and "qr_leaseExpiresAt r = Some e"
    and "list_all (leaves_lease t l e) calls"
  shows "map_of (q_records (q_steps calls q)) t = Some r"
  using assms by (rule lease_survives_steps)

theorem exclusive_lease_witness:
  "map_of (q_records (q_steps [OpClaim (Fin 50) None (Instant 99) ''L2'', OpComplete ''a'' ''L2'' 4,
      OpRelease ''b'' ''L2'', OpFail ''a'' ''L0'' OtherThrown demo_bad_policy None (Instant 99), OpClose] demo_queue)) ''a'' =
     Some demo_held"
  by (rule exclusive_lease [OF demo_inv demo_records(1), of "''L1''" "Instant 100"])
     (simp_all add: demo_held_def claim_now_def)

text \<open>
  C3. Settling is fenced by the lease id. Once a task's lease has been settled, no later call that
  completes, releases or fails the task under any lease id is accepted, whatever settlements of
  other claims come in between: each is answered with the not-found error and changes nothing.
\<close>

theorem settled_lease_fenced:
  assumes "queue_inv q" and "q_settle s t l q = Some q1" and "q2 = lq.settle_all others q1"
  shows "q_complete t l' x q2 = (Inl (SubscriptionQueueError JobNotFound ''Leased task was not found.''), q2) \<and>
    q_release t l' q2 = (Inl (SubscriptionQueueError JobNotFound ''Leased task was not found.''), q2) \<and>
    q_fail t l' er p n c q2 = (Inl (SubscriptionQueueError JobNotFound ''Leased task was not found.''), q2)"
proof -
  have "\<not> q_holds t l' q2" using lq.settle_all_settled [OF assms(1,2)] assms(3) by simp
  then show ?thesis by (simp add: q_holds_def not_leased_noop)
qed

lemma demo_settle: "q_settle SettleRelease ''a'' ''L1'' demo_queue = Some (snd (q_release ''a'' ''L1'' demo_queue))"
  by (simp add: q_settle.simps requireLeased_def demo_records) (simp add: demo_held_def)

theorem settled_lease_fenced_witness:
  "fst (q_complete ''a'' ''L1'' 5 (snd (q_release ''a'' ''L1'' demo_queue))) =
     Inl (SubscriptionQueueError JobNotFound ''Leased task was not found.'')"
  using settled_lease_fenced [OF demo_inv demo_settle, where others = "[]"] by simp



text \<open>
  C5. An idempotency key is honoured for the life of the queue: after one enqueue with the key was
  accepted, and after any further calls, another valid enqueue with that key creates nothing and
  answers with the id of the first task.
\<close>

theorem idempotent_enqueue:
  assumes "q_enqueue i u d q = (Inr (Accepted t), q1)" and "ei_idempotencyKey i = Some k" and "u \<noteq> []"
    and "input_ok j" and "ei_idempotencyKey j = Some k" and "q_closed (q_steps calls q1) = False"
  shows "q_enqueue j u' d' (q_steps calls q1) = (Inr (IdempotentReplay t), q_steps calls q1)"
proof -
  note key = q_enqueue_accepted_key [OF assms(1-3)]
  show ?thesis
    using q_enqueue_replay [OF assms(4,6,5) idempotency_steps [OF key] key(2)] .
qed

lemma demo_input_check: "assertSubscriptionQueueEnqueueInput demo_input = Inr ()"
  using demo_input_ok by (simp add: enqueue_input_ok_iff)

lemma demo_enqueue:
  "q_enqueue demo_input ''u'' (Instant 5) demo_queue =
    (Inr (Accepted ''c''), (q_put ''c'' \<lparr>qr_task = enqueue_task demo_input ''c'' (Instant 5), qr_status = Queued,
       qr_leaseId = None, qr_leaseExpiresAt = None, qr_result = None, qr_error = None\<rparr> demo_queue)
       \<lparr>q_idempotency := [(''key'', ''c'')]\<rparr>)"
proof -
  have "truthy (ei_idempotencyKey demo_input) = Some ''key''" "ei_taskId demo_input = Some ''c''"
    by (simp_all add: demo_input_def truthy_def)
  moreover have "q_closed demo_queue = False" "q_idempotency demo_queue = []"
    "map_of (q_records demo_queue) ''c'' = None" by (simp_all add: demo_queue_def)
  ultimately show ?thesis
    by (simp add: q_enqueue_def q_assertOpen_def demo_input_check truthy_def Let_def)
qed

theorem idempotent_enqueue_witness:
  "fst (q_enqueue demo_input ''v'' (Instant 9) (snd (q_enqueue demo_input ''u'' (Instant 5) demo_queue))) =
     Inr (IdempotentReplay ''c'')"
proof -
  have "ei_idempotencyKey demo_input = Some ''key''" "q_closed demo_queue = False"
    by (simp_all add: demo_input_def demo_queue_def)
  then show ?thesis
    using idempotent_enqueue [OF demo_enqueue _ _ demo_input_ok, of "''key''" "[]" "''v''" "Instant 9"]
    by (simp add: demo_enqueue)
qed

text \<open>
  C6. Claims are first in, first out, and none is missed. A client that claims repeatedly at one
  moment, with a lease that ends after it, receives exactly the tasks that were claimable, each
  once, in the order in which they were enqueued.
\<close>

theorem claims_drain_in_order:
  assumes "queue_inv q" and "q_closed q = False"
    and "assertSubscriptionQueueClaimInput ttl (Some now) = Inr ()"
    and "\<not> date_le (lease_end ttl now) now" and "length (claimable_ids now q) \<le> length us"
  shows "map (\<lambda>c. qt_taskId (qc_task c)) (fst (claim_many ttl now us q)) = claimable_ids now q \<and>
    distinct (claimable_ids now q)"
  using claim_many_all [OF assms] assms(1)
  by (auto simp: claimable_ids_def queue_inv_def intro: distinct_map_filter)

theorem claims_drain_in_order_witness:
  "map (\<lambda>c. qt_taskId (qc_task c)) (fst (claim_many (Fin 50) (Instant 100) [''x'', ''y'', ''z''] demo_queue)) =
     [''a'', ''b'']"
proof -
  have ids: "claimable_ids (Instant 100) demo_queue = [''a'', ''b'']"
    by (simp add: claimable_ids_def demo_queue_def demo_held_def demo_waiting_def isClaimable_def demo_task_def)
  show ?thesis
    using claims_drain_in_order [OF demo_inv, of "Fin 50" "Instant 100" "[''x'', ''y'', ''z'']"] unfolding ids
    by (simp add: claim_input_ok_iff lease_end_def js_trunc_def demo_queue_def)
qed

text \<open>
  A failed attempt under a valid policy is dead-lettered exactly when the attempt number has
  reached the smaller of the task's and the policy's maximum; otherwise it is scheduled again with
  the next attempt number, which stays within both maxima.
\<close>

theorem fail_outcome:
  assumes "map_of (q_records q) t = Some r" and "qr_leaseId r = Some l"
    and "qt_attempt (qr_task r) = jsint n" and "qt_maxAttempts (qr_task r) = jsint m"
    and "assertRetryPolicy p = Inr ()" and "rp_maxAttempts p = jsint k"
    and "q_fail t l er p i c q = (res, q')"
  shows "\<exists>r'. map_of (q_records q') t = Some r' \<and> qr_error r' = Some (safeError er) \<and> qr_leaseId r' = None \<and>
    (if min m k \<le> n then res = Inr FailDeadLettered \<and> qr_status r' = DeadLettered
     else \<exists>d. res = Inr (FailRetryScheduled (jsint (n + 1)) d) \<and> qr_status r' = RetryScheduled \<and>
       qt_attempt (qr_task r') = jsint (n + 1) \<and> qt_runAfter (qr_task r') = d \<and> n + 1 \<le> m \<and> n + 1 \<le> k)"
proof -
  have budget: "js_le (js_min (jsint m) (jsint k)) (jsint n) \<longleftrightarrow> min m k \<le> n"
    by (auto simp: min_def)
  obtain delay where "computeBackoffDelayMs (jsint n) p (Some (Fin (1 / 2))) (Fin 0) = Inr delay"
    using assms(5) computeBackoff_error [of "jsint n" p] by (metis old.sum.exhaust sum.distinct(1))
  then show ?thesis
    using assms(7) unfolding q_fail_held [OF assms(1,2)] assms(3,4,6) budget
    by (cases "min m k \<le> n") (auto simp: Let_def)
qed

theorem fail_outcome_witness:
  "\<exists>r' d. fst (q_fail ''a'' ''L1'' OtherThrown defaultSubscriptionRetryPolicy None (Instant 9) demo_queue) =
     Inr (FailRetryScheduled (jsint 2) d) \<and>
     map_of (q_records (snd (q_fail ''a'' ''L1'' OtherThrown defaultSubscriptionRetryPolicy None (Instant 9) demo_queue))) ''a'' =
     Some r' \<and> qr_status r' = RetryScheduled"
proof -
  have "qr_leaseId demo_held = Some ''L1''" "qt_attempt (qr_task demo_held) = jsint 1"
    "qt_maxAttempts (qr_task demo_held) = jsint 3" "rp_maxAttempts defaultSubscriptionRetryPolicy = jsint 3"
    by (simp_all add: demo_held_def demo_task_def defaultSubscriptionRetryPolicy_def)
  from fail_outcome [OF demo_records(1) this(1-3) default_policy_ok this(4) prod.collapse [symmetric],
      of OtherThrown None "Instant 9"]
  show ?thesis by auto
qed

text \<open>
  A retried task is due exactly from the time the failing call announced: it is among the
  claimable tasks at a moment if and only if that moment is not before the announced one.
\<close>

theorem retry_due_time:
  assumes "queue_inv q" and "q_fail t l er p i c q = (Inr (FailRetryScheduled a d), q')"
  shows "t \<in> set (claimable_ids now q') \<longleftrightarrow> date_le d now"
proof -
  from q_fail_retry_record [OF assms(2)] obtain r where
    r: "map_of (q_records q') t = Some r" "qr_status r = RetryScheduled" "qt_runAfter (qr_task r) = d" by blast
  have "queue_inv q'" using queue_inv_step [OF assms(1), of "OpFail t l er p i c"] assms(2) by simp
  then have dist: "jsmap_ok (q_records q')" by (simp add: queue_inv_def)
  have "t \<in> set (claimable_ids now q') \<longleftrightarrow> (\<exists>r'. map_of (q_records q') t = Some r' \<and> isClaimable r' now)"
    unfolding map_of_eq_Some_iff [OF dist] by (force simp: claimable_ids_def)
  with r show ?thesis by (simp add: isClaimable_def)
qed

theorem retry_due_time_witness:
  "\<exists>a d q'. q_fail ''a'' ''L1'' OtherThrown defaultSubscriptionRetryPolicy None (Instant 9) demo_queue =
     (Inr (FailRetryScheduled a d), q') \<and> (''a'' \<in> set (claimable_ids (Instant 20) q') \<longleftrightarrow> date_le d (Instant 20))"
proof -
  have "qr_leaseId demo_held = Some ''L1''" "qt_attempt (qr_task demo_held) = jsint 1"
    "qt_maxAttempts (qr_task demo_held) = jsint 3" "rp_maxAttempts defaultSubscriptionRetryPolicy = jsint 3"
    by (simp_all add: demo_held_def demo_task_def defaultSubscriptionRetryPolicy_def)
  moreover obtain delay where "computeBackoffDelayMs (jsint 1) defaultSubscriptionRetryPolicy (Some (Fin (1 / 2))) (Fin 0) = Inr delay"
    using computeBackoff_error [of "jsint 1" defaultSubscriptionRetryPolicy] default_policy_ok
    by (metis old.sum.exhaust sum.distinct(1))
  ultimately obtain a d q' where
    *: "q_fail ''a'' ''L1'' OtherThrown defaultSubscriptionRetryPolicy None (Instant 9) demo_queue =
      (Inr (FailRetryScheduled a d), q')"
    using q_fail_held [OF demo_records(1), of "''L1''" OtherThrown defaultSubscriptionRetryPolicy None "Instant 9"]
    by (auto simp: Let_def)
  from retry_due_time [OF demo_inv *, of "Instant 20"] * show ?thesis by blast
qed

text \<open>
  A task can be lost to an invalid retry policy. When an attempt that is not the last one fails
  under a policy that does not pass its own check, the call throws after it has taken the lease
  away but before it has set a status: the record stays leased without a lease, and no later
  history of calls ever changes it or makes it claimable again.
\<close>

theorem invalid_policy_strands_task:
  assumes "queue_inv q" and "map_of (q_records q) t = Some r" and "qr_leaseId r = Some l"
    and "assertRetryPolicy p = Inl err"
    and "\<not> js_le (js_min (qt_maxAttempts (qr_task r)) (rp_maxAttempts p)) (qt_attempt (qr_task r))"
    and "q_fail t l er p i c q = (res, q')"
  shows "res = Inl err \<and> (\<exists>r'. qr_status r' = Leased \<and> qr_leaseId r' = None \<and>
    (\<forall>calls. map_of (q_records (q_steps calls q')) t = Some r') \<and> (\<forall>now. \<not> isClaimable r' now))"
proof -
  have "computeBackoffDelayMs (qt_attempt (qr_task r)) p (Some (Fin (1 / 2))) (Fin 0) = Inl err"
    using assms(4) computeBackoff_error by blast
  with assms(5,6) have res: "res = Inl err"
    and q': "q' = q_put t (r\<lparr>qr_error := Some (safeError er), qr_leaseId := None, qr_leaseExpiresAt := None\<rparr>) q"
      (is "_ = q_put t ?r q")
    unfolding q_fail_held [OF assms(2,3)] by (auto simp: Let_def)
  have inv: "queue_inv q'" using queue_inv_step [OF assms(1), of "OpFail t l er p i c"] assms(6) by simp
  have "qr_status r = Leased" using queue_inv_recordD [OF assms(1,2)] assms(3) by (simp add: record_ok_def)
  then have "inert ?r" by (simp add: inert_def)
  with inert_forever [OF inv, of t ?r] q' inert_not_claimable [of ?r] \<open>qr_status r = Leased\<close> res show ?thesis
    by (intro conjI exI [of _ ?r]) auto
qed

theorem invalid_policy_strands_task_witness:
  "\<exists>err. fst (q_fail ''a'' ''L1'' OtherThrown demo_bad_policy None (Instant 9) demo_queue) = Inl err \<and>
     (\<exists>r'. qr_status r' = Leased \<and> (\<forall>calls. map_of (q_records (q_steps calls
        (snd (q_fail ''a'' ''L1'' OtherThrown demo_bad_policy None (Instant 9) demo_queue)))) ''a'' = Some r'))"
proof -
  have held: "qr_leaseId demo_held = Some ''L1''" by (simp add: demo_held_def)
  obtain err where bad: "assertRetryPolicy demo_bad_policy = Inl err"
    by (simp add: assertRetryPolicy_def invalid_retry_policy_def demo_bad_policy_def)
  have "\<not> js_le (js_min (qt_maxAttempts (qr_task demo_held)) (rp_maxAttempts demo_bad_policy)) (qt_attempt (qr_task demo_held))"
    by (simp add: demo_held_def demo_task_def demo_bad_policy_def)
  from invalid_policy_strands_task [OF demo_inv demo_records(1) held bad this prod.collapse [symmetric]]
  show ?thesis by blast
qed

end
