(* ===== verification/Queue_Processor.thy ===== *)
theory Queue_Processor
  imports Queue_Laws
begin

text \<open>
  The queue processor, \<open>src/queue-core/queue-processing/application/subscription-queue-processor.ts\<close>:
  the loop that claims tasks, runs them on a worker pool and settles them, with \<open>start\<close>, \<open>stop\<close>,
  the caller's abort signal and the shutdown grace timer. An asynchronous function of the source is
  cut at its \<open>await\<close>s: a program counter says which promise a loop waits for and carries the value
  of that promise, and one event runs the code up to the next \<open>await\<close>. The queue is any
  implementation of the port, given as a record of its methods; the worker pool's answer, the clock
  and the fresh lease id come with the event.
\<close>

section \<open>Definitions\<close>

datatype processor_state = Created | Running | Stopping | Stopped

record ('q, 'job, 'result) queue_port =
  pt_claim :: "jsnum \<Rightarrow> date \<Rightarrow> string \<Rightarrow> 'q \<Rightarrow> (queue_error + 'job queue_claim option) \<times> 'q"
  pt_complete :: "string \<Rightarrow> string \<Rightarrow> 'result \<Rightarrow> 'q \<Rightarrow> (queue_error + unit) \<times> 'q"
  pt_fail :: "string \<Rightarrow> string \<Rightarrow> thrown \<Rightarrow> retry_policy \<Rightarrow> date \<Rightarrow> 'q \<Rightarrow> (queue_error + fail_result) \<times> 'q"
  pt_release :: "(string \<Rightarrow> string \<Rightarrow> 'q \<Rightarrow> (queue_error + unit) \<times> 'q) option"

record processor_options =
  po_retryPolicy :: "retry_policy option"
  po_leaseTtlMs :: "jsnum option"

text \<open>
  Where a loop waits. The natural number is the abort controller of the task at hand; \<open>LCrashed\<close>
  is a rejected loop promise, and its flag says whether the queue's \<open>fail\<close> was what rejected.
\<close>

datatype 'job loop_pc =
    LAwaitClaim "queue_error + 'job queue_claim option"
  | LIdle
  | LAwaitRelease "queue_error + unit"
  | LRunning "'job queue_claim" nat
  | LAwaitComplete "'job queue_claim" nat "queue_error + unit"
  | LAwaitFail "'job queue_claim" nat "queue_error + fail_result"
  | LDone
  | LCrashed bool queue_error

record 'job loop =
  lp_aborted :: bool
  lp_pc :: "'job loop_pc"

record 'job processor =
  pr_state :: processor_state
  pr_loops :: "'job loop list"
  pr_stopController :: "nat option"
  pr_current :: "nat option"
  pr_timer :: "nat option"
  pr_controllers :: "bool list"
  pr_extAborted :: bool
  pr_waiters :: "nat list"
  pr_claimed :: nat
  pr_completed :: nat
  pr_retried :: nat
  pr_deadLettered :: nat
  pr_failed :: nat

definition processor_new :: "'job processor" where
  "processor_new = \<lparr>pr_state = Created, pr_loops = [], pr_stopController = None, pr_current = None,
     pr_timer = None, pr_controllers = [], pr_extAborted = False, pr_waiters = [],
     pr_claimed = 0, pr_completed = 0, pr_retried = 0, pr_deadLettered = 0, pr_failed = 0\<rparr>"

definition set_pc :: "nat \<Rightarrow> 'job loop_pc \<Rightarrow> 'job processor \<Rightarrow> 'job processor" where
  "set_pc i pc p = p\<lparr>pr_loops := (pr_loops p)[i := (pr_loops p ! i)\<lparr>lp_pc := pc\<rparr>]\<rparr>"

definition abort_controller :: "nat \<Rightarrow> 'job processor \<Rightarrow> 'job processor" where
  "abort_controller c p = p\<lparr>pr_controllers := (pr_controllers p)[c := True]\<rparr>"

definition loop_stopped :: "nat \<Rightarrow> 'job processor \<Rightarrow> bool" where
  "loop_stopped i p = (lp_aborted (pr_loops p ! i) \<or> pr_extAborted p)"

definition armCurrentTaskShutdownGrace :: "'job processor \<Rightarrow> 'job processor" where
  "armCurrentTaskShutdownGrace p =
     (case (pr_timer p, pr_current p) of
        (None, Some c) \<Rightarrow> if pr_controllers p ! c then p else p\<lparr>pr_timer := Some c\<rparr>
      | _ \<Rightarrow> p)"

definition clearShutdownGraceTimer :: "'job processor \<Rightarrow> 'job processor" where
  "clearShutdownGraceTimer p = p\<lparr>pr_timer := None\<rparr>"

definition loop_iter ::
    "processor_options \<Rightarrow> ('q, 'job, 'result) queue_port \<Rightarrow> date \<Rightarrow> string \<Rightarrow> nat \<Rightarrow>
      'job processor \<times> 'q \<Rightarrow> 'job processor \<times> 'q" where
  "loop_iter opts port now uuid i = (\<lambda>(p, q).
     if loop_stopped i p then (set_pc i LDone p, q)
     else let (res, q') = pt_claim port (case po_leaseTtlMs opts of None \<Rightarrow> Fin 600000 | Some t \<Rightarrow> t) now uuid q
          in (set_pc i (LAwaitClaim res) p, q'))"

definition releaseClaim ::
    "('q, 'job, 'result) queue_port \<Rightarrow> 'job queue_claim \<Rightarrow> 'q \<Rightarrow> (queue_error + unit) \<times> 'q" where
  "releaseClaim port c q =
     (case pt_release port of
        None \<Rightarrow> (Inr (), q)
      | Some release \<Rightarrow> release (qt_taskId (qc_task c)) (qc_leaseId c) q)"

definition begin_task :: "nat \<Rightarrow> 'job queue_claim \<Rightarrow> 'job processor \<Rightarrow> 'job processor" where
  "begin_task i c p =
     (let ctl = length (pr_controllers p);
          p1 = p\<lparr>pr_claimed := pr_claimed p + 1, pr_controllers := pr_controllers p @ [False],
                 pr_current := Some ctl\<rparr>;
          p2 = (if pr_state p = Stopping then armCurrentTaskShutdownGrace p1 else p1)
      in set_pc i (LRunning c ctl) p2)"

definition task_failed ::
    "processor_options \<Rightarrow> ('q, 'job, 'result) queue_port \<Rightarrow> date \<Rightarrow> nat \<Rightarrow> 'job queue_claim \<Rightarrow> nat \<Rightarrow> thrown \<Rightarrow>
      'job processor \<times> 'q \<Rightarrow> 'job processor \<times> 'q" where
  "task_failed opts port now i c ctl err = (\<lambda>(p, q).
     let (res, q') = pt_fail port (qt_taskId (qc_task c)) (qc_leaseId c) err
           (case po_retryPolicy opts of None \<Rightarrow> defaultSubscriptionRetryPolicy | Some r \<Rightarrow> r) now q
     in (set_pc i (LAwaitFail c ctl res) (p\<lparr>pr_failed := pr_failed p + 1\<rparr>), q'))"

definition task_finally :: "nat \<Rightarrow> 'job processor \<Rightarrow> 'job processor" where
  "task_finally ctl p =
     (let p1 = (if pr_state p = Stopping then clearShutdownGraceTimer p else p)
      in if pr_current p1 = Some ctl then p1\<lparr>pr_current := None\<rparr> else p1)"

definition error_message :: "queue_error \<Rightarrow> string" where
  "error_message e = (case e of SubscriptionQueueError code m \<Rightarrow> m)"

text \<open>The code a loop runs when the promise it waits for settles, up to its next \<open>await\<close>.\<close>

definition loop_resume ::
    "processor_options \<Rightarrow> ('q, 'job, 'result) queue_port \<Rightarrow> date \<Rightarrow> string \<Rightarrow> thrown + 'result \<Rightarrow> nat \<Rightarrow>
      'job processor \<times> 'q \<Rightarrow> 'job processor \<times> 'q" where
  "loop_resume opts port now uuid outcome i = (\<lambda>(p, q).
     case lp_pc (pr_loops p ! i) of
       LAwaitClaim (Inl e) \<Rightarrow> (set_pc i (LCrashed False e) p, q)
     | LAwaitClaim (Inr None) \<Rightarrow> (set_pc i LIdle p, q)
     | LAwaitClaim (Inr (Some c)) \<Rightarrow>
         if loop_stopped i p
         then let (res, q') = releaseClaim port c q in (set_pc i (LAwaitRelease res) p, q')
         else (begin_task i c p, q)
     | LIdle \<Rightarrow> loop_iter opts port now uuid i (p, q)
     | LAwaitRelease (Inl e) \<Rightarrow> (set_pc i (LCrashed False e) p, q)
     | LAwaitRelease (Inr _) \<Rightarrow> (set_pc i LDone p, q)
     | LRunning c ctl \<Rightarrow>
         (case outcome of
            Inr result \<Rightarrow>
              let (res, q') = pt_complete port (qt_taskId (qc_task c)) (qc_leaseId c) result q
              in (set_pc i (LAwaitComplete c ctl res) p, q')
          | Inl err \<Rightarrow> task_failed opts port now i c ctl err (p, q))
     | LAwaitComplete c ctl (Inr _) \<Rightarrow>
         loop_iter opts port now uuid i (task_finally ctl (p\<lparr>pr_completed := pr_completed p + 1\<rparr>), q)
     | LAwaitComplete c ctl (Inl e) \<Rightarrow> task_failed opts port now i c ctl (ErrorObject (error_message e)) (p, q)
     | LAwaitFail c ctl (Inr (FailRetryScheduled a d)) \<Rightarrow>
         loop_iter opts port now uuid i (task_finally ctl (p\<lparr>pr_retried := pr_retried p + 1\<rparr>), q)
     | LAwaitFail c ctl (Inr FailDeadLettered) \<Rightarrow>
         loop_iter opts port now uuid i (task_finally ctl (p\<lparr>pr_deadLettered := pr_deadLettered p + 1\<rparr>), q)
     | LAwaitFail c ctl (Inl e) \<Rightarrow> (set_pc i (LCrashed True e) (task_finally ctl p), q)
     | LDone \<Rightarrow> (p, q)
     | LCrashed b e \<Rightarrow> (p, q))"

definition proc_start ::
    "processor_options \<Rightarrow> ('q, 'job, 'result) queue_port \<Rightarrow> date \<Rightarrow> string \<Rightarrow>
      'job processor \<times> 'q \<Rightarrow> 'job processor \<times> 'q" where
  "proc_start opts port now uuid = (\<lambda>(p, q).
     if pr_state p = Running then (p, q)
     else let i = length (pr_loops p)
          in loop_iter opts port now uuid i
               (p\<lparr>pr_stopController := Some i, pr_state := Running,
                  pr_loops := pr_loops p @ [\<lparr>lp_aborted = False, lp_pc = LIdle\<rparr>]\<rparr>, q))"

definition proc_stop :: "'job processor \<Rightarrow> (queue_error + unit) \<times> 'job processor" where
  "proc_stop p =
     (if pr_state p = Created then (Inr (), p\<lparr>pr_state := Stopped\<rparr>)
      else case pr_stopController p of
             None \<Rightarrow> (Inl (SubscriptionQueueError ProcessorNotStarted ''Queue processor has not been started.''), p)
           | Some i \<Rightarrow>
               let p1 = armCurrentTaskShutdownGrace (p\<lparr>pr_state := Stopping\<rparr>)
               in (Inr (), p1\<lparr>pr_loops := (pr_loops p1)[i := (pr_loops p1 ! i)\<lparr>lp_aborted := True\<rparr>],
                              pr_waiters := pr_waiters p1 @ [i]\<rparr>))"

fun pc_finished :: "'job loop_pc \<Rightarrow> bool" where
  "pc_finished LDone = True"
| "pc_finished (LCrashed b e) = True"
| "pc_finished _ = False"

text \<open>The rest of \<open>stop\<close>, once the loop it awaits has settled.\<close>

definition proc_stop_resume :: "nat \<Rightarrow> 'job processor \<Rightarrow> 'job processor" where
  "proc_stop_resume k p =
     (if k < length (pr_waiters p) \<and> pc_finished (lp_pc (pr_loops p ! (pr_waiters p ! k)))
      then (clearShutdownGraceTimer p)\<lparr>pr_state := Stopped,
             pr_waiters := take k (pr_waiters p) @ drop (Suc k) (pr_waiters p)\<rparr>
      else p)"

text \<open>
  The caller's signal aborts the controller of every task whose listener is registered, which is
  every task that is running or being settled.
\<close>

fun pc_controller :: "'job loop_pc \<Rightarrow> nat option" where
  "pc_controller (LRunning c ctl) = Some ctl"
| "pc_controller (LAwaitComplete c ctl r) = Some ctl"
| "pc_controller (LAwaitFail c ctl r) = Some ctl"
| "pc_controller _ = None"

definition proc_abort :: "'job processor \<Rightarrow> 'job processor" where
  "proc_abort p =
     (if pr_extAborted p then p
      else fold abort_controller (List.map_filter (\<lambda>l. pc_controller (lp_pc l)) (pr_loops p))
             (p\<lparr>pr_extAborted := True\<rparr>))"

definition proc_grace :: "'job processor \<Rightarrow> 'job processor" where
  "proc_grace p = (case pr_timer p of None \<Rightarrow> p | Some c \<Rightarrow> abort_controller c p)"

datatype 'result proc_event =
    PStart date string
  | PStop
  | PStopResume nat
  | PAbort
  | PGrace
  | PLoop nat date string "thrown + 'result"

fun proc_step ::
    "processor_options \<Rightarrow> ('q, 'job, 'result) queue_port \<Rightarrow> 'result proc_event \<Rightarrow>
      'job processor \<times> 'q \<Rightarrow> 'job processor \<times> 'q" where
  "proc_step opts port (PStart now uuid) s = proc_start opts port now uuid s"
| "proc_step opts port PStop (p, q) = (snd (proc_stop p), q)"
| "proc_step opts port (PStopResume k) (p, q) = (proc_stop_resume k p, q)"
| "proc_step opts port PAbort (p, q) = (proc_abort p, q)"
| "proc_step opts port PGrace (p, q) = (proc_grace p, q)"
| "proc_step opts port (PLoop i now uuid outcome) s =
     (if i < length (pr_loops (fst s)) then loop_resume opts port now uuid outcome i s else s)"

fun proc_steps ::
    "processor_options \<Rightarrow> ('q, 'job, 'result) queue_port \<Rightarrow> 'result proc_event list \<Rightarrow>
      'job processor \<times> 'q \<Rightarrow> 'job processor \<times> 'q" where
  "proc_steps opts port [] s = s"
| "proc_steps opts port (e # es) s = proc_steps opts port es (proc_step opts port e s)"

text \<open>The in-memory queue as an implementation of the port.\<close>

definition in_memory_port :: "(('job, 'result) task_queue, 'job, 'result) queue_port" where
  "in_memory_port =
     \<lparr>pt_claim = \<lambda>ttl now uuid. q_claim ttl None now uuid,
      pt_complete = q_complete,
      pt_fail = \<lambda>t l err policy now. q_fail t l err policy None now,
      pt_release = Some q_release\<rparr>"

section \<open>Frames\<close>

definition pcs :: "('job loop_pc \<Rightarrow> bool) \<Rightarrow> 'job processor \<Rightarrow> nat" where
  "pcs P p = length (filter (\<lambda>l. P (lp_pc l)) (pr_loops p))"

lemma set_pc_frame [simp]:
  "pr_state (set_pc i pc p) = pr_state p" "pr_controllers (set_pc i pc p) = pr_controllers p"
  "pr_stopController (set_pc i pc p) = pr_stopController p" "pr_timer (set_pc i pc p) = pr_timer p"
  "pr_current (set_pc i pc p) = pr_current p" "pr_extAborted (set_pc i pc p) = pr_extAborted p"
  "pr_waiters (set_pc i pc p) = pr_waiters p"
  "pr_claimed (set_pc i pc p) = pr_claimed p" "pr_completed (set_pc i pc p) = pr_completed p"
  "pr_retried (set_pc i pc p) = pr_retried p" "pr_deadLettered (set_pc i pc p) = pr_deadLettered p"
  "pr_failed (set_pc i pc p) = pr_failed p" "length (pr_loops (set_pc i pc p)) = length (pr_loops p)"
  by (simp_all add: set_pc_def)

lemma set_pc_nth:
  "i < length (pr_loops p) \<Longrightarrow> j < length (pr_loops p) \<Longrightarrow>
    pr_loops (set_pc i pc p) ! j = (if i = j then (pr_loops p ! i)\<lparr>lp_pc := pc\<rparr> else pr_loops p ! j)"
  by (simp add: set_pc_def nth_list_update)

lemma pcs_set_pc:
  "i < length (pr_loops p) \<Longrightarrow>
    pcs P (set_pc i pc p) + (if P (lp_pc (pr_loops p ! i)) then 1 else 0) = pcs P p + (if P pc then 1 else 0)"
  using length_filter_update [of i "pr_loops p" "\<lambda>l. P (lp_pc l)"] by (simp add: pcs_def set_pc_def)

lemma pcs_loops: "pr_loops p' = pr_loops p \<Longrightarrow> pcs P p' = pcs P p"
  by (simp add: pcs_def)

lemma arm_frame [simp]:
  "pr_loops (armCurrentTaskShutdownGrace p) = pr_loops p" "pr_state (armCurrentTaskShutdownGrace p) = pr_state p"
  "pr_claimed (armCurrentTaskShutdownGrace p) = pr_claimed p" "pr_completed (armCurrentTaskShutdownGrace p) = pr_completed p"
  "pr_retried (armCurrentTaskShutdownGrace p) = pr_retried p" "pr_deadLettered (armCurrentTaskShutdownGrace p) = pr_deadLettered p"
  "pr_failed (armCurrentTaskShutdownGrace p) = pr_failed p" "pr_controllers (armCurrentTaskShutdownGrace p) = pr_controllers p"
  "pr_extAborted (armCurrentTaskShutdownGrace p) = pr_extAborted p"
  "pr_stopController (armCurrentTaskShutdownGrace p) = pr_stopController p"
  "pr_waiters (armCurrentTaskShutdownGrace p) = pr_waiters p" "pr_current (armCurrentTaskShutdownGrace p) = pr_current p"
  by (simp_all add: armCurrentTaskShutdownGrace_def split: option.splits)

lemma clear_frame [simp]:
  "pr_loops (clearShutdownGraceTimer p) = pr_loops p" "pr_state (clearShutdownGraceTimer p) = pr_state p"
  "pr_claimed (clearShutdownGraceTimer p) = pr_claimed p" "pr_completed (clearShutdownGraceTimer p) = pr_completed p"
  "pr_retried (clearShutdownGraceTimer p) = pr_retried p" "pr_deadLettered (clearShutdownGraceTimer p) = pr_deadLettered p"
  "pr_failed (clearShutdownGraceTimer p) = pr_failed p" "pr_extAborted (clearShutdownGraceTimer p) = pr_extAborted p"
  by (simp_all add: clearShutdownGraceTimer_def)

lemma finally_frame [simp]:
  "pr_loops (task_finally c p) = pr_loops p" "pr_state (task_finally c p) = pr_state p"
  "pr_claimed (task_finally c p) = pr_claimed p" "pr_completed (task_finally c p) = pr_completed p"
  "pr_retried (task_finally c p) = pr_retried p" "pr_deadLettered (task_finally c p) = pr_deadLettered p"
  "pr_failed (task_finally c p) = pr_failed p" "pr_extAborted (task_finally c p) = pr_extAborted p"
  by (simp_all add: task_finally_def Let_def)

lemma abort_frame [simp]:
  "pr_loops (abort_controller c p) = pr_loops p" "pr_state (abort_controller c p) = pr_state p"
  "pr_claimed (abort_controller c p) = pr_claimed p" "pr_completed (abort_controller c p) = pr_completed p"
  "pr_retried (abort_controller c p) = pr_retried p" "pr_deadLettered (abort_controller c p) = pr_deadLettered p"
  "pr_failed (abort_controller c p) = pr_failed p" "pr_extAborted (abort_controller c p) = pr_extAborted p"
  by (simp_all add: abort_controller_def)

lemma proc_abort_frame [simp]:
  "pr_loops (proc_abort p) = pr_loops p" "pr_state (proc_abort p) = pr_state p"
  "pr_claimed (proc_abort p) = pr_claimed p" "pr_completed (proc_abort p) = pr_completed p"
  "pr_retried (proc_abort p) = pr_retried p" "pr_deadLettered (proc_abort p) = pr_deadLettered p"
  "pr_failed (proc_abort p) = pr_failed p"
proof -
  have "pr_loops (fold abort_controller cs p) = pr_loops p \<and> pr_state (fold abort_controller cs p) = pr_state p \<and>
    pr_claimed (fold abort_controller cs p) = pr_claimed p \<and> pr_completed (fold abort_controller cs p) = pr_completed p \<and>
    pr_retried (fold abort_controller cs p) = pr_retried p \<and> pr_deadLettered (fold abort_controller cs p) = pr_deadLettered p \<and>
    pr_failed (fold abort_controller cs p) = pr_failed p" for cs and p :: "'a processor"
    by (induction cs arbitrary: p) auto
  then show "pr_loops (proc_abort p) = pr_loops p" "pr_state (proc_abort p) = pr_state p"
    "pr_claimed (proc_abort p) = pr_claimed p" "pr_completed (proc_abort p) = pr_completed p"
    "pr_retried (proc_abort p) = pr_retried p" "pr_deadLettered (proc_abort p) = pr_deadLettered p"
    "pr_failed (proc_abort p) = pr_failed p" by (simp_all add: proc_abort_def)
qed

lemma proc_abort_ext [simp]: "pr_extAborted (proc_abort p)"
proof -
  have "pr_extAborted (fold abort_controller cs p') = pr_extAborted p'" for cs and p' :: "'a processor"
    by (induction cs arbitrary: p') auto
  then show ?thesis by (simp add: proc_abort_def)
qed

section \<open>The counters\<close>

fun pc_in_task :: "'job loop_pc \<Rightarrow> bool" where
  "pc_in_task (LRunning c ctl) = True"
| "pc_in_task (LAwaitComplete c ctl r) = True"
| "pc_in_task _ = False"

fun pc_in_fail :: "'job loop_pc \<Rightarrow> bool" where
  "pc_in_fail (LAwaitFail c ctl r) = True"
| "pc_in_fail (LCrashed b e) = b"
| "pc_in_fail _ = False"

definition counters_ok :: "'job processor \<Rightarrow> bool" where
  "counters_ok p \<longleftrightarrow>
     pr_claimed p = pr_completed p + pr_failed p + pcs pc_in_task p \<and>
     pr_failed p = pr_retried p + pr_deadLettered p + pcs pc_in_fail p"

lemmas counters_okD = counters_ok_def [THEN iffD1]

lemma counters_frame:
  "pr_loops p' = pr_loops p \<Longrightarrow> pr_claimed p' = pr_claimed p \<Longrightarrow> pr_completed p' = pr_completed p \<Longrightarrow>
    pr_retried p' = pr_retried p \<Longrightarrow> pr_deadLettered p' = pr_deadLettered p \<Longrightarrow> pr_failed p' = pr_failed p \<Longrightarrow>
    counters_ok p' = counters_ok p"
  by (simp add: counters_ok_def pcs_def)

text \<open>The counters with loop \<open>i\<close> left out; a loop outside a task weighs nothing.\<close>

lemma counters_set_pc:
  assumes "i < length (pr_loops p)"
  shows "counters_ok (set_pc i pc p) \<longleftrightarrow>
    pr_claimed p + (if pc_in_task (lp_pc (pr_loops p ! i)) then 1 else 0) =
      pr_completed p + pr_failed p + pcs pc_in_task p + (if pc_in_task pc then 1 else 0) \<and>
    pr_failed p + (if pc_in_fail (lp_pc (pr_loops p ! i)) then 1 else 0) =
      pr_retried p + pr_deadLettered p + pcs pc_in_fail p + (if pc_in_fail pc then 1 else 0)"
  using pcs_set_pc [OF assms, of pc_in_task pc] pcs_set_pc [OF assms, of pc_in_fail pc]
  unfolding counters_ok_def set_pc_frame by (intro iffI conjI; elim conjE; linarith)

lemma counters_loop_iter:
  assumes "i < length (pr_loops p)" and "counters_ok (set_pc i LDone p)"
  shows "counters_ok (fst (loop_iter opts port now uuid i (p, q)))"
  using assms by (simp add: loop_iter_def counters_set_pc split: prod.splits)

lemma counters_pc:
  assumes "i < length (pr_loops p)" and "counters_ok p"
    and "pc_in_task pc = pc_in_task (lp_pc (pr_loops p ! i))" and "pc_in_fail pc = pc_in_fail (lp_pc (pr_loops p ! i))"
  shows "counters_ok (set_pc i pc p)"
  using assms by (auto simp: counters_set_pc dest!: counters_okD)

lemma counters_task_failed:
  assumes "i < length (pr_loops p)" and "counters_ok p" and "pc_in_task (lp_pc (pr_loops p ! i))"
  shows "counters_ok (fst (task_failed opts port now i c ctl err (p, q)))"
proof -
  have "\<not> pc_in_fail (lp_pc (pr_loops p ! i))" using assms(3) by (cases "lp_pc (pr_loops p ! i)") auto
  with assms show ?thesis
    by (auto simp: task_failed_def counters_set_pc pcs_def dest!: counters_okD split: prod.splits)
qed

lemma counters_begin_task:
  assumes "i < length (pr_loops p)" and "counters_ok p"
    and "\<not> pc_in_task (lp_pc (pr_loops p ! i))" and "\<not> pc_in_fail (lp_pc (pr_loops p ! i))"
  shows "counters_ok (begin_task i c p)"
  using assms by (auto simp: begin_task_def Let_def counters_set_pc pcs_def dest!: counters_okD)

lemma counters_settled:
  assumes "i < length (pr_loops p)" and "counters_ok p" and "pr_loops p' = pr_loops p"
    and "pr_claimed p' = pr_claimed p" and "pr_failed p' = pr_failed p"
    and "pc_in_task (lp_pc (pr_loops p ! i)) \<and> pr_completed p' = pr_completed p + 1 \<and>
           pr_retried p' = pr_retried p \<and> pr_deadLettered p' = pr_deadLettered p \<or>
         pc_in_fail (lp_pc (pr_loops p ! i)) \<and> pr_completed p' = pr_completed p \<and>
           pr_retried p' + pr_deadLettered p' = pr_retried p + pr_deadLettered p + 1"
  shows "counters_ok (fst (loop_iter opts port now uuid i (p', q)))"
proof -
  have "\<not> pc_in_task (lp_pc (pr_loops p ! i)) \<or> \<not> pc_in_fail (lp_pc (pr_loops p ! i))"
    by (cases "lp_pc (pr_loops p ! i)") auto
  with assms show ?thesis
    by (intro counters_loop_iter) (auto simp: counters_set_pc pcs_loops [OF assms(3)] dest!: counters_okD)
qed

lemma counters_loop_resume:
  assumes i: "i < length (pr_loops p)" and ok: "counters_ok p"
  shows "counters_ok (fst (loop_resume opts port now uuid outcome i (p, q)))"
proof (cases "lp_pc (pr_loops p ! i)")
  case (LAwaitClaim r)
  with assms show ?thesis
    by (auto simp: loop_resume_def intro!: counters_pc counters_begin_task split: sum.splits option.splits prod.splits)
next
  case LIdle
  with assms show ?thesis
    by (auto simp: loop_resume_def intro!: counters_loop_iter counters_pc)
next
  case (LAwaitRelease r)
  with assms show ?thesis by (auto simp: loop_resume_def intro!: counters_pc split: sum.splits)
next
  case (LRunning c ctl)
  with assms show ?thesis
    by (auto simp: loop_resume_def intro!: counters_pc counters_task_failed split: sum.splits prod.splits)
next
  case (LAwaitComplete c ctl r)
  with assms show ?thesis
    using counters_settled [OF i ok, of "task_finally ctl (p\<lparr>pr_completed := pr_completed p + 1\<rparr>)"]
    by (cases r) (simp_all add: loop_resume_def counters_task_failed)
next
  case (LAwaitFail c ctl r)
  show ?thesis
  proof (cases r)
    case (Inl e)
    have "counters_ok (task_finally ctl p)" using ok counters_frame [of "task_finally ctl p" p] by simp
    with i LAwaitFail Inl show ?thesis by (simp add: loop_resume_def counters_pc)
  next
    case (Inr f)
    with LAwaitFail show ?thesis
      using counters_settled [OF i ok, of "task_finally ctl (p\<lparr>pr_retried := pr_retried p + 1\<rparr>)"]
        counters_settled [OF i ok, of "task_finally ctl (p\<lparr>pr_deadLettered := pr_deadLettered p + 1\<rparr>)"]
      by (cases f) (simp_all add: loop_resume_def)
  qed
qed (use assms in \<open>auto simp: loop_resume_def\<close>)

lemma filter_pc_abort:
  "length (filter (\<lambda>l. P (lp_pc l)) (xs[i := (xs ! i)\<lparr>lp_aborted := b\<rparr>])) = length (filter (\<lambda>l. P (lp_pc l)) xs)"
proof (cases "i < length xs")
  case True
  from length_filter_update [OF this, of "\<lambda>l. P (lp_pc l)" "(xs ! i)\<lparr>lp_aborted := b\<rparr>"] show ?thesis by simp
qed (simp add: list_update_beyond)

lemma counters_stop: "counters_ok p \<Longrightarrow> counters_ok (snd (proc_stop p))"
  by (auto simp: proc_stop_def Let_def counters_ok_def pcs_def filter_pc_abort split: option.splits)

lemma counters_start: "counters_ok p \<Longrightarrow> counters_ok (fst (proc_start opts port now uuid (p, q)))"
  by (auto simp: proc_start_def Let_def counters_set_pc pcs_def intro!: counters_loop_iter dest!: counters_okD)

lemma counters_step: "counters_ok (fst s) \<Longrightarrow> counters_ok (fst (proc_step opts port e s))"
proof (cases s)
  case (Pair p q)
  assume ok: "counters_ok (fst s)"
  have "counters_ok (proc_stop_resume k p)" for k
    using ok Pair counters_frame [of "proc_stop_resume k p" p] by (simp add: proc_stop_resume_def)
  moreover have "counters_ok (proc_abort p)"
    using ok Pair counters_frame [of "proc_abort p" p] by simp
  moreover have "counters_ok (proc_grace p)"
    using ok Pair counters_frame [of "proc_grace p" p] by (simp add: proc_grace_def split: option.splits)
  ultimately show ?thesis
    using ok Pair by (cases e) (auto simp: counters_stop counters_start counters_loop_resume)
qed

lemma counters_steps: "counters_ok (fst s) \<Longrightarrow> counters_ok (fst (proc_steps opts port es s))"
  by (induction es arbitrary: s) (auto simp: counters_step)

lemma counters_new: "counters_ok processor_new"
  by (simp add: counters_ok_def processor_new_def pcs_def)

section \<open>One loop among the others\<close>

lemma set_pc_same: "i < length (pr_loops p) \<Longrightarrow> set_pc i (lp_pc (pr_loops p ! i)) p = p"
  by (simp add: set_pc_def)

lemma loop_iter_shape: "\<exists>pc. fst (loop_iter opts port now uuid i (p, q)) = set_pc i pc p"
  by (auto simp: loop_iter_def split: prod.splits)

lemma begin_task_shape:
  "\<exists>pc p'. begin_task i c p = set_pc i pc p' \<and> pr_loops p' = pr_loops p \<and>
     pr_extAborted p' = pr_extAborted p \<and> pr_state p' = pr_state p"
  by (rule exI [of _ "LRunning c (length (pr_controllers p))"]) (auto simp: begin_task_def Let_def)

lemma loop_iter_shape_frame:
  "pr_loops p1 = pr_loops p \<Longrightarrow> pr_extAborted p1 = pr_extAborted p \<Longrightarrow> pr_state p1 = pr_state p \<Longrightarrow>
    \<exists>pc p'. fst (loop_iter opts port now uuid i (p1, q)) = set_pc i pc p' \<and> pr_loops p' = pr_loops p \<and>
     pr_extAborted p' = pr_extAborted p \<and> pr_state p' = pr_state p"
  using loop_iter_shape [of opts port now uuid i p1 q] by blast

text \<open>A resumed loop moves its own program counter and no other loop.\<close>

lemma loop_resume_shape:
  assumes "i < length (pr_loops p)"
  shows "\<exists>pc p'. fst (loop_resume opts port now uuid outcome i (p, q)) = set_pc i pc p' \<and>
    pr_loops p' = pr_loops p \<and> pr_extAborted p' = pr_extAborted p \<and> pr_state p' = pr_state p"
proof -
  have stay: "\<exists>pc p'. p = set_pc i pc p' \<and> pr_loops p' = pr_loops p \<and> pr_extAborted p' = pr_extAborted p \<and> pr_state p' = pr_state p"
    using set_pc_same [OF assms, symmetric] by blast
  have move: "\<exists>pc' p'. set_pc i pc p1 = set_pc i pc' p' \<and> pr_loops p' = pr_loops p \<and> pr_extAborted p' = pr_extAborted p \<and>
      pr_state p' = pr_state p"
    if "pr_loops p1 = pr_loops p" "pr_extAborted p1 = pr_extAborted p" "pr_state p1 = pr_state p" for pc p1
    using that by blast
  show ?thesis
    by (cases "lp_pc (pr_loops p ! i)")
       (auto simp: loop_resume_def task_failed_def Let_def stay move begin_task_shape loop_iter_shape_frame
          split: sum.splits option.splits prod.splits fail_result.splits)
qed

fun pc_rank :: "'job loop_pc \<Rightarrow> nat" where
  "pc_rank LDone = 0"
| "pc_rank (LCrashed b e) = 0"
| "pc_rank LIdle = 1"
| "pc_rank (LAwaitRelease r) = 1"
| "pc_rank (LAwaitFail c ctl r) = 1"
| "pc_rank (LAwaitClaim r) = 2"
| "pc_rank (LAwaitComplete c ctl r) = 2"
| "pc_rank (LRunning c ctl) = 3"

lemma pc_rank_0: "pc_rank pc = 0 \<longleftrightarrow> pc_finished pc"
  by (cases pc) auto

abbreviation pc_at :: "'job processor \<times> 'q \<Rightarrow> nat \<Rightarrow> 'job loop_pc" where
  "pc_at s i \<equiv> lp_pc (pr_loops (fst s) ! i)"

lemma loop_iter_stopped:
  "i < length (pr_loops p) \<Longrightarrow> loop_stopped i p \<Longrightarrow> loop_iter opts port now uuid i (p, q) = (set_pc i LDone p, q)"
  by (simp add: loop_iter_def)

lemma loop_stopped_frame:
  "pr_loops p' = pr_loops p \<Longrightarrow> pr_extAborted p' = pr_extAborted p \<Longrightarrow> loop_stopped i p' = loop_stopped i p"
  by (simp add: loop_stopped_def)

lemma loop_iter_stopped_pc:
  assumes "i < length (pr_loops p)" and "loop_stopped i p"
    and "pr_loops p' = pr_loops p" and "pr_extAborted p' = pr_extAborted p"
  shows "pc_at (loop_iter opts port now uuid i (p', q)) i = LDone"
proof -
  have "loop_iter opts port now uuid i (p', q) = (set_pc i LDone p', q)"
    using assms loop_stopped_frame [OF assms(3,4)] by (intro loop_iter_stopped) auto
  with assms show ?thesis by (simp add: set_pc_nth)
qed

lemma loop_resume_rank:
  assumes i: "i < length (pr_loops p)" and stop: "loop_stopped i p"
  shows "pc_rank (pc_at (loop_resume opts port now uuid outcome i (p, q)) i) \<le> pc_rank (pc_at (p, q) i) - 1"
proof (cases "lp_pc (pr_loops p ! i)")
  case (LAwaitComplete c ctl r)
  with assms show ?thesis
    by (cases r) (auto simp: loop_resume_def task_failed_def set_pc_nth
        loop_iter_stopped_pc [OF assms, of "task_finally ctl (p\<lparr>pr_completed := Suc (pr_completed p)\<rparr>)"] split: prod.splits)
next
  case (LAwaitFail c ctl r)
  with assms show ?thesis
    by (auto simp: loop_resume_def set_pc_nth
        loop_iter_stopped_pc [OF assms, of "task_finally ctl (p\<lparr>pr_retried := Suc (pr_retried p)\<rparr>)"]
        loop_iter_stopped_pc [OF assms, of "task_finally ctl (p\<lparr>pr_deadLettered := Suc (pr_deadLettered p)\<rparr>)"]
        split: sum.splits fail_result.splits)
qed (use assms in \<open>auto simp: loop_resume_def task_failed_def set_pc_nth loop_iter_stopped
      split: sum.splits option.splits prod.splits\<close>)

text \<open>What an event leaves of loop \<open>i\<close>: only its own resumption moves its program counter, and a
  stopped loop stays stopped.\<close>

lemma abort_loop_nth:
  "i < length xs \<Longrightarrow> lp_pc (xs[x := (xs ! x)\<lparr>lp_aborted := True\<rparr>] ! i) = lp_pc (xs ! i)"
  "i < length xs \<Longrightarrow> lp_aborted (xs[x := (xs ! x)\<lparr>lp_aborted := True\<rparr>] ! i) \<longleftrightarrow> x = i \<or> lp_aborted (xs ! i)"
  by (cases "x = i"; simp)+

lemma proc_step_loop:
  assumes "i < length (pr_loops (fst s))" and "loop_stopped i (fst s)"
  shows "i < length (pr_loops (fst (proc_step opts port e s))) \<and> loop_stopped i (fst (proc_step opts port e s)) \<and>
    (case e of PLoop j now uuid out \<Rightarrow> j \<noteq> i \<longrightarrow> pc_at (proc_step opts port e s) i = pc_at s i
     | _ \<Rightarrow> pc_at (proc_step opts port e s) i = pc_at s i)"
proof (cases s)
  case (Pair p q)
  show ?thesis
  proof (cases e)
    case (PStart now uuid)
    let ?p = "p\<lparr>pr_stopController := Some (length (pr_loops p)), pr_state := Running,
      pr_loops := pr_loops p @ [\<lparr>lp_aborted = False, lp_pc = LIdle\<rparr>]\<rparr>"
    obtain pc where "fst (loop_iter opts port now uuid (length (pr_loops p)) (?p, q)) = set_pc (length (pr_loops p)) pc ?p"
      using loop_iter_shape [of opts port now uuid "length (pr_loops p)" ?p q] by blast
    with PStart Pair assms show ?thesis
      by (auto simp: proc_start_def Let_def loop_stopped_def set_pc_nth nth_append)
  next
    case PStop
    with Pair assms show ?thesis
      by (auto simp: proc_stop_def Let_def loop_stopped_def abort_loop_nth split: option.splits)
  next
    case (PLoop j now uuid out)
    show ?thesis
    proof (cases "j < length (pr_loops p)")
      case True
      from loop_resume_shape [OF this, of opts port now uuid out q] PLoop Pair assms True show ?thesis
        by (auto simp: loop_stopped_def set_pc_nth)
    qed (use PLoop Pair assms in auto)
  qed (use Pair assms in \<open>auto simp: proc_stop_resume_def proc_grace_def loop_stopped_def clearShutdownGraceTimer_def
      abort_controller_def split: option.splits\<close>)
qed

definition resumptions :: "nat \<Rightarrow> 'result proc_event list \<Rightarrow> nat" where
  "resumptions i es = length (filter (\<lambda>e. case e of PLoop j now uuid out \<Rightarrow> j = i | _ \<Rightarrow> False) es)"

lemma stopped_loop_rank:
  assumes "i < length (pr_loops (fst s))" and "loop_stopped i (fst s)"
  shows "pc_rank (pc_at (proc_steps opts port es s) i) \<le> pc_rank (pc_at s i) - resumptions i es"
  using assms
proof (induction es arbitrary: s)
  case (Cons e es)
  note step = proc_step_loop [OF Cons.prems, of opts port e]
  have "pc_rank (pc_at (proc_step opts port e s) i) \<le> pc_rank (pc_at s i) - resumptions i [e]"
  proof (cases "\<exists>now uuid out. e = PLoop i now uuid out")
    case True
    then obtain now uuid out where e: "e = PLoop i now uuid out" by blast
    with loop_resume_rank [of i "fst s" opts port now uuid out "snd s"] Cons.prems show ?thesis
      by (simp add: resumptions_def)
  next
    case False
    then have "resumptions i [e] = 0" by (auto simp: resumptions_def split: proc_event.splits)
    moreover have "pc_at (proc_step opts port e s) i = pc_at s i"
      using step False by (cases e) auto
    ultimately show ?thesis by simp
  qed
  moreover have "resumptions i (e # es) = resumptions i [e] + resumptions i es"
    by (simp add: resumptions_def)
  ultimately show ?case
    using Cons.IH [of "proc_step opts port e s"] step by simp
qed (simp add: resumptions_def)

section \<open>The processor on the in-memory queue\<close>

lemma in_memory_port_simps [simp]:
  "pt_claim in_memory_port ttl now uuid q = q_claim ttl None now uuid q"
  "pt_complete in_memory_port t l x q = q_complete t l x q"
  "pt_fail in_memory_port t l err policy now q = q_fail t l err policy None now q"
  "pt_release in_memory_port = Some q_release"
  by (simp_all add: in_memory_port_def)

definition queue_moves :: "('job, 'result) task_queue \<Rightarrow> ('job, 'result) task_queue \<Rightarrow> bool" where
  "queue_moves q q' \<longleftrightarrow> (\<exists>calls. q' = q_steps calls q)"

lemma queue_moves_one: "queue_moves q (q_step x q)"
  unfolding queue_moves_def by (rule exI [of _ "[x]"]) simp

lemma queue_moves_refl [simp]: "queue_moves q q"
  unfolding queue_moves_def by (rule exI [of _ "[]"]) simp

lemma queue_moves_trans: "queue_moves q q1 \<Longrightarrow> queue_moves q1 q2 \<Longrightarrow> queue_moves q q2"
  unfolding queue_moves_def using q_steps_append by metis

lemma queue_moves_calls [simp]:
  "queue_moves q (snd (q_claim ttl n c u q))" "queue_moves q (snd (q_complete t l x q))"
  "queue_moves q (snd (q_release t l q))" "queue_moves q (snd (q_fail t l er p n c q))"
  using queue_moves_one [of q "OpClaim ttl n c u"] queue_moves_one [of q "OpComplete t l x"]
    queue_moves_one [of q "OpRelease t l"] queue_moves_one [of q "OpFail t l er p n c"] by simp_all

lemma loop_iter_moves [simp]: "queue_moves q (snd (loop_iter opts in_memory_port now uuid i (p, q)))"
  by (simp add: loop_iter_def case_prod_beta)

lemma loop_resume_moves: "queue_moves q (snd (loop_resume opts in_memory_port now uuid outcome i (p, q)))"
  by (cases "lp_pc (pr_loops p ! i)")
     (auto simp: loop_resume_def task_failed_def releaseClaim_def case_prod_beta Let_def
        split: sum.split option.split fail_result.split)

lemma proc_step_moves: "queue_moves (snd s) (snd (proc_step opts in_memory_port e s))"
proof (cases s)
  case (Pair p q)
  then show ?thesis
    by (cases e) (auto simp: proc_start_def Let_def loop_resume_moves)
qed

lemma proc_steps_moves: "queue_moves (snd s) (snd (proc_steps opts in_memory_port es s))"
proof (induction es arbitrary: s)
  case (Cons e es)
  then show ?case using queue_moves_trans proc_step_moves by fastforce
qed simp

text \<open>A task that has ended is out of the processor's reach.\<close>

lemma proc_steps_inert:
  assumes "queue_inv q" and "map_of (q_records q) t = Some r" and "inert r"
  shows "map_of (q_records (snd (proc_steps opts in_memory_port es (p, q)))) t = Some r"
  using proc_steps_moves [of "(p, q)" opts es] inert_forever [OF assms] by (auto simp: queue_moves_def)

lemma q_complete_held:
  assumes "map_of (q_records q) t = Some r" and "qr_leaseId r = Some l"
  shows "q_complete t l x q = (Inr (), q_put t (r\<lparr>qr_status := Completed, qr_result := Some x,
    qr_leaseId := None, qr_leaseExpiresAt := None\<rparr>) q)"
proof -
  have "requireLeased t l q = Inr r" using assms by (simp add: requireLeased_Inr)
  then show ?thesis by (simp add: q_complete_def)
qed

section \<open>Properties\<close>

text \<open>
  C7. Nothing is lost from the books. In every interleaving of starts, stops, aborts, timers and
  loop resumptions, on any queue, the tasks counted as claimed are the completed, retried and
  dead-lettered ones and those still in a loop's hands; and the tasks counted as failed are the
  retried and dead-lettered ones and those whose failure the queue has not yet answered or has
  refused.
\<close>

theorem processor_books_balance:
  "let p = fst (proc_steps opts port es (processor_new, q)) in
    pr_claimed p = pr_completed p + pr_retried p + pr_deadLettered p + pcs pc_in_task p + pcs pc_in_fail p \<and>
    pr_failed p = pr_retried p + pr_deadLettered p + pcs pc_in_fail p"
proof -
  have "counters_ok (fst (proc_steps opts port es (processor_new, q)))"
    using counters_new by (intro counters_steps) simp
  from counters_okD [OF this] show ?thesis by (simp add: Let_def)
qed

text \<open>
  C8. Stopping ends the loop. After \<open>stop\<close>, whatever else happens in between, the loop it
  waits for has settled once it has been resumed three times: the worker pool's answer, the queue's
  answer to the completion and its answer to a failure are all it can still wait for.
\<close>

theorem stop_ends_loop:
  assumes "pr_state p \<noteq> Created" and "pr_stopController p = Some i" and "i < length (pr_loops p)"
    and "3 \<le> resumptions i es"
  shows "pc_finished (pc_at (proc_steps opts port es (snd (proc_stop p), q)) i)"
proof -
  have stopped: "loop_stopped i (snd (proc_stop p))" "i < length (pr_loops (snd (proc_stop p)))"
    using assms by (simp_all add: proc_stop_def Let_def loop_stopped_def)
  have "pc_rank pc \<le> 3" for pc :: "'a loop_pc" by (cases pc) auto
  with stopped_loop_rank [of i "(snd (proc_stop p), q)" opts port es] stopped assms(4)
  have "pc_rank (pc_at (proc_steps opts port es (snd (proc_stop p), q)) i) = 0"
    by (metis (no_types, lifting) diff_is_0_eq fst_conv le_trans le_zero_eq)
  then show ?thesis by (simp add: pc_rank_0)
qed

definition demo_running :: "nat processor" where
  "demo_running = processor_new\<lparr>pr_state := Running, pr_stopController := Some 0, pr_controllers := [False],
     pr_current := Some 0, pr_claimed := 1, pr_loops := [\<lparr>lp_aborted = False, lp_pc = LRunning
       \<lparr>qc_task = demo_task ''a'', qc_leaseId = ''L1'', qc_leaseExpiresAt = Instant 100\<rparr> 0\<rparr>]\<rparr>"

theorem stop_ends_loop_witness:
  "pc_finished (pc_at (proc_steps \<lparr>po_retryPolicy = None, po_leaseTtlMs = None\<rparr> in_memory_port
     [PLoop 0 (Instant 7) ''x'' (Inr 4), PGrace, PLoop 0 (Instant 8) ''y'' (Inr 4), PLoop 0 (Instant 9) ''z'' (Inr 4)]
     (snd (proc_stop demo_running), demo_queue)) 0)"
  by (rule stop_ends_loop) (simp_all add: demo_running_def resumptions_def)

text \<open>
  A result that arrives while the lease is held is kept for good: the queue records it as the
  task's result, the processor counts one more completion, and no later event of the processor
  changes that record.
\<close>

theorem held_result_is_stored:
  assumes "queue_inv q" and "i < length (pr_loops p)"
    and "lp_pc (pr_loops p ! i) = LRunning c ctl" and "q_holds (qt_taskId (qc_task c)) (qc_leaseId c) q"
    and "s1 = proc_step opts in_memory_port (PLoop i now uuid (Inr x)) (p, q)"
    and "s2 = proc_step opts in_memory_port (PLoop i now' uuid' out) s1"
  shows "pr_completed (fst s2) = pr_completed p + 1 \<and>
    (\<exists>r. qr_status r = Completed \<and> qr_result r = Some x \<and>
      (\<forall>es. map_of (q_records (snd (proc_steps opts in_memory_port es s2))) (qt_taskId (qc_task c)) = Some r))"
proof -
  let ?t = "qt_taskId (qc_task c)"
  from assms(4) obtain r where r: "map_of (q_records q) ?t = Some r" "qr_leaseId r = Some (qc_leaseId c)"
    by (auto simp: q_holds_def)
  let ?r = "r\<lparr>qr_status := Completed, qr_result := Some x, qr_leaseId := None, qr_leaseExpiresAt := None\<rparr>"
  have s1: "s1 = (set_pc i (LAwaitComplete c ctl (Inr ())) p, q_put ?t ?r q)"
    using assms(2,3,5) q_complete_held [OF r, of x] by (simp add: loop_resume_def)
  have completed: "pr_completed (fst s2) = pr_completed p + 1"
    using assms(2,6) s1 by (auto simp: loop_resume_def set_pc_nth loop_iter_def Let_def split: prod.splits)
  have inv: "queue_inv (q_put ?t ?r q)"
    using queue_inv_step [OF assms(1), of "OpComplete ?t (qc_leaseId c) x"] q_complete_held [OF r, of x] by simp
  have "inert ?r" by (simp add: inert_def)
  from proc_steps_inert [OF inv _ this, of ?t opts "PLoop i now' uuid' out # es" "fst s1" for es] s1 assms(6)
  have "map_of (q_records (snd (proc_steps opts in_memory_port es s2))) ?t = Some ?r" for es by simp
  with completed show ?thesis by (intro conjI exI [of _ ?r]) auto
qed

lemma demo_running_simps:
  "0 < length (pr_loops demo_running)" "pr_state demo_running = Running"
  "lp_pc (pr_loops demo_running ! 0) =
     LRunning \<lparr>qc_task = demo_task ''a'', qc_leaseId = ''L1'', qc_leaseExpiresAt = Instant 100\<rparr> 0"
  by (simp_all add: demo_running_def)

lemma demo_holds: "q_holds ''a'' ''L1'' demo_queue" "\<not> q_holds ''a'' ''L1'' (snd (q_release ''a'' ''L1'' demo_queue))"
proof -
  show "q_holds ''a'' ''L1'' demo_queue" by (simp add: q_holds_def demo_records) (simp add: demo_held_def)
  show "\<not> q_holds ''a'' ''L1'' (snd (q_release ''a'' ''L1'' demo_queue))"
    using q_settle_holds [OF demo_settle] by simp
qed

theorem held_result_is_stored_witness:
  "\<exists>r. qr_status r = Completed \<and> qr_result r = Some 4 \<and>
     (\<forall>es. map_of (q_records (snd (proc_steps \<lparr>po_retryPolicy = None, po_leaseTtlMs = None\<rparr> in_memory_port es
       (proc_step \<lparr>po_retryPolicy = None, po_leaseTtlMs = None\<rparr> in_memory_port (PLoop 0 (Instant 8) ''y'' (Inr 5))
         (proc_step \<lparr>po_retryPolicy = None, po_leaseTtlMs = None\<rparr> in_memory_port (PLoop 0 (Instant 7) ''x'' (Inr 4))
           (demo_running, demo_queue)))))) ''a'' = Some r)"
  using held_result_is_stored [OF demo_inv demo_running_simps(1,3) _ refl refl] demo_holds(1)
  by (simp add: demo_task_def)



definition demo_opts :: processor_options where
  "demo_opts = \<lparr>po_retryPolicy = None, po_leaseTtlMs = None\<rparr>"

definition demo_empty :: "(nat, nat) task_queue" where
  "demo_empty = \<lparr>q_queueId = ''q'', q_records = [], q_idempotency = [], q_closed = False\<rparr>"

lemma demo_empty_claim: "q_claim (Fin 600000) None now u demo_empty = (Inr None, demo_empty)"
proof -
  have "assertSubscriptionQueueClaimInput (Fin 600000) None = Inr ()" by (simp add: claim_input_ok_iff)
  then show ?thesis by (simp add: q_claim_def q_assertOpen_def demo_empty_def Let_def)
qed

text \<open>
  The reported state can be wrong after a restart. When \<open>start\<close> is called while \<open>stop\<close> still
  waits for the old loop, a second loop is begun; the old \<open>stop\<close> then reports the processor as
  stopped although the second loop is not, and goes on to claim tasks.
\<close>

theorem restart_while_stopping:
  "let s = proc_steps demo_opts in_memory_port
        [PStart (Instant 1) ''u'', PStop, PStart (Instant 2) ''v'', PLoop 0 (Instant 3) ''w'' (Inl OtherThrown),
         PLoop 0 (Instant 3) ''w'' (Inl OtherThrown), PStopResume 0] (processor_new, demo_empty)
   in pr_state (fst s) = Stopped \<and> pc_at s 0 = LDone \<and> pc_at s 1 = LAwaitClaim (Inr None) \<and>
      \<not> loop_stopped 1 (fst s)"
  by (simp add: demo_opts_def demo_empty_claim processor_new_def proc_start_def proc_stop_def Let_def loop_iter_def
      loop_stopped_def set_pc_def loop_resume_def
      armCurrentTaskShutdownGrace_def proc_stop_resume_def clearShutdownGraceTimer_def)

end
