(* ===== verification/Core_States.thy ===== *)
theory Core_States
  imports Prelude
begin

text \<open>
  The life of a session and of a session lease in the core, \<open>src/core/domain/state-machines.ts\<close>:
  the two transition tables and the assertion that refuses every other transition. The lemmas
  read the tables: no run of accepted transitions is endless, and a lease is committed along one
  path only.
\<close>

section \<open>Definitions\<close>

datatype session_state =
    Missing | Seeded | Preleased | Restored | Validated | Refreshing | WritebackPending
  | Active | NeedsReconnect | Stale

datatype lease_state =
    Requested | Granted | Denied | Finalized | WritebackStarted | WritebackCommitted
  | LeaseIdempotentReplay | StaleGeneration | LeaseExpired

datatype runtime_invariant_error = RuntimeInvariantError string

fun session_name :: "session_state \<Rightarrow> string" where
  "session_name Missing = ''missing''"
| "session_name Seeded = ''seeded''"
| "session_name Preleased = ''preleased''"
| "session_name Restored = ''restored''"
| "session_name Validated = ''validated''"
| "session_name Refreshing = ''refreshing''"
| "session_name WritebackPending = ''writeback_pending''"
| "session_name Active = ''active''"
| "session_name NeedsReconnect = ''needs_reconnect''"
| "session_name Stale = ''stale''"

fun lease_name :: "lease_state \<Rightarrow> string" where
  "lease_name Requested = ''requested''"
| "lease_name Granted = ''granted''"
| "lease_name Denied = ''denied''"
| "lease_name Finalized = ''finalized''"
| "lease_name WritebackStarted = ''writeback_started''"
| "lease_name WritebackCommitted = ''writeback_committed''"
| "lease_name LeaseIdempotentReplay = ''idempotent_replay''"
| "lease_name StaleGeneration = ''stale_generation''"
| "lease_name LeaseExpired = ''expired''"

fun sessionTransitions :: "session_state \<Rightarrow> session_state list" where
  "sessionTransitions Missing = [Seeded]"
| "sessionTransitions Seeded = [Preleased]"
| "sessionTransitions Preleased = [Restored, Stale]"
| "sessionTransitions Restored = [Validated, NeedsReconnect]"
| "sessionTransitions Validated = [Refreshing, Active, NeedsReconnect]"
| "sessionTransitions Refreshing = [WritebackPending, Active, NeedsReconnect]"
| "sessionTransitions WritebackPending = [Active, Stale]"
| "sessionTransitions Active = []"
| "sessionTransitions NeedsReconnect = []"
| "sessionTransitions Stale = []"

fun leaseTransitions :: "lease_state \<Rightarrow> lease_state list" where
  "leaseTransitions Requested = [Granted, Denied, LeaseExpired]"
| "leaseTransitions Granted = [Finalized, LeaseExpired]"
| "leaseTransitions Denied = []"
| "leaseTransitions Finalized = [WritebackStarted, LeaseExpired]"
| "leaseTransitions WritebackStarted =
     [WritebackCommitted, LeaseIdempotentReplay, StaleGeneration, LeaseExpired]"
| "leaseTransitions WritebackCommitted = []"
| "leaseTransitions LeaseIdempotentReplay = []"
| "leaseTransitions StaleGeneration = []"
| "leaseTransitions LeaseExpired = []"

definition assertTransition ::
    "string \<Rightarrow> ('s \<Rightarrow> string) \<Rightarrow> ('s \<Rightarrow> 's list) \<Rightarrow> 's \<Rightarrow> 's \<Rightarrow> runtime_invariant_error + unit" where
  "assertTransition name show_state transitions from_s to_s =
     (if to_s \<notin> set (transitions from_s)
      then Inl (RuntimeInvariantError
        (''Invalid '' @ name @ '' transition: '' @ show_state from_s @ '' -> '' @ show_state to_s))
      else Inr ())"

definition assertSessionTransition :: "session_state \<Rightarrow> session_state \<Rightarrow> runtime_invariant_error + unit" where
  "assertSessionTransition = assertTransition ''session'' session_name sessionTransitions"

definition assertLeaseTransition :: "lease_state \<Rightarrow> lease_state \<Rightarrow> runtime_invariant_error + unit" where
  "assertLeaseTransition = assertTransition ''lease'' lease_name leaseTransitions"

section \<open>Accepted runs\<close>

text \<open>A run of states each of whose steps passes the assertion.\<close>

fun accepted_run :: "('s \<Rightarrow> 's \<Rightarrow> 'e + unit) \<Rightarrow> 's list \<Rightarrow> bool" where
  "accepted_run check (a # b # ss) = (check a b = Inr () \<and> accepted_run check (b # ss))"
| "accepted_run check _ = True"

lemma assertTransition_ok [simp]:
  "assertTransition n sh tr a b = Inr () \<longleftrightarrow> b \<in> set (tr a)"
  by (simp add: assertTransition_def)

text \<open>A table whose every step lowers a rank admits no run longer than the rank of its start.\<close>

locale ranked_table =
  fixes transitions :: "'s \<Rightarrow> 's list" and check :: "'s \<Rightarrow> 's \<Rightarrow> 'e + unit" and rank :: "'s \<Rightarrow> nat"
  assumes step_lowers: "b \<in> set (transitions a) \<Longrightarrow> rank b < rank a"
    and check_iff: "check a b = Inr () \<longleftrightarrow> b \<in> set (transitions a)"
begin

lemma accepted_run_length: "accepted_run check (s # ss) \<Longrightarrow> length ss \<le> rank s"
proof (induction ss arbitrary: s)
  case (Cons b ss)
  then have "rank b < rank s" "accepted_run check (b # ss)" by (simp_all add: check_iff step_lowers)
  with Cons.IH [of b] show ?case by simp
qed simp

lemma accepted_run_rank: "accepted_run check (s # ss) \<Longrightarrow> b \<in> set ss \<Longrightarrow> rank b < rank s"
proof (induction ss arbitrary: s)
  case (Cons c ss)
  then have "rank c < rank s" "accepted_run check (c # ss)" by (simp_all add: check_iff step_lowers)
  with Cons show ?case by fastforce
qed simp

lemma accepted_run_distinct: "accepted_run check ss \<Longrightarrow> distinct ss"
proof (induction ss)
  case (Cons s ss)
  then have "accepted_run check ss" by (cases ss) auto
  with Cons accepted_run_rank [of s ss] show ?case by fastforce
qed simp

end

fun session_rank :: "session_state \<Rightarrow> nat" where
  "session_rank Missing = 7"
| "session_rank Seeded = 6"
| "session_rank Preleased = 5"
| "session_rank Restored = 4"
| "session_rank Validated = 3"
| "session_rank Refreshing = 2"
| "session_rank WritebackPending = 1"
| "session_rank _ = 0"

fun lease_rank :: "lease_state \<Rightarrow> nat" where
  "lease_rank Requested = 4"
| "lease_rank Granted = 3"
| "lease_rank Finalized = 2"
| "lease_rank WritebackStarted = 1"
| "lease_rank _ = 0"

interpretation session_table: ranked_table sessionTransitions assertSessionTransition session_rank
proof
  fix a b
  show "b \<in> set (sessionTransitions a) \<Longrightarrow> session_rank b < session_rank a"
    by (cases a) auto
  show "assertSessionTransition a b = Inr () \<longleftrightarrow> b \<in> set (sessionTransitions a)"
    by (simp add: assertSessionTransition_def)
qed

interpretation lease_table: ranked_table leaseTransitions assertLeaseTransition lease_rank
proof
  fix a b
  show "b \<in> set (leaseTransitions a) \<Longrightarrow> lease_rank b < lease_rank a"
    by (cases a) auto
  show "assertLeaseTransition a b = Inr () \<longleftrightarrow> b \<in> set (leaseTransitions a)"
    by (simp add: assertLeaseTransition_def)
qed

section \<open>Properties\<close>

text \<open>
  A session's life is finite and never returns to a state: an accepted run visits no state
  twice and has at most eight states, and it can only be extended while it is not active, waiting
  for a reconnect or stale.
\<close>

theorem session_runs_end:
  assumes "accepted_run assertSessionTransition (ss @ [s])"
  shows "distinct (ss @ [s]) \<and> length (ss @ [s]) \<le> 8 \<and>
    ((\<exists>s'. accepted_run assertSessionTransition (ss @ [s, s'])) \<longleftrightarrow> s \<notin> {Active, NeedsReconnect, Stale})"
proof -
  have rank: "session_rank a \<le> 7" for a by (cases a) auto
  have "length (ss @ [s]) \<le> 8"
    using session_table.accepted_run_length [of "hd (ss @ [s])" "tl (ss @ [s])"] assms rank [of "hd (ss @ [s])"]
    by (cases ss) auto
  moreover have extend: "accepted_run assertSessionTransition (ss @ [s, s']) \<longleftrightarrow> s' \<in> set (sessionTransitions s)" for s'
    using assms
  proof (induction ss)
    case (Cons a ss)
    then show ?case by (cases ss) auto
  qed (simp add: assertSessionTransition_def)
  moreover have "(\<exists>s'. s' \<in> set (sessionTransitions s)) \<longleftrightarrow> s \<notin> {Active, NeedsReconnect, Stale}"
    by (cases s) auto
  ultimately show ?thesis using session_table.accepted_run_distinct [OF assms] by simp
qed

theorem session_runs_end_witness:
  "\<exists>s'. accepted_run assertSessionTransition [Missing, Seeded, Preleased, Restored, Validated, s']"
  using session_runs_end [of "[Missing, Seeded, Preleased, Restored]" Validated]
  by (simp add: assertSessionTransition_def)

text \<open>
  A writeback is committed along one path only: a lease that was requested and ends committed
  has been granted, then finalized, then has started its writeback, with no other state between.
\<close>

theorem lease_commit_path:
  assumes "accepted_run assertLeaseTransition (Requested # ss)" and "last (Requested # ss) = WritebackCommitted"
  shows "ss = [Granted, Finalized, WritebackStarted, WritebackCommitted]"
proof -
  have step: "accepted_run assertLeaseTransition (a # b # xs) \<longleftrightarrow>
      b \<in> set (leaseTransitions a) \<and> accepted_run assertLeaseTransition (b # xs)" for a b xs
    by (simp add: lease_table.check_iff)
  have "length ss \<le> 4" using lease_table.accepted_run_length [OF assms(1)] by simp
  then consider "ss = []" | a where "ss = [a]" | a b where "ss = [a, b]" | a b c where "ss = [a, b, c]"
    | a b c d where "ss = [a, b, c, d]"
    by (cases ss rule: remdups_adj.cases; cases "tl (tl ss)" rule: remdups_adj.cases; cases "drop 4 ss") auto
  then show ?thesis
    by cases (use assms in \<open>auto simp: step simp del: accepted_run.simps(1)\<close>)
qed

theorem lease_commit_path_witness:
  "[Granted, Finalized, WritebackStarted, WritebackCommitted] \<noteq> [] \<and>
   accepted_run assertLeaseTransition [Requested, Granted, Finalized, WritebackStarted, WritebackCommitted]"
  using lease_commit_path [of "[Granted, Finalized, WritebackStarted, WritebackCommitted]"]
  by (simp add: assertLeaseTransition_def)

end
