(* ===== verification/Child_Lifetime.thy ===== *)
theory Child_Lifetime
  imports Prelude "HOL-Library.List_Lexorder" "HOL-Library.Char_ord"
begin

text \<open>
  The bounded authority of a child agent, \<open>src/core/child-lifetime/domain\<close>: the parser of a
  lifetime contract and of the slot a child is launched in (\<open>child-lifetime.ts\<close>,
  \<open>child-slot.ts\<close>), and the execution budget every transport of one child shares. A parser takes
  a dynamic value. The budget's methods take the two clock readings they would make and return the
  failure they throw, or their result, with the state they leave.
\<close>

section \<open>Parsing a lifetime\<close>

datatype lifetime_parse_error = ChildLifetimeInvalid | ImmutableChildSlotInvalid

record child_lifetime =
  cl_accountId :: string
  cl_deadlineEpochMs :: jsnum
  cl_maxGoalTurns :: jsnum
  cl_allowedTools :: "string list"
  cl_accessBoundary :: string

definition js_get :: "(string \<times> js_value) list \<Rightarrow> string \<Rightarrow> js_value" where
  "js_get es k = (case map_of es k of None \<Rightarrow> JUndefined | Some v \<Rightarrow> v)"

fun join_comma :: "string list \<Rightarrow> string" where
  "join_comma [] = []"
| "join_comma [s] = s"
| "join_comma (s # ss) = s @ '','' @ join_comma ss"

definition sorted_keys :: "(string \<times> js_value) list \<Rightarrow> string" where
  "sorted_keys es = join_comma (sort (map fst es))"

definition ascii_alnum :: "char \<Rightarrow> bool" where
  "ascii_alnum c = ((CHR ''A'' \<le> c \<and> c \<le> CHR ''Z'') \<or> (CHR ''a'' \<le> c \<and> c \<le> CHR ''z'') \<or> (CHR ''0'' \<le> c \<and> c \<le> CHR ''9''))"

text \<open>\<open>/^[A-Za-z0-9][A-Za-z0-9 extra]{0,n}$/\<close>\<close>

definition id_pattern :: "char list \<Rightarrow> nat \<Rightarrow> string \<Rightarrow> bool" where
  "id_pattern extra n s =
     (case s of [] \<Rightarrow> False
      | c # cs \<Rightarrow> ascii_alnum c \<and> list_all (\<lambda>d. ascii_alnum d \<or> d \<in> set extra) cs \<and> length cs \<le> n)"

definition lifetime_keys :: string where
  "lifetime_keys = ''accessBoundary,accountId,allowedTools,continuationMode,deadlineEpochMs,denyProjectInstructions,maxAccountCycles,maxAttempts,maxGoalTurns,schemaVersion''"

definition positive_safe_integer :: "js_value \<Rightarrow> bool" where
  "positive_safe_integer v =
     (case v of JNumber n \<Rightarrow> js_isSafeInteger n \<and> \<not> js_le n (Fin 0) | _ \<Rightarrow> False)"

definition child_tools :: "js_value list" where
  "child_tools = [JString ''read_file'', JString ''search_files'', JString ''edit_file'', JString ''write_file'']"

definition tools_ok :: "js_value \<Rightarrow> js_value \<Rightarrow> bool" where
  "tools_ok boundary tools =
     (case tools of
        JArray ts \<Rightarrow>
          ts \<noteq> [] \<and> length ts \<le> 4 \<and> card (set ts) = length ts \<and>
          \<not> list_ex (\<lambda>t. t \<notin> set child_tools) ts \<and>
          \<not> (boundary = JString ''read_only'' \<and>
              list_ex (\<lambda>t. t = JString ''edit_file'' \<or> t = JString ''write_file'') ts)
      | _ \<Rightarrow> False)"

definition lifetime_ok :: "(string \<times> js_value) list \<Rightarrow> bool" where
  "lifetime_ok v =
     (sorted_keys v = lifetime_keys \<and>
      js_get v ''schemaVersion'' = JNumber (Fin 1) \<and>
      (case js_get v ''accountId'' of JString s \<Rightarrow> id_pattern ''_.-'' 127 s | _ \<Rightarrow> False) \<and>
      positive_safe_integer (js_get v ''deadlineEpochMs'') \<and>
      positive_safe_integer (js_get v ''maxGoalTurns'') \<and>
      js_get v ''maxAccountCycles'' = JNumber (Fin 1) \<and> js_get v ''maxAttempts'' = JNumber (Fin 1) \<and>
      js_get v ''continuationMode'' = JString ''disabled'' \<and>
      js_get v ''denyProjectInstructions'' = JBool True \<and>
      (js_get v ''accessBoundary'' = JString ''read_only'' \<or>
       js_get v ''accessBoundary'' = JString ''isolated_workspace_write'') \<and>
      tools_ok (js_get v ''accessBoundary'') (js_get v ''allowedTools''))"

definition string_of :: "js_value \<Rightarrow> string" where
  "string_of v = (case v of JString s \<Rightarrow> s | _ \<Rightarrow> [])"

definition number_of :: "js_value \<Rightarrow> jsnum" where
  "number_of v = (case v of JNumber n \<Rightarrow> n | _ \<Rightarrow> NaN)"

definition parseChildLifetime :: "js_value \<Rightarrow> lifetime_parse_error + child_lifetime" where
  "parseChildLifetime value =
     (case value of
        JObject v \<Rightarrow>
          if lifetime_ok v
          then Inr \<lparr>cl_accountId = string_of (js_get v ''accountId''),
                    cl_deadlineEpochMs = number_of (js_get v ''deadlineEpochMs''),
                    cl_maxGoalTurns = number_of (js_get v ''maxGoalTurns''),
                    cl_allowedTools = (case js_get v ''allowedTools'' of JArray ts \<Rightarrow> map string_of ts | _ \<Rightarrow> []),
                    cl_accessBoundary = string_of (js_get v ''accessBoundary'')\<rparr>
          else Inl ChildLifetimeInvalid
      | _ \<Rightarrow> Inl ChildLifetimeInvalid)"

section \<open>Parsing a slot\<close>

record child_launch =
  la_command :: string
  la_args :: "string list"
  la_cwd :: string

record child_slot =
  cs_slotId :: string
  cs_creatorId :: string
  cs_jobId :: string
  cs_jobRootDir :: string
  cs_workspacePath :: string
  cs_promptPath :: string
  cs_sourceSha :: string
  cs_artifactSha :: string
  cs_grantSha256 :: string
  cs_launch :: child_launch
  cs_lifetime :: child_lifetime

definition slot_object :: "js_value \<Rightarrow> string \<Rightarrow> lifetime_parse_error + (string \<times> js_value) list" where
  "slot_object v keys =
     (case v of JObject es \<Rightarrow> if sorted_keys es = keys then Inr es else Inl ImmutableChildSlotInvalid
      | _ \<Rightarrow> Inl ImmutableChildSlotInvalid)"

definition slot_id :: "js_value \<Rightarrow> bool" where
  "slot_id v = (case v of JString s \<Rightarrow> id_pattern ''_.:@+-'' 255 s | _ \<Rightarrow> False)"

definition slot_sha :: "js_value \<Rightarrow> nat \<Rightarrow> bool" where
  "slot_sha v n =
     (case v of
        JString s \<Rightarrow> length s = n \<and>
          list_all (\<lambda>c. (CHR ''a'' \<le> c \<and> c \<le> CHR ''f'') \<or> (CHR ''0'' \<le> c \<and> c \<le> CHR ''9'')) s
      | _ \<Rightarrow> False)"

definition path_char :: "char \<Rightarrow> bool" where
  "path_char c = (ascii_alnum c \<or> c \<in> set ''_.@+-'')"

fun split_slash :: "string \<Rightarrow> string list" where
  "split_slash [] = [[]]"
| "split_slash (c # cs) =
     (if c = CHR ''/'' then [] # split_slash cs
      else case split_slash cs of p # ps \<Rightarrow> (c # p) # ps | [] \<Rightarrow> [[c]])"

text \<open>
  \<open>/^\/(?:[A-Za-z0-9_.@+-]+\/)*[A-Za-z0-9_.@+-]+$/\<close>: a leading slash, then one or more non-empty
  runs of path characters separated by single slashes.
\<close>

definition slot_path_string :: "string \<Rightarrow> bool" where
  "slot_path_string s =
     (length s \<le> 4096 \<and>
      (case split_slash s of
         [] # p # ps \<Rightarrow> list_all (\<lambda>q. q \<noteq> [] \<and> list_all path_char q) (p # ps)
       | _ \<Rightarrow> False) \<and>
      \<not> list_ex (\<lambda>q. q = ''.'' \<or> q = ''..'') (split_slash s))"

definition slot_path :: "js_value \<Rightarrow> bool" where
  "slot_path v = (case v of JString s \<Rightarrow> slot_path_string s | _ \<Rightarrow> False)"

definition starts_with :: "string \<Rightarrow> string \<Rightarrow> bool" where
  "starts_with p s = (take (length p) s = p)"

definition ends_with :: "string \<Rightarrow> string \<Rightarrow> bool" where
  "ends_with p s = starts_with (rev p) (rev s)"

definition slot_keys :: string where
  "slot_keys = ''artifactSha,creatorId,grantSha256,jobId,jobRootDir,launch,lifetime,promptPath,schemaVersion,slotId,sourceSha,workspacePath''"

definition slot_fields_ok :: "(string \<times> js_value) list \<Rightarrow> bool" where
  "slot_fields_ok v =
     (js_get v ''schemaVersion'' = JNumber (Fin 1) \<and> slot_id (js_get v ''slotId'') \<and>
      slot_id (js_get v ''creatorId'') \<and> slot_id (js_get v ''jobId'') \<and>
      slot_path (js_get v ''jobRootDir'') \<and> slot_path (js_get v ''workspacePath'') \<and>
      slot_path (js_get v ''promptPath'') \<and>
      js_get v ''workspacePath'' = JString (string_of (js_get v ''jobRootDir'') @ ''/workspace'') \<and>
      ends_with (''/jobs/'' @ string_of (js_get v ''jobId'')) (string_of (js_get v ''jobRootDir'')) \<and>
      slot_sha (js_get v ''sourceSha'') 40 \<and> slot_sha (js_get v ''artifactSha'') 40 \<and>
      slot_sha (js_get v ''grantSha256'') 64)"

definition prompt_inside :: "string \<Rightarrow> string \<Rightarrow> bool" where
  "prompt_inside prompt dir = (prompt = dir \<or> starts_with (dir @ ''/'') prompt)"

definition launch_ok :: "(string \<times> js_value) list \<Rightarrow> bool" where
  "launch_ok l =
     (slot_path (js_get l ''command'') \<and> slot_path (js_get l ''cwd'') \<and>
      (case js_get l ''args'' of
         JArray args \<Rightarrow>
           length args \<le> 256 \<and>
           \<not> list_ex (\<lambda>a. case a of JString s \<Rightarrow> length s > 8192 \<or> CHR 0x00 \<in> set s | _ \<Rightarrow> True) args \<and>
           foldl (\<lambda>n a. n + length (string_of a)) 0 args \<le> 32768
       | _ \<Rightarrow> False))"

definition parseImmutableChildSlot :: "js_value \<Rightarrow> lifetime_parse_error + child_slot" where
  "parseImmutableChildSlot value =
     (case slot_object value slot_keys of
        Inl e \<Rightarrow> Inl e
      | Inr v \<Rightarrow>
        let prompt = string_of (js_get v ''promptPath'') in
        if \<not> slot_fields_ok v then Inl ImmutableChildSlotInvalid
        else if prompt_inside prompt (string_of (js_get v ''jobRootDir'')) \<or>
                prompt_inside prompt (string_of (js_get v ''workspacePath''))
        then Inl ImmutableChildSlotInvalid
        else
          (case slot_object (js_get v ''launch'') ''args,command,cwd'' of
             Inl e \<Rightarrow> Inl e
           | Inr l \<Rightarrow>
               if \<not> launch_ok l then Inl ImmutableChildSlotInvalid
               else
                 (case parseChildLifetime (js_get v ''lifetime'') of
                    Inl e \<Rightarrow> Inl e
                  | Inr lt \<Rightarrow>
                      Inr \<lparr>cs_slotId = string_of (js_get v ''slotId''), cs_creatorId = string_of (js_get v ''creatorId''),
                           cs_jobId = string_of (js_get v ''jobId''), cs_jobRootDir = string_of (js_get v ''jobRootDir''),
                           cs_workspacePath = string_of (js_get v ''workspacePath''), cs_promptPath = prompt,
                           cs_sourceSha = string_of (js_get v ''sourceSha''),
                           cs_artifactSha = string_of (js_get v ''artifactSha''),
                           cs_grantSha256 = string_of (js_get v ''grantSha256''),
                           cs_launch = \<lparr>la_command = string_of (js_get l ''command''),
                             la_args = (case js_get l ''args'' of JArray xs \<Rightarrow> map string_of xs | _ \<Rightarrow> []),
                             la_cwd = string_of (js_get l ''cwd'')\<rparr>,
                           cs_lifetime = lt\<rparr>)))"

section \<open>The execution budget\<close>

datatype child_failure = ChildExpired | ChildClock | ChildTurns | ChildInvocation

record child_budget =
  cb_lifetime :: child_lifetime
  cb_wallStart :: jsnum
  cb_monotonicStart :: jsnum
  cb_lastWall :: jsnum
  cb_lastMonotonic :: jsnum
  cb_invoked :: bool
  cb_providerStarted :: bool
  cb_turns :: nat
  cb_failure :: "child_failure option"

definition budget_new :: "js_value \<Rightarrow> jsnum \<Rightarrow> jsnum \<Rightarrow> lifetime_parse_error + child_budget" where
  "budget_new lifetime wall monotonic =
     (case parseChildLifetime lifetime of
        Inl e \<Rightarrow> Inl e
      | Inr lt \<Rightarrow> Inr \<lparr>cb_lifetime = lt, cb_wallStart = wall, cb_monotonicStart = monotonic, cb_lastWall = wall,
                      cb_lastMonotonic = monotonic, cb_invoked = False, cb_providerStarted = False,
                      cb_turns = 0, cb_failure = None\<rparr>)"

definition budget_deny :: "child_failure \<Rightarrow> child_budget \<Rightarrow> (child_failure + 'a) \<times> child_budget" where
  "budget_deny reason b =
     (let f = (case cb_failure b of None \<Rightarrow> reason | Some g \<Rightarrow> g)
      in (Inl f, b\<lparr>cb_failure := Some f\<rparr>))"

definition remainingMs :: "jsnum \<Rightarrow> jsnum \<Rightarrow> child_budget \<Rightarrow> (child_failure + jsnum) \<times> child_budget" where
  "remainingMs wall monotonic b =
     (case cb_failure b of
        Some f \<Rightarrow> (Inl f, b)
      | None \<Rightarrow>
          if \<not> js_isFinite (cb_wallStart b) \<or> \<not> js_isFinite (cb_monotonicStart b) \<or>
             \<not> js_isFinite wall \<or> \<not> js_isFinite monotonic \<or>
             js_lt wall (cb_lastWall b) \<or> js_lt monotonic (cb_lastMonotonic b)
          then budget_deny ChildClock b
          else
            let b1 = b\<lparr>cb_lastWall := wall, cb_lastMonotonic := monotonic\<rparr>;
                deadline = cl_deadlineEpochMs (cb_lifetime b);
                remaining = js_min (js_sub deadline wall)
                  (js_sub (js_sub deadline (cb_wallStart b)) (js_sub monotonic (cb_monotonicStart b)))
            in if js_le remaining (Fin 0) then budget_deny ChildExpired b1
               else (Inr remaining, b1))"

definition beginInvocation :: "jsnum \<Rightarrow> jsnum \<Rightarrow> child_budget \<Rightarrow> (child_failure + unit) \<times> child_budget" where
  "beginInvocation wall monotonic b =
     (case remainingMs wall monotonic b of
        (Inl f, b1) \<Rightarrow> (Inl f, b1)
      | (Inr _, b1) \<Rightarrow>
          if cb_invoked b1 then budget_deny ChildInvocation b1
          else (Inr (), b1\<lparr>cb_invoked := True\<rparr>))"

definition beforeProviderStart :: "jsnum \<Rightarrow> jsnum \<Rightarrow> child_budget \<Rightarrow> (child_failure + unit) \<times> child_budget" where
  "beforeProviderStart wall monotonic b =
     (case remainingMs wall monotonic b of
        (Inl f, b1) \<Rightarrow> (Inl f, b1)
      | (Inr _, b1) \<Rightarrow>
          if \<not> cb_invoked b1 \<or> cb_providerStarted b1 then budget_deny ChildInvocation b1
          else (Inr (), b1\<lparr>cb_providerStarted := True\<rparr>))"

definition beforeTurnWrite :: "jsnum \<Rightarrow> jsnum \<Rightarrow> child_budget \<Rightarrow> (child_failure + unit) \<times> child_budget" where
  "beforeTurnWrite wall monotonic b =
     (case remainingMs wall monotonic b of
        (Inl f, b1) \<Rightarrow> (Inl f, b1)
      | (Inr _, b1) \<Rightarrow>
          if \<not> cb_invoked b1 \<or> \<not> cb_providerStarted b1 then budget_deny ChildInvocation b1
          else if js_le (cl_maxGoalTurns (cb_lifetime b1)) (jsint (int (cb_turns b1)))
          then budget_deny ChildTurns b1
          else (Inr (), b1\<lparr>cb_turns := cb_turns b1 + 1\<rparr>))"

definition budget_exhaust :: "child_budget \<Rightarrow> (child_failure + unit) \<times> child_budget" where
  "budget_exhaust b = budget_deny ChildTurns b"

datatype child_call = CallRemaining | CallInvoke | CallProvider | CallTurn | CallExhaust

fun budget_call :: "child_call \<Rightarrow> jsnum \<Rightarrow> jsnum \<Rightarrow> child_budget \<Rightarrow> (child_failure + unit) \<times> child_budget" where
  "budget_call CallRemaining wall monotonic b =
     (case remainingMs wall monotonic b of (Inl f, b1) \<Rightarrow> (Inl f, b1) | (Inr _, b1) \<Rightarrow> (Inr (), b1))"
| "budget_call CallInvoke wall monotonic b = beginInvocation wall monotonic b"
| "budget_call CallProvider wall monotonic b = beforeProviderStart wall monotonic b"
| "budget_call CallTurn wall monotonic b = beforeTurnWrite wall monotonic b"
| "budget_call CallExhaust wall monotonic b = budget_exhaust b"

text \<open>A history of calls with the clock readings each made: the answers, and the budget left.\<close>

fun budget_run ::
    "(child_call \<times> jsnum \<times> jsnum) list \<Rightarrow> child_budget \<Rightarrow> (child_failure + unit) list \<times> child_budget" where
  "budget_run [] b = ([], b)"
| "budget_run ((c, wall, monotonic) # cs) b =
     (let (r, b1) = budget_call c wall monotonic b; (rs, b2) = budget_run cs b1 in (r # rs, b2))"

section \<open>What a call can do\<close>

lemma budget_deny_frame [simp]:
  "fst (budget_deny f b) = Inl (case cb_failure b of None \<Rightarrow> f | Some g \<Rightarrow> g)"
  "cb_failure (snd (budget_deny f b)) = Some (case cb_failure b of None \<Rightarrow> f | Some g \<Rightarrow> g)"
  "cb_lifetime (snd (budget_deny f b)) = cb_lifetime b" "cb_invoked (snd (budget_deny f b)) = cb_invoked b"
  "cb_providerStarted (snd (budget_deny f b)) = cb_providerStarted b" "cb_turns (snd (budget_deny f b)) = cb_turns b"
  "cb_wallStart (snd (budget_deny f b)) = cb_wallStart b" "cb_monotonicStart (snd (budget_deny f b)) = cb_monotonicStart b"
  by (simp_all add: budget_deny_def Let_def)

lemma remainingMs_frame:
  assumes "remainingMs w m b = (r, b1)"
  shows "cb_lifetime b1 = cb_lifetime b" "cb_invoked b1 = cb_invoked b" "cb_providerStarted b1 = cb_providerStarted b"
    "cb_turns b1 = cb_turns b" "cb_wallStart b1 = cb_wallStart b" "cb_monotonicStart b1 = cb_monotonicStart b"
  using assms by (auto simp: remainingMs_def Let_def budget_deny_def split: option.splits if_splits)

lemma remainingMs_failure:
  assumes "remainingMs w m b = (r, b1)"
  shows "r = Inl f \<Longrightarrow> cb_failure b1 = Some f" and "r = Inr x \<Longrightarrow> cb_failure b = None \<and> cb_failure b1 = None"
  using assms by (auto simp: remainingMs_def Let_def budget_deny_def split: option.splits if_splits)

lemma remainingMs_Inr:
  assumes "remainingMs w m b = (Inr x, b1)" and "cl_deadlineEpochMs (cb_lifetime b) = Fin d"
  shows "\<exists>wall mo w0 m0. w = Fin wall \<and> m = Fin mo \<and> cb_wallStart b = Fin w0 \<and> cb_monotonicStart b = Fin m0 \<and>
    wall < d \<and> w0 + (mo - m0) < d"
  using assms
  by (cases w; cases m; cases "cb_wallStart b"; cases "cb_monotonicStart b")
     (auto simp: remainingMs_def Let_def budget_deny_def split: option.splits if_splits)

lemmas budget_call_defs = beginInvocation_def beforeProviderStart_def beforeTurnWrite_def budget_exhaust_def

lemma budget_call_frame:
  assumes "budget_call c w m b = (r, b1)"
  shows "cb_lifetime b1 = cb_lifetime b" "cb_invoked b \<Longrightarrow> cb_invoked b1"
    "cb_providerStarted b \<Longrightarrow> cb_providerStarted b1"
    "cb_turns b1 = cb_turns b + (if c = CallTurn \<and> r = Inr () then 1 else 0)"
proof -
  obtain r0 b0 where rem: "remainingMs w m b = (r0, b0)" by fastforce
  note frame = remainingMs_frame [OF rem]
  show "cb_lifetime b1 = cb_lifetime b"
    using assms rem frame(1) by (cases c; cases r0) (auto simp: budget_call_defs budget_deny_def Let_def split: if_splits)
  show "cb_invoked b \<Longrightarrow> cb_invoked b1"
    using assms rem frame(2) by (cases c; cases r0) (auto simp: budget_call_defs budget_deny_def Let_def split: if_splits)
  show "cb_providerStarted b \<Longrightarrow> cb_providerStarted b1"
    using assms rem frame(3) by (cases c; cases r0) (auto simp: budget_call_defs budget_deny_def Let_def split: if_splits)
  show "cb_turns b1 = cb_turns b + (if c = CallTurn \<and> r = Inr () then 1 else 0)"
    using assms rem frame(4) by (cases c; cases r0) (auto simp: budget_call_defs budget_deny_def Let_def split: if_splits)
qed

lemma budget_call_once:
  assumes "budget_call c w m b = (Inr (), b1)"
  shows "c = CallInvoke \<Longrightarrow> \<not> cb_invoked b \<and> cb_invoked b1"
    and "c = CallProvider \<Longrightarrow> cb_invoked b \<and> \<not> cb_providerStarted b \<and> cb_providerStarted b1"
    and "c = CallTurn \<Longrightarrow> cb_invoked b \<and> cb_providerStarted b \<and>
      \<not> js_le (cl_maxGoalTurns (cb_lifetime b)) (jsint (int (cb_turns b)))"
    and "\<exists>x b2. remainingMs w m b = (Inr x, b2)"
proof -
  obtain r0 b0 where rem: "remainingMs w m b = (r0, b0)" by fastforce
  note frame = remainingMs_frame [OF rem]
  show "c = CallInvoke \<Longrightarrow> \<not> cb_invoked b \<and> cb_invoked b1"
    using assms rem frame(2) by (cases r0) (auto simp: budget_call_defs budget_deny_def Let_def split: if_splits)
  show "c = CallProvider \<Longrightarrow> cb_invoked b \<and> \<not> cb_providerStarted b \<and> cb_providerStarted b1"
    using assms rem frame(2,3) by (cases r0) (auto simp: budget_call_defs budget_deny_def Let_def split: if_splits)
  show "c = CallTurn \<Longrightarrow> cb_invoked b \<and> cb_providerStarted b \<and>
      \<not> js_le (cl_maxGoalTurns (cb_lifetime b)) (jsint (int (cb_turns b)))"
    using assms rem frame by (cases r0) (auto simp: budget_call_defs budget_deny_def Let_def split: if_splits)
  show "\<exists>x b2. remainingMs w m b = (Inr x, b2)"
    using assms rem by (cases c; cases r0) (auto simp: budget_call_defs budget_deny_def Let_def)
qed

lemma budget_call_failure:
  assumes "budget_call c w m b = (r, b1)"
  shows "r = Inl f \<Longrightarrow> cb_failure b1 = Some f" and "cb_failure b = Some f \<Longrightarrow> r = Inl f"
proof -
  obtain r0 b0 where rem: "remainingMs w m b = (r0, b0)" by fastforce
  show "r = Inl f \<Longrightarrow> cb_failure b1 = Some f"
    using assms rem remainingMs_failure(1) [OF rem]
    by (cases c; cases r0) (auto simp: budget_call_defs budget_deny_def Let_def split: if_splits)
  show "cb_failure b = Some f \<Longrightarrow> r = Inl f"
    using assms by (cases c) (auto simp: budget_call_defs budget_deny_def remainingMs_def)
qed

lemma budget_run_failed:
  "cb_failure b = Some f \<Longrightarrow> fst (budget_run cs b) = replicate (length cs) (Inl f)"
proof (induction cs arbitrary: b)
  case (Cons x cs)
  obtain c w m where x: "x = (c, w, m)" by (cases x)
  obtain r b1 where call: "budget_call c w m b = (r, b1)" by fastforce
  with budget_call_failure [OF call] Cons.prems have "r = Inl f" "cb_failure b1 = Some f" by auto
  with Cons.IH [of b1] x call show ?case by (simp add: case_prod_beta Let_def)
qed simp

definition successes :: "child_call \<Rightarrow> (child_call \<times> jsnum \<times> jsnum) list \<Rightarrow> (child_failure + unit) list \<Rightarrow> nat" where
  "successes c cs rs = length (filter (\<lambda>(x, r). fst x = c \<and> r = Inr ()) (zip cs rs))"

lemma successes_Cons [simp]:
  "successes c (x # cs) (r # rs) = (if fst x = c \<and> r = Inr () then 1 else 0) + successes c cs rs"
  "successes c [] rs = 0"
  by (simp_all add: successes_def)

lemma budget_run_bounds:
  assumes "budget_run cs b = (rs, b')" and "cl_maxGoalTurns (cb_lifetime b) = jsint mx" and "int (cb_turns b) \<le> mx"
  shows "successes CallInvoke cs rs + (if cb_invoked b then 1 else 0) \<le> 1 \<and>
    successes CallProvider cs rs + (if cb_providerStarted b then 1 else 0) \<le> 1 \<and>
    cb_turns b' = cb_turns b + successes CallTurn cs rs \<and> int (cb_turns b') \<le> mx"
  using assms
proof (induction cs arbitrary: b rs)
  case (Cons x cs)
  obtain c w m where x: "x = (c, w, m)" by (cases x)
  obtain r b1 where call: "budget_call c w m b = (r, b1)" by fastforce
  obtain rs1 where run: "budget_run cs b1 = (rs1, b')" "rs = r # rs1"
    using Cons.prems(1) x call by (auto simp: Let_def split: prod.splits)
  note frame = budget_call_frame(1-3) [OF call] and turns = budget_call_frame(4) [OF call]
  have "int (cb_turns b1) \<le> mx"
    using turns Cons.prems budget_call_once(3) [of c w m b b1] call by (auto split: if_splits)
  from Cons.IH [OF run(1) _ this] frame Cons.prems(2) have
    ih: "successes CallInvoke cs rs1 + (if cb_invoked b1 then 1 else 0) \<le> 1"
      "successes CallProvider cs rs1 + (if cb_providerStarted b1 then 1 else 0) \<le> 1"
      "cb_turns b' = cb_turns b1 + successes CallTurn cs rs1" "int (cb_turns b') \<le> mx" by auto
  with frame turns run(2) x budget_call_once(1,2) [of c w m b b1] call show ?case
    by (auto split: if_splits)
qed simp

section \<open>Properties\<close>

text \<open>
  C36. A child never gets more than its contract grants. Over any history of calls, with any clock
  readings, at most one invocation and one provider start succeed and the turns that succeed are
  the ones counted and never more than the contract's maximum.
\<close>

theorem child_budget_bounds:
  assumes "budget_new v w0 m0 = Inr b" and "cl_maxGoalTurns (cb_lifetime b) = jsint mx" and "0 \<le> mx"
    and "budget_run calls b = (rs, b')"
  shows "successes CallInvoke calls rs \<le> 1 \<and> successes CallProvider calls rs \<le> 1 \<and>
    cb_turns b' = successes CallTurn calls rs \<and> int (successes CallTurn calls rs) \<le> mx"
proof -
  have "\<not> cb_invoked b" "\<not> cb_providerStarted b" "cb_turns b = 0"
    using assms(1) by (auto simp: budget_new_def split: sum.splits)
  with budget_run_bounds [OF assms(4,2)] assms(3) show ?thesis by auto
qed

definition demo_lifetime :: js_value where
  "demo_lifetime = JObject
     [(''schemaVersion'', JNumber (Fin 1)), (''accountId'', JString ''acc-1''), (''deadlineEpochMs'', JNumber (Fin 2000)),
      (''maxGoalTurns'', JNumber (Fin 2)), (''maxAccountCycles'', JNumber (Fin 1)), (''maxAttempts'', JNumber (Fin 1)),
      (''continuationMode'', JString ''disabled''), (''allowedTools'', JArray [JString ''read_file'']),
      (''denyProjectInstructions'', JBool True), (''accessBoundary'', JString ''read_only'')]"

definition demo_child :: child_lifetime where
  "demo_child = \<lparr>cl_accountId = ''acc-1'', cl_deadlineEpochMs = Fin 2000, cl_maxGoalTurns = Fin 2,
     cl_allowedTools = [''read_file''], cl_accessBoundary = ''read_only''\<rparr>"

lemma demo_lifetime_parses: "parseChildLifetime demo_lifetime = Inr demo_child"
  by code_simp

definition demo_budget :: child_budget where
  "demo_budget = \<lparr>cb_lifetime = demo_child, cb_wallStart = Fin 1000, cb_monotonicStart = Fin 10, cb_lastWall = Fin 1000,
     cb_lastMonotonic = Fin 10, cb_invoked = False, cb_providerStarted = False, cb_turns = 0, cb_failure = None\<rparr>"

lemma demo_budget_new: "budget_new demo_lifetime (Fin 1000) (Fin 10) = Inr demo_budget"
  by (simp add: budget_new_def demo_lifetime_parses demo_budget_def)

theorem child_budget_bounds_witness:
  "int (successes CallTurn (replicate 9 (CallTurn, Fin 1100, Fin 20))
      (fst (budget_run (replicate 9 (CallTurn, Fin 1100, Fin 20)) demo_budget))) \<le> 2"
  using child_budget_bounds [OF demo_budget_new, of 2 "replicate 9 (CallTurn, Fin 1100, Fin 20)", OF _ _ prod.collapse [symmetric]]
  by (simp add: demo_budget_def demo_child_def)

text \<open>
  Spent authority does not come back: after a call of the budget has failed, every later call
  fails with the same reason, whatever the clocks say then. And no call succeeds at or after the
  deadline, by the wall clock or by the time elapsed since the budget was made.
\<close>

theorem child_failure_is_final:
  assumes "budget_run (before @ (c, wall, monotonic) # after) b = (rs, b')"
    and "cl_deadlineEpochMs (cb_lifetime b) = Fin d" and "cb_wallStart b = Fin w0" and "cb_monotonicStart b = Fin m0"
  shows "case rs ! length before of
      Inl f \<Rightarrow> drop (length before) rs = replicate (Suc (length after)) (Inl f)
    | Inr _ \<Rightarrow> \<exists>w m. wall = Fin w \<and> monotonic = Fin m \<and> w < d \<and> w0 + (m - m0) < d"
  using assms
proof (induction before arbitrary: b rs)
  case Nil
  obtain r b1 where call: "budget_call c wall monotonic b = (r, b1)" by fastforce
  then have rs: "rs = r # fst (budget_run after b1)" using Nil by (auto simp: Let_def split: prod.splits)
  show ?case
  proof (cases r)
    case (Inl f)
    with budget_call_failure(1) [OF call] budget_run_failed rs show ?thesis by simp
  next
    case (Inr u)
    with call budget_call_once(4) [of c wall monotonic b b1] obtain x b2 where "remainingMs wall monotonic b = (Inr x, b2)"
      by auto
    from remainingMs_Inr [OF this Nil(2)] Nil(3,4) rs Inr show ?thesis by auto
  qed
next
  case (Cons x before)
  obtain c1 w1 m1 where x: "x = (c1, w1, m1)" by (cases x)
  obtain r b1 where call: "budget_call c1 w1 m1 b = (r, b1)" by fastforce
  obtain rs1 where run: "budget_run (before @ (c, wall, monotonic) # after) b1 = (rs1, b')" "rs = r # rs1"
    using Cons.prems(1) x call by (auto simp: Let_def split: prod.splits)
  obtain r0 b0 where rem: "remainingMs w1 m1 b = (r0, b0)" by fastforce
  have "cb_wallStart b1 = cb_wallStart b" "cb_monotonicStart b1 = cb_monotonicStart b"
    using call rem remainingMs_frame(5,6) [OF rem]
    by (cases c1; cases r0; auto simp: budget_call_defs budget_deny_def Let_def split: if_splits)+
  with Cons.IH [OF run(1)] Cons.prems budget_call_frame(1) [OF call] run(2) show ?case
    by (simp split: sum.splits)
qed

theorem child_failure_is_final_witness:
  "\<exists>f. fst (budget_run [(CallTurn, Fin 1100, Fin 20), (CallInvoke, Fin 1101, Fin 21), (CallInvoke, Fin 1102, Fin 22)]
      demo_budget) = [Inl f, Inl f, Inl f]"
proof -
  let ?rs = "fst (budget_run [(CallTurn, Fin 1100, Fin 20), (CallInvoke, Fin 1101, Fin 21), (CallInvoke, Fin 1102, Fin 22)] demo_budget)"
  have "?rs ! 0 = Inl ChildInvocation"
    by (simp add: beforeTurnWrite_def remainingMs_def budget_deny_def demo_budget_def demo_child_def Let_def split: prod.split)
  with child_failure_is_final [of "[]" CallTurn "Fin 1100" "Fin 20"
      "[(CallInvoke, Fin 1101, Fin 21), (CallInvoke, Fin 1102, Fin 22)]" demo_budget, OF _ , of ?rs _ 2000 1000 10]
  show ?thesis by (auto simp: demo_budget_def demo_child_def numeral_2_eq_2 prod_eq_iff)
qed

section \<open>Where a child's prompt lies\<close>

lemma split_slash_not_Nil [simp]: "split_slash s \<noteq> []"
  by (induction s rule: split_slash.induct) (auto split: list.splits)

lemma split_slash_append:
  "split_slash (a @ CHR ''/'' # b) = split_slash a @ split_slash b"
proof (induction a)
  case (Cons c a)
  then show ?case by (cases "split_slash a") auto
qed simp

text \<open>The inverse of the split, and what it says of a path that begins with all parts of another.\<close>

fun join_slash :: "string list \<Rightarrow> string" where
  "join_slash [] = []"
| "join_slash [p] = p"
| "join_slash (p # ps) = p @ CHR ''/'' # join_slash ps"

lemma join_split: "join_slash (split_slash s) = s"
proof (induction s rule: split_slash.induct)
  case (2 c cs)
  obtain p ps where "split_slash cs = p # ps" by (cases "split_slash cs") auto
  with 2 show ?case by (cases ps) auto
qed simp

lemma join_slash_append:
  "ps \<noteq> [] \<Longrightarrow> qs \<noteq> [] \<Longrightarrow> join_slash (ps @ qs) = join_slash ps @ CHR ''/'' # join_slash qs"
proof (induction ps)
  case (Cons p ps)
  then show ?case by (cases ps; cases qs) auto
qed simp

lemma prompt_inside_iff: "prompt_inside p dir \<longleftrightarrow> (\<exists>rest. split_slash p = split_slash dir @ rest)"
proof
  assume "prompt_inside p dir"
  then consider "p = dir" | rest where "p = dir @ CHR ''/'' # rest"
    by (auto simp: prompt_inside_def starts_with_def) (metis append_Cons append_assoc append_take_drop_id self_append_conv2)
  then show "\<exists>rest. split_slash p = split_slash dir @ rest"
    by cases (auto simp: split_slash_append)
next
  assume "\<exists>rest. split_slash p = split_slash dir @ rest"
  then obtain rest where rest: "split_slash p = split_slash dir @ rest" by blast
  show "prompt_inside p dir"
  proof (cases "rest = []")
    case True
    with rest have "p = dir" using join_split by (metis append_Nil2)
    then show ?thesis by (simp add: prompt_inside_def)
  next
    case False
    have "p = join_slash (split_slash dir @ rest)" using join_split [of p] rest by simp
    also have "\<dots> = dir @ CHR ''/'' # join_slash rest"
      using False by (simp add: join_slash_append join_split)
    finally show ?thesis by (simp add: prompt_inside_def starts_with_def)
  qed
qed

text \<open>
  C37. The prompt a child is given lies outside everything the child may write: in a parsed slot
  the workspace is the directory \<open>workspace\<close> of the job's root, no path has an empty, \<open>.\<close> or
  \<open>..\<close> part, and the parts of the prompt's path do not begin with the parts of the job's root.
\<close>

theorem slot_prompt_outside_job:
  assumes "parseImmutableChildSlot v = Inr s"
  shows "split_slash (cs_workspacePath s) = split_slash (cs_jobRootDir s) @ [''workspace''] \<and>
    (\<forall>rest. split_slash (cs_promptPath s) \<noteq> split_slash (cs_jobRootDir s) @ rest) \<and>
    list_all (\<lambda>p. p \<notin> {[], ''.'', ''..''}) (tl (split_slash (cs_jobRootDir s))) \<and>
    list_all (\<lambda>p. p \<notin> {[], ''.'', ''..''}) (tl (split_slash (cs_promptPath s)))"
proof -
  from assms obtain es where es: "slot_fields_ok es"
    "\<not> prompt_inside (string_of (js_get es ''promptPath'')) (string_of (js_get es ''jobRootDir''))"
    "cs_workspacePath s = string_of (js_get es ''workspacePath'')" "cs_jobRootDir s = string_of (js_get es ''jobRootDir'')"
    "cs_promptPath s = string_of (js_get es ''promptPath'')"
    by (auto simp: parseImmutableChildSlot_def Let_def split: sum.splits if_splits)
  have workspace: "cs_workspacePath s = cs_jobRootDir s @ CHR ''/'' # ''workspace''"
    using es by (simp add: slot_fields_ok_def string_of_def)
  have parts: "list_all (\<lambda>p. p \<notin> {[], ''.'', ''..''}) (tl (split_slash p))" if "slot_path_string p" for p
    using that by (auto simp: slot_path_string_def list_all_iff list_ex_iff split: list.splits)
  have "slot_path_string (cs_jobRootDir s)" "slot_path_string (cs_promptPath s)"
    using es by (auto simp: slot_fields_ok_def slot_path_def string_of_def split: js_value.splits)
  note paths = this [THEN parts]
  have "split_slash (cs_workspacePath s) = split_slash (cs_jobRootDir s) @ [''workspace'']"
    unfolding workspace split_slash_append by simp
  moreover have "\<forall>rest. split_slash (cs_promptPath s) \<noteq> split_slash (cs_jobRootDir s) @ rest"
    using es(2,4,5) prompt_inside_iff by metis
  ultimately show ?thesis using paths by blast
qed

definition demo_sha :: "nat \<Rightarrow> js_value" where
  "demo_sha n = JString (replicate n (CHR ''a''))"

definition demo_slot :: js_value where
  "demo_slot = JObject
     [(''schemaVersion'', JNumber (Fin 1)), (''slotId'', JString ''s1''), (''creatorId'', JString ''c1''), (''jobId'', JString ''j1''),
      (''jobRootDir'', JString ''/srv/jobs/j1''), (''workspacePath'', JString ''/srv/jobs/j1/workspace''),
      (''promptPath'', JString ''/srv/prompts/j1''), (''sourceSha'', demo_sha 40), (''artifactSha'', demo_sha 40),
      (''grantSha256'', demo_sha 64),
      (''launch'', JObject [(''command'', JString ''/bin/node''), (''args'', JArray [JString ''a.js'']), (''cwd'', JString ''/srv'')]),
      (''lifetime'', demo_lifetime)]"

lemma demo_slot_parses:
  "(case parseImmutableChildSlot demo_slot of Inl e \<Rightarrow> False | Inr s \<Rightarrow> cs_promptPath s = ''/srv/prompts/j1'' \<and>
     cs_jobRootDir s = ''/srv/jobs/j1'')"
  by code_simp

theorem slot_prompt_outside_job_witness:
  "\<exists>s. parseImmutableChildSlot demo_slot = Inr s \<and> cs_jobRootDir s = ''/srv/jobs/j1'' \<and>
     (\<forall>rest. split_slash (cs_promptPath s) \<noteq> split_slash (cs_jobRootDir s) @ rest)"
proof (cases "parseImmutableChildSlot demo_slot")
  case (Inr s)
  with slot_prompt_outside_job [OF Inr] demo_slot_parses show ?thesis by auto
qed (use demo_slot_parses in simp)

end
