(* ===== verification/Capacity.thy ===== *)
theory Capacity
  imports Prelude
begin

text \<open>
  The capacity of a worker's account: the snapshot type of \<open>src/worker-core/types.ts\<close> and the
  domain functions of \<open>src/worker-core/account-capacity/domain\<close>
  (\<open>worker-account-capacity.ts\<close>, \<open>worker-capacity-recovery-policy.ts\<close>). A details object is a
  partial map from keys to strings, and a spread of two is the map override. The one-task recovery
  passage a snapshot may carry is modelled where it is used, not as a field.
\<close>

section \<open>Definitions\<close>

datatype availability = Available | Busy | Warming | Cooldown | QuotaExhausted | Degraded | Disabled

type_synonym details = "string \<rightharpoonup> string"

record capacity =
  ca_availability :: availability
  ca_reason :: "string option"
  ca_cooldownUntil :: "date option"
  ca_recentRuns :: "jsnum option"
  ca_softLimitRemainingRuns :: "jsnum option"
  ca_lastLimitSignalAt :: "date option"
  ca_details :: "details option"

record runtime_demand =
  dm_provider :: string
  dm_model :: "string option"
  dm_reasoningEffort :: "string option"
  dm_serviceTier :: "string option"

datatype signal_scope = AccountWide | DemandAware

record limit_signal =
  ls_accountId :: string
  ls_scope :: "signal_scope option"
  ls_demand :: "runtime_demand option"
  ls_capacity :: capacity
  ls_observedAt :: date
  ls_sourceWorkerId :: "string option"
  ls_retainExpiredForRecheck :: bool

definition session_invalid :: string where
  "session_invalid = ''provider_session_invalid''"

definition defaultWorkerAccountLimitReasons :: "string list" where
  "defaultWorkerAccountLimitReasons =
     [''rate_limit_threshold'', ''quota_limited'', ''account_exhausted'', session_invalid]"

text \<open>\<open>details?.key\<close>\<close>

definition detail :: "details option \<Rightarrow> string \<Rightarrow> string option" where
  "detail d k = Option.bind d (\<lambda>m. m k)"

definition or_empty :: "details option \<Rightarrow> details" where
  "or_empty d = (case d of None \<Rightarrow> Map.empty | Some m \<Rightarrow> m)"

definition normalizeWorkerAccountId :: "string option \<Rightarrow> string option" where
  "normalizeWorkerAccountId v = trimmed v"

definition defaultAccountIdFromCapacityDetails :: "details option \<Rightarrow> string option" where
  "defaultAccountIdFromCapacityDetails d =
     normalizeWorkerAccountId
       (nullish (detail d ''accountId'') (nullish (detail d ''quotaGroup'') (detail d ''subscriptionAccountId'')))"

definition normalizeWorkerRuntimeDemand :: "runtime_demand option \<Rightarrow> runtime_demand option" where
  "normalizeWorkerRuntimeDemand v =
     (case v of
        None \<Rightarrow> None
      | Some d \<Rightarrow>
          (case trimmed (Some (dm_provider d)) of
             None \<Rightarrow> None
           | Some provider \<Rightarrow>
               Some \<lparr>dm_provider = provider, dm_model = trimmed (dm_model d),
                     dm_reasoningEffort = trimmed (dm_reasoningEffort d),
                     dm_serviceTier = trimmed (dm_serviceTier d)\<rparr>))"

definition defaultRuntimeDemandFromCapacityDetails :: "details option \<Rightarrow> runtime_demand option" where
  "defaultRuntimeDemandFromCapacityDetails d =
     normalizeWorkerRuntimeDemand (Some
       \<lparr>dm_provider = (case nullish (detail d ''capacityProvider'') (detail d ''provider'') of None \<Rightarrow> [] | Some p \<Rightarrow> p),
        dm_model = truthy (nullish (detail d ''capacityModel'') (detail d ''model'')),
        dm_reasoningEffort = truthy (nullish (detail d ''capacityReasoningEffort'') (detail d ''reasoningEffort'')),
        dm_serviceTier = truthy (nullish (detail d ''capacityServiceTier'') (detail d ''serviceTier''))\<rparr>)"

definition or_blank :: "string option \<Rightarrow> string" where
  "or_blank v = (case v of None \<Rightarrow> [] | Some s \<Rightarrow> s)"

definition unit_separator :: char where
  "unit_separator = CHR 0x1F"

definition workerRuntimeDemandKey :: "runtime_demand option \<Rightarrow> string option" where
  "workerRuntimeDemandKey v =
     map_option (\<lambda>d.
         ''provider='' @ dm_provider d @ unit_separator #
         ''model='' @ or_blank (dm_model d) @ unit_separator #
         ''reasoningEffort='' @ or_blank (dm_reasoningEffort d) @ unit_separator #
         ''serviceTier='' @ or_blank (dm_serviceTier d))
       (normalizeWorkerRuntimeDemand v)"

definition isPersistableWorkerAccountCapacity :: "capacity \<Rightarrow> bool" where
  "isPersistableWorkerAccountCapacity c =
     (ca_availability c = Cooldown \<or> ca_availability c = QuotaExhausted \<or>
      (ca_availability c = Disabled \<and> ca_reason c = Some session_invalid))"

definition runtimeDemandDetails :: "runtime_demand option \<Rightarrow> details" where
  "runtimeDemandDetails v =
     (case v of
        None \<Rightarrow> Map.empty
      | Some d \<Rightarrow>
          [''capacityProvider'' \<mapsto> dm_provider d] ++
          (case truthy (dm_model d) of None \<Rightarrow> Map.empty | Some m \<Rightarrow> [''capacityModel'' \<mapsto> m]) ++
          (case truthy (dm_reasoningEffort d) of None \<Rightarrow> Map.empty | Some m \<Rightarrow> [''capacityReasoningEffort'' \<mapsto> m]) ++
          (case truthy (dm_serviceTier d) of None \<Rightarrow> Map.empty | Some m \<Rightarrow> [''capacityServiceTier'' \<mapsto> m]))"

definition signal_demand :: "limit_signal \<Rightarrow> details option \<Rightarrow> runtime_demand option" where
  "signal_demand s d =
     (if ls_scope s = Some AccountWide then None
      else nullish (normalizeWorkerRuntimeDemand (ls_demand s)) (defaultRuntimeDemandFromCapacityDetails d))"

definition normalizeWorkerAccountCapacitySignal :: "limit_signal \<Rightarrow> capacity option" where
  "normalizeWorkerAccountCapacitySignal s =
     (case normalizeWorkerAccountId (Some (ls_accountId s)) of
        None \<Rightarrow> None
      | Some accountId \<Rightarrow>
        let input = ls_capacity s;
            c = (if ca_reason input = Some session_invalid
                 then input\<lparr>ca_cooldownUntil := None, ca_availability := Disabled\<rparr> else input)
        in if \<not> isPersistableWorkerAccountCapacity c then None
           else if \<not> ls_retainExpiredForRecheck s \<and>
                   (case ca_cooldownUntil c of None \<Rightarrow> False | Some u \<Rightarrow> js_le (getTime u) (getTime (ls_observedAt s)))
           then None
           else Some
             \<lparr>ca_availability = ca_availability c, ca_reason = truthy (ca_reason c),
              ca_cooldownUntil = ca_cooldownUntil c, ca_recentRuns = None, ca_softLimitRemainingRuns = None,
              ca_lastLimitSignalAt = Some (ls_observedAt s),
              ca_details = Some (or_empty (ca_details c) ++ [''accountId'' \<mapsto> accountId] ++
                runtimeDemandDetails (signal_demand s (ca_details c)) ++
                (case truthy (ls_sourceWorkerId s) of None \<Rightarrow> Map.empty | Some w \<Rightarrow> [''sourceWorkerId'' \<mapsto> w]))\<rparr>)"

fun severity_of :: "availability \<Rightarrow> nat" where
  "severity_of Disabled = 70"
| "severity_of QuotaExhausted = 60"
| "severity_of Cooldown = 50"
| "severity_of Degraded = 40"
| "severity_of Warming = 30"
| "severity_of Busy = 20"
| "severity_of Available = 10"

definition severity :: "capacity \<Rightarrow> nat" where
  "severity c = severity_of (ca_availability c)"

definition shouldKeepExistingWorkerAccountCapacity :: "capacity \<Rightarrow> capacity \<Rightarrow> bool" where
  "shouldKeepExistingWorkerAccountCapacity existing next =
     (if severity existing > severity next then True
      else if severity existing < severity next then False
      else case (ca_cooldownUntil next, ca_cooldownUntil existing) of
             (None, _) \<Rightarrow> True
           | (Some n, None) \<Rightarrow> False
           | (Some n, Some e) \<Rightarrow> js_le (getTime n) (getTime e))"

definition isWorkerAccountLimitCapacity :: "capacity \<Rightarrow> string list \<Rightarrow> bool" where
  "isWorkerAccountLimitCapacity c limitReasons =
     (if \<not> isPersistableWorkerAccountCapacity c then False
      else case truthy (ca_reason c) of None \<Rightarrow> True | Some r \<Rightarrow> r \<in> set limitReasons)"

definition isPersistableWorkerAccountAvailability :: "availability \<Rightarrow> bool" where
  "isPersistableWorkerAccountAvailability a = (a = Cooldown \<or> a = QuotaExhausted \<or> a = Disabled)"

definition account_with_worker_details :: "capacity \<Rightarrow> capacity \<Rightarrow> capacity" where
  "account_with_worker_details account worker =
     account\<lparr>ca_details := Some (or_empty (ca_details account) ++ or_empty (ca_details worker))\<rparr>"

definition mergeWorkerAndAccountCapacity :: "capacity \<Rightarrow> capacity \<Rightarrow> capacity" where
  "mergeWorkerAndAccountCapacity worker account =
     (if ca_availability worker = Available then account_with_worker_details account worker
      else if severity account > severity worker then account_with_worker_details account worker
      else if severity account = severity worker \<and>
              (case (ca_cooldownUntil worker, ca_cooldownUntil account) of
                 (Some w, Some a) \<Rightarrow> js_lt (getTime w) (getTime a) | _ \<Rightarrow> False)
      then account_with_worker_details account worker
      else worker)"

definition withAccountDetails :: "capacity \<Rightarrow> string \<Rightarrow> capacity" where
  "withAccountDetails c accountId = c\<lparr>ca_details := Some (or_empty (ca_details c) ++ [''accountId'' \<mapsto> accountId])\<rparr>"

subsection \<open>Recovery\<close>

record recovery_snapshot =
  rs_busy :: bool
  rs_capacity :: capacity

datatype recovery_decision = Defer | Unavailable details

definition authBlockedWorkerCapacityRecoveryHint :: string where
  "authBlockedWorkerCapacityRecoveryHint = ''One or more worker account slots look auth-stale. Run account diagnostics, relogin the affected slot or sync the per-account auth root to this host, then retry the worker.''"

definition isResettableWorkerCapacity :: "capacity \<Rightarrow> bool" where
  "isResettableWorkerCapacity c =
     (if ca_reason c = Some session_invalid then False
      else ca_availability c = Cooldown \<or> ca_availability c = QuotaExhausted)"

definition workerCapacityRecoveryAt :: "capacity \<Rightarrow> date option" where
  "workerCapacityRecoveryAt c = (if isResettableWorkerCapacity c then ca_cooldownUntil c else None)"

definition nextWorkerCapacityRecoveryAt :: "recovery_snapshot list \<Rightarrow> jsnum option" where
  "nextWorkerCapacityRecoveryAt ss =
     foldl (\<lambda>nextAt s. case workerCapacityRecoveryAt (rs_capacity s) of
         None \<Rightarrow> nextAt
       | Some d \<Rightarrow> (case nextAt of None \<Rightarrow> Some (getTime d) | Some n \<Rightarrow> Some (js_min n (getTime d)))) None ss"

definition normalizeWorkerCapacitySnapshot :: "capacity \<Rightarrow> date \<Rightarrow> capacity" where
  "normalizeWorkerCapacitySnapshot c now =
     (case ca_cooldownUntil c of
        None \<Rightarrow> c
      | Some u \<Rightarrow>
          if \<not> isResettableWorkerCapacity c \<or> js_lt (getTime now) (getTime u) then c
          else c\<lparr>ca_cooldownUntil := None, ca_lastLimitSignalAt := None, ca_reason := None,
                 ca_availability := Available\<rparr>)"

definition isAuthBlockedWorkerCapacity :: "capacity \<Rightarrow> bool" where
  "isAuthBlockedWorkerCapacity c =
     (ca_reason c = Some ''auth_invalid'' \<or> ca_reason c = Some ''auth_missing'' \<or>
      ca_reason c = Some ''account_unavailable'' \<or> ca_reason c = Some session_invalid \<or>
      ca_reason c = Some ''reconnect_required'' \<or>
      detail (ca_details c) ''code'' = Some ''auth_invalid'' \<or>
      detail (ca_details c) ''code'' = Some session_invalid)"

fun availability_name :: "availability \<Rightarrow> string" where
  "availability_name Available = ''available''"
| "availability_name Busy = ''busy''"
| "availability_name Warming = ''warming''"
| "availability_name Cooldown = ''cooldown''"
| "availability_name QuotaExhausted = ''quota_exhausted''"
| "availability_name Degraded = ''degraded''"
| "availability_name Disabled = ''disabled''"

text \<open>
  A count per name, in order of first occurrence, as the source's map keeps it; then the entries
  sorted by \<open>localeCompare\<close>, which is a parameter \<open>le\<close>, and printed.
\<close>

definition count_name :: "string \<Rightarrow> (string \<times> nat) list \<Rightarrow> (string \<times> nat) list" where
  "count_name n counts = AList.update n ((case map_of counts n of None \<Rightarrow> 0 | Some k \<Rightarrow> k) + 1) counts"

fun insort_by :: "(string \<Rightarrow> string \<Rightarrow> bool) \<Rightarrow> string \<times> nat \<Rightarrow> (string \<times> nat) list \<Rightarrow> (string \<times> nat) list" where
  "insort_by le x [] = [x]"
| "insort_by le x (y # ys) = (if le (fst x) (fst y) then x # y # ys else y # insort_by le x ys)"

definition sort_by :: "(string \<Rightarrow> string \<Rightarrow> bool) \<Rightarrow> (string \<times> nat) list \<Rightarrow> (string \<times> nat) list" where
  "sort_by le xs = foldr (insort_by le) xs []"

fun join_counts :: "(string \<times> nat) list \<Rightarrow> string" where
  "join_counts [] = []"
| "join_counts [(n, k)] = n @ '':'' @ nat_digits k"
| "join_counts ((n, k) # xs) = n @ '':'' @ nat_digits k @ '','' @ join_counts xs"

definition summarizeAvailability :: "(string \<Rightarrow> string \<Rightarrow> bool) \<Rightarrow> recovery_snapshot list \<Rightarrow> string" where
  "summarizeAvailability le ss =
     join_counts (sort_by le (fold (\<lambda>s. count_name (availability_name (ca_availability (rs_capacity s)))) ss []))"

definition summarizeReasons :: "(string \<Rightarrow> string \<Rightarrow> bool) \<Rightarrow> recovery_snapshot list \<Rightarrow> string" where
  "summarizeReasons le ss =
     join_counts (sort_by le (fold (\<lambda>s counts.
       case truthy (nullish (ca_reason (rs_capacity s)) (detail (ca_details (rs_capacity s)) ''code'')) of
         None \<Rightarrow> counts | Some r \<Rightarrow> count_name r counts) ss []))"

definition capacityRecoveryDetails :: "(string \<Rightarrow> string \<Rightarrow> bool) \<Rightarrow> recovery_snapshot list \<Rightarrow> details" where
  "capacityRecoveryDetails le ss =
     (let reasons = summarizeReasons le ss in
      (if reasons \<noteq> [] then [''reasons'' \<mapsto> reasons] else Map.empty) ++
      (if list_ex (\<lambda>s. isAuthBlockedWorkerCapacity (rs_capacity s)) ss
       then [''recoveryHint'' \<mapsto> authBlockedWorkerCapacityRecoveryHint] else Map.empty))"

definition workerCapacityUnavailableDetails ::
    "(string \<Rightarrow> string \<Rightarrow> bool) \<Rightarrow> recovery_snapshot list \<Rightarrow> details option" where
  "workerCapacityUnavailableDetails le ss =
     (if list_ex rs_busy ss then None
      else if list_ex (\<lambda>s. workerCapacityRecoveryAt (rs_capacity s) \<noteq> None) ss then None
      else
        let unavailable = filter (\<lambda>s. ca_availability (rs_capacity s) \<noteq> Available) ss in
        if unavailable = [] then None
        else Some ([''availability'' \<mapsto> summarizeAvailability le unavailable] ++ capacityRecoveryDetails le unavailable))"

definition assessWorkerCapacityRecovery ::
    "(string \<Rightarrow> string \<Rightarrow> bool) \<Rightarrow> recovery_snapshot list \<Rightarrow> recovery_decision" where
  "assessWorkerCapacityRecovery le ss =
     (case workerCapacityUnavailableDetails le ss of None \<Rightarrow> Defer | Some d \<Rightarrow> Unavailable d)"

section \<open>Demands and their keys\<close>

lemma trimmed_trim: "trimmed (Some s) = Some t \<Longrightarrow> trimmed (Some t) = Some t \<and> t \<noteq> []"
  by (auto simp: trimmed_def split: if_splits)

lemma normalize_demand_idem [simp]:
  "normalizeWorkerRuntimeDemand (normalizeWorkerRuntimeDemand v) = normalizeWorkerRuntimeDemand v"
  by (auto simp: normalizeWorkerRuntimeDemand_def dest: trimmed_trim split: option.splits)

lemma demand_key_normalized [simp]:
  "workerRuntimeDemandKey (normalizeWorkerRuntimeDemand v) = workerRuntimeDemandKey v"
  by (simp add: workerRuntimeDemandKey_def)

text \<open>No field of the demand holds the separator the key is joined with.\<close>

definition separator_free :: "runtime_demand \<Rightarrow> bool" where
  "separator_free d \<longleftrightarrow> unit_separator \<notin> set (dm_provider d) \<and> unit_separator \<notin> set (or_blank (dm_model d)) \<and>
     unit_separator \<notin> set (or_blank (dm_reasoningEffort d))"

lemma append_separator_inject:
  "c \<notin> set a \<Longrightarrow> c \<notin> set a' \<Longrightarrow> a @ c # b = a' @ c # b' \<longleftrightarrow> a = a' \<and> b = b'"
proof (induction a arbitrary: a')
  case Nil
  then show ?case by (cases a') auto
next
  case (Cons x a)
  then show ?case by (cases a') auto
qed

lemma js_trim_subset: "set (js_trim s) \<subseteq> set s"
  unfolding js_trim_def set_rev
  using set_dropWhileD by (metis set_rev subset_iff)

lemma trimmed_subset: "set (or_blank (trimmed v)) \<subseteq> set (or_blank v)"
  using js_trim_subset by (auto simp: trimmed_def or_blank_def split: option.splits)

lemma separator_free_normalized:
  assumes "normalizeWorkerRuntimeDemand (Some d) = Some n" and "separator_free d"
  shows "separator_free n"
proof -
  have "dm_provider n = js_trim (dm_provider d)" "dm_model n = trimmed (dm_model d)"
    "dm_reasoningEffort n = trimmed (dm_reasoningEffort d)"
    using assms(1) by (auto simp: normalizeWorkerRuntimeDemand_def trimmed_def split: option.splits if_splits)
  then show ?thesis
    using assms(2) js_trim_subset [of "dm_provider d"] trimmed_subset [of "dm_model d"]
      trimmed_subset [of "dm_reasoningEffort d"]
    by (auto simp: separator_free_def)
qed

lemma or_blank_trimmed_inject: "or_blank (trimmed a) = or_blank (trimmed b) \<longleftrightarrow> trimmed a = trimmed b"
  by (auto simp: or_blank_def trimmed_def split: option.splits if_splits)

lemma normalized_parts:
  "normalizeWorkerRuntimeDemand v = Some n \<Longrightarrow>
    dm_model n = trimmed (dm_model n) \<and> dm_reasoningEffort n = trimmed (dm_reasoningEffort n) \<and>
    dm_serviceTier n = trimmed (dm_serviceTier n)"
  by (auto simp: normalizeWorkerRuntimeDemand_def split: option.splits)

lemma demand_key_inject:
  assumes "normalizeWorkerRuntimeDemand u = Some m" and "normalizeWorkerRuntimeDemand v = Some n"
    and "separator_free m" and "separator_free n"
  shows "workerRuntimeDemandKey u = workerRuntimeDemandKey v \<longleftrightarrow> m = n"
proof -
  note sep = append_separator_inject [of unit_separator]
  have "workerRuntimeDemandKey u = workerRuntimeDemandKey v \<longleftrightarrow>
      dm_provider m = dm_provider n \<and> or_blank (dm_model m) = or_blank (dm_model n) \<and>
      or_blank (dm_reasoningEffort m) = or_blank (dm_reasoningEffort n) \<and>
      or_blank (dm_serviceTier m) = or_blank (dm_serviceTier n)"
    using assms by (simp add: workerRuntimeDemandKey_def separator_free_def sep)
  also have "\<dots> \<longleftrightarrow> m = n"
    using normalized_parts [OF assms(1)] normalized_parts [OF assms(2)]
      or_blank_trimmed_inject [of "dm_model m" "dm_model n"]
      or_blank_trimmed_inject [of "dm_reasoningEffort m" "dm_reasoningEffort n"]
      or_blank_trimmed_inject [of "dm_serviceTier m" "dm_serviceTier n"]
    by (metis runtime_demand.equality old.unit.exhaust)
  finally show ?thesis .
qed

section \<open>The order of capacities\<close>

text \<open>
  A total preorder on capacities: by severity, and among equals an unknown reset is below every
  known one and a later reset above an earlier one.
\<close>

definition reset_le :: "date option \<Rightarrow> date option \<Rightarrow> bool" where
  "reset_le a b = (case (a, b) of (None, _) \<Rightarrow> True | (Some x, None) \<Rightarrow> False | (Some x, Some y) \<Rightarrow> date_le x y)"

definition capacity_le :: "capacity \<Rightarrow> capacity \<Rightarrow> bool" where
  "capacity_le a b \<longleftrightarrow> severity a < severity b \<or>
     (severity a = severity b \<and> reset_le (ca_cooldownUntil a) (ca_cooldownUntil b))"

definition dates_ok :: "capacity \<Rightarrow> bool" where
  "dates_ok c \<longleftrightarrow> (\<forall>u. ca_cooldownUntil c = Some u \<longrightarrow> valid_date u)"

lemma keep_iff_le: "shouldKeepExistingWorkerAccountCapacity existing next \<longleftrightarrow> capacity_le next existing"
  by (auto simp: shouldKeepExistingWorkerAccountCapacity_def capacity_le_def reset_le_def date_le_getTime
      split: option.splits)

lemma reset_le_trans: "reset_le a b \<Longrightarrow> reset_le b c \<Longrightarrow> reset_le a c"
  using date_le_trans by (auto simp: reset_le_def split: option.splits)

lemma capacity_le_trans: "capacity_le a b \<Longrightarrow> capacity_le b c \<Longrightarrow> capacity_le a c"
  using reset_le_trans by (auto simp: capacity_le_def)

lemma reset_le_total:
  "\<forall>u. a = Some u \<longrightarrow> valid_date u \<Longrightarrow> \<forall>u. b = Some u \<longrightarrow> valid_date u \<Longrightarrow> reset_le a b \<or> reset_le b a"
  using date_le_total by (auto simp: reset_le_def split: option.splits)

lemma capacity_le_total: "dates_ok a \<Longrightarrow> dates_ok b \<Longrightarrow> capacity_le a b \<or> capacity_le b a"
  using reset_le_total [of "ca_cooldownUntil a" "ca_cooldownUntil b"] by (auto simp: capacity_le_def dates_ok_def)

lemma capacity_le_refl: "dates_ok a \<Longrightarrow> capacity_le a a"
  using capacity_le_total by blast

lemma severity_ge_10 [simp]: "10 \<le> severity c"
  unfolding severity_def by (cases "ca_availability c") auto

lemma severity_10: "severity c = 10 \<longleftrightarrow> ca_availability c = Available"
  unfolding severity_def by (cases "ca_availability c") auto

lemma severity_details [simp]: "severity (account_with_worker_details a w) = severity a"
  by (simp add: severity_def account_with_worker_details_def)

section \<open>Properties\<close>

text \<open>
  The key of a demand identifies it: two demands whose fields hold no unit separator have the
  same key exactly when they normalise to the same demand.
\<close>

theorem demand_key_identifies:
  assumes "separator_free a" and "separator_free b"
  shows "workerRuntimeDemandKey (Some a) = workerRuntimeDemandKey (Some b) \<longleftrightarrow>
    normalizeWorkerRuntimeDemand (Some a) = normalizeWorkerRuntimeDemand (Some b)"
proof (cases "normalizeWorkerRuntimeDemand (Some a)"; cases "normalizeWorkerRuntimeDemand (Some b)")
  fix m n
  assume *: "normalizeWorkerRuntimeDemand (Some a) = Some m" "normalizeWorkerRuntimeDemand (Some b) = Some n"
  with demand_key_inject [OF *] separator_free_normalized assms show ?thesis by simp
qed (simp_all add: workerRuntimeDemandKey_def)

theorem demand_key_identifies_witness:
  "workerRuntimeDemandKey (Some \<lparr>dm_provider = '' codex'', dm_model = Some ''m'', dm_reasoningEffort = None, dm_serviceTier = None\<rparr>) =
   workerRuntimeDemandKey (Some \<lparr>dm_provider = ''codex'', dm_model = Some ''m '', dm_reasoningEffort = Some [], dm_serviceTier = None\<rparr>)"
  using demand_key_identifies [of "\<lparr>dm_provider = '' codex'', dm_model = Some ''m'', dm_reasoningEffort = None, dm_serviceTier = None\<rparr>"
      "\<lparr>dm_provider = ''codex'', dm_model = Some ''m '', dm_reasoningEffort = Some [], dm_serviceTier = None\<rparr>"]
  by (simp add: separator_free_def unit_separator_def or_blank_def normalizeWorkerRuntimeDemand_def trimmed_def js_trim_def js_ws_def)

text \<open>
  A worker behind an account is never shown as better off than either: the merged capacity is
  as severe as the more severe of the two, it is available exactly when both are, and of two limits
  of one severity with known resets it shows the later reset.
\<close>

theorem merged_capacity_is_the_worse:
  assumes "dates_ok worker" and "dates_ok account" and "m = mergeWorkerAndAccountCapacity worker account"
  shows "severity m = max (severity worker) (severity account) \<and>
    (ca_availability m = Available \<longleftrightarrow> ca_availability worker = Available \<and> ca_availability account = Available) \<and>
    (severity worker = severity account \<and> ca_availability worker \<noteq> Available \<and>
       ca_cooldownUntil worker = Some w \<and> ca_cooldownUntil account = Some a \<longrightarrow>
       (\<exists>u. ca_cooldownUntil m = Some u \<and> date_le w u \<and> date_le a u))"
proof -
  have sev: "severity m = max (severity worker) (severity account)"
  proof (cases "ca_availability worker = Available")
    case True
    then have "severity worker = 10" by (simp add: severity_10)
    with True assms(3) show ?thesis by (simp add: mergeWorkerAndAccountCapacity_def max_absorb2)
  qed (use assms(3) in \<open>auto simp: mergeWorkerAndAccountCapacity_def split: option.splits\<close>)
  moreover have "ca_availability m = Available \<longleftrightarrow> ca_availability worker = Available \<and> ca_availability account = Available"
    unfolding severity_10 [symmetric] sev using severity_ge_10 [of worker] severity_ge_10 [of account] by linarith
  moreover have "\<exists>u. ca_cooldownUntil m = Some u \<and> date_le w u \<and> date_le a u"
    if "severity worker = severity account" "ca_availability worker \<noteq> Available"
      "ca_cooldownUntil worker = Some w" "ca_cooldownUntil account = Some a"
  proof -
    have "valid_date w" "valid_date a" using assms(1,2) that(3,4) by (auto simp: dates_ok_def)
    with that assms(3) show ?thesis
      using date_not_le_lt [of a w] date_lt_imp_le [of w a]
      by (auto simp: mergeWorkerAndAccountCapacity_def account_with_worker_details_def simp flip: date_lt_getTime)
  qed
  ultimately show ?thesis by blast
qed

definition demo_limit :: "availability \<Rightarrow> int \<Rightarrow> capacity" where
  "demo_limit a t = \<lparr>ca_availability = a, ca_reason = Some ''quota_limited'', ca_cooldownUntil = Some (Instant t),
     ca_recentRuns = None, ca_softLimitRemainingRuns = None, ca_lastLimitSignalAt = None, ca_details = None\<rparr>"

theorem merged_capacity_is_the_worse_witness:
  "\<exists>u. ca_cooldownUntil (mergeWorkerAndAccountCapacity (demo_limit Cooldown 5) (demo_limit Cooldown 9)) = Some u \<and>
     date_le (Instant 5) u \<and> date_le (Instant 9) u"
  using merged_capacity_is_the_worse [of "demo_limit Cooldown 5" "demo_limit Cooldown 9" _ "Instant 5" "Instant 9", OF _ _ refl]
  by (auto simp: demo_limit_def dates_ok_def severity_def)

subsection \<open>Waiting for a recovery\<close>

definition recovery_times :: "recovery_snapshot list \<Rightarrow> jsnum list" where
  "recovery_times ss = map getTime (List.map_filter (\<lambda>s. workerCapacityRecoveryAt (rs_capacity s)) ss)"

lemma next_recovery_fold:
  "foldl (\<lambda>nextAt s. case workerCapacityRecoveryAt (rs_capacity s) of
         None \<Rightarrow> nextAt
       | Some d \<Rightarrow> (case nextAt of None \<Rightarrow> Some (getTime d) | Some n \<Rightarrow> Some (js_min n (getTime d)))) (Some n) ss =
   Some (foldl js_min n (recovery_times ss))"
  by (induction ss arbitrary: n) (auto simp: recovery_times_def List.map_filter_simps split: option.splits)

lemma next_recovery_eq:
  "nextWorkerCapacityRecoveryAt ss =
     (case recovery_times ss of [] \<Rightarrow> None | t # ts \<Rightarrow> Some (foldl js_min t ts))"
proof (induction ss)
  case (Cons s ss)
  then show ?case
    using next_recovery_fold [of _ ss]
    by (auto simp: nextWorkerCapacityRecoveryAt_def recovery_times_def List.map_filter_simps split: option.splits)
qed (simp add: nextWorkerCapacityRecoveryAt_def recovery_times_def List.map_filter_simps)

lemma foldl_js_min:
  "list_all js_isFinite (t # ts) \<Longrightarrow>
    foldl js_min t ts \<in> set (t # ts) \<and> (\<forall>x \<in> set (t # ts). js_le (foldl js_min t ts) x)"
proof (induction ts arbitrary: t)
  case Nil
  then show ?case by (auto simp: js_le_refl_finite)
next
  case (Cons x ts)
  obtain a b where ab: "t = Fin a" "x = Fin b" using Cons.prems by (cases t; cases x) auto
  then have m: "js_min t x = Fin (min a b)" by (auto simp: js_min_def min_def)
  with Cons.IH [of "js_min t x"] Cons.prems ab
  have ih: "foldl js_min (Fin (min a b)) ts \<in> set (Fin (min a b) # ts)"
    "\<forall>y \<in> set (Fin (min a b) # ts). js_le (foldl js_min (Fin (min a b)) ts) y" by simp_all
  have "js_le (Fin (min a b)) t" "js_le (Fin (min a b)) x" using ab by auto
  with ih(2) have "js_le (foldl js_min (Fin (min a b)) ts) t" "js_le (foldl js_min (Fin (min a b)) ts) x"
    using js_le_trans by (meson list.set_intros(1))+
  with ih m ab show ?case by (auto simp: min_def split: if_splits)
qed

lemma recovery_times_Nil: "recovery_times ss = [] \<longleftrightarrow> \<not> list_ex (\<lambda>s. workerCapacityRecoveryAt (rs_capacity s) \<noteq> None) ss"
  by (induction ss) (auto simp: recovery_times_def List.map_filter_simps split: option.splits)

lemma recovery_times_finite:
  "list_all (\<lambda>s. dates_ok (rs_capacity s)) ss \<Longrightarrow> list_all js_isFinite (recovery_times ss)"
proof (induction ss)
  case (Cons s ss)
  have "js_isFinite (getTime u)" if "workerCapacityRecoveryAt (rs_capacity s) = Some u" for u
    using that Cons.prems by (cases u) (auto simp: workerCapacityRecoveryAt_def dates_ok_def split: if_splits)
  with Cons show ?case
    by (auto simp: recovery_times_def List.map_filter_simps split: option.splits)
qed (simp add: recovery_times_def List.map_filter_simps)

text \<open>
  Work is only given up when waiting cannot help. With valid reset times the decision is to
  defer exactly when some slot is busy, some slot has a reset to wait for, or every slot is
  available; and when a reset exists, the time reported as the next recovery is one of the resets
  and none is earlier.
\<close>

theorem recovery_decision:
  assumes "list_all (\<lambda>s. dates_ok (rs_capacity s)) ss"
  shows "(assessWorkerCapacityRecovery le ss = Defer \<longleftrightarrow>
      list_ex rs_busy ss \<or> nextWorkerCapacityRecoveryAt ss \<noteq> None \<or>
      list_all (\<lambda>s. ca_availability (rs_capacity s) = Available) ss) \<and>
    (\<forall>t. nextWorkerCapacityRecoveryAt ss = Some t \<longrightarrow>
      t \<in> set (recovery_times ss) \<and> (\<forall>x \<in> set (recovery_times ss). js_le t x))"
proof -
  have none: "nextWorkerCapacityRecoveryAt ss \<noteq> None \<longleftrightarrow> list_ex (\<lambda>s. workerCapacityRecoveryAt (rs_capacity s) \<noteq> None) ss"
    using recovery_times_Nil [of ss] by (auto simp: next_recovery_eq split: list.splits)
  have "assessWorkerCapacityRecovery le ss = Defer \<longleftrightarrow>
      list_ex rs_busy ss \<or> list_ex (\<lambda>s. workerCapacityRecoveryAt (rs_capacity s) \<noteq> None) ss \<or>
      list_all (\<lambda>s. ca_availability (rs_capacity s) = Available) ss"
    by (auto simp: assessWorkerCapacityRecovery_def workerCapacityUnavailableDetails_def Let_def filter_empty_conv list_all_iff)
  moreover have "t \<in> set (recovery_times ss) \<and> (\<forall>x \<in> set (recovery_times ss). js_le t x)"
    if "nextWorkerCapacityRecoveryAt ss = Some t" for t
    using that foldl_js_min recovery_times_finite [OF assms]
    by (cases "recovery_times ss") (auto simp: next_recovery_eq)
  ultimately show ?thesis using none by blast
qed

theorem recovery_decision_witness:
  "assessWorkerCapacityRecovery (\<lambda>a b. True)
     [\<lparr>rs_busy = False, rs_capacity = demo_limit Disabled 5\<rparr>, \<lparr>rs_busy = False, rs_capacity = demo_limit Cooldown 9\<rparr>] = Defer"
  using recovery_decision [of "[\<lparr>rs_busy = False, rs_capacity = demo_limit Disabled 5\<rparr>,
      \<lparr>rs_busy = False, rs_capacity = demo_limit Cooldown 9\<rparr>]" "\<lambda>a b. True"]
  by (simp add: demo_limit_def dates_ok_def nextWorkerCapacityRecoveryAt_def workerCapacityRecoveryAt_def
      isResettableWorkerCapacity_def session_invalid_def)

end
