(* ===== verification/Capacity_Store.thy ===== *)
theory Capacity_Store
  imports Capacity
begin

text \<open>
  The in-memory store of account capacities,
  \<open>src/worker-core/account-capacity/adapters/in-memory-worker-account-capacity-store.ts\<close>, with the
  recheck types of \<open>worker-account-capacity-recheck.ts\<close>. A record blocks an account, or an account
  for one demand, until its reset; when the reset is due, one worker at a time may claim the recheck
  and resolve it. \<open>randomUUID()\<close> is an argument, and the metrics the store reports are kept in a
  list, newest first.
\<close>

section \<open>Definitions\<close>

datatype capacity_phase = Blocking | RecheckDue

datatype recheck_mode = DueOnly | Refresh

record capacity_record =
  kr_recordId :: string
  kr_revision :: string
  kr_accountId :: string
  kr_demand :: "runtime_demand option"
  kr_capacity :: capacity

record capacity_state = capacity_record +
  ks_phase :: capacity_phase

record recheck_claim =
  rk_claimId :: string
  rk_recordId :: string
  rk_baseRevision :: string
  rk_accountId :: string
  rk_demand :: "runtime_demand option"
  rk_ownerId :: string
  rk_claimedAt :: date
  rk_expiresAt :: date
  rk_previous :: capacity

datatype claim_result =
    Claimed recheck_claim
  | ClaimBusy date
  | NotDue capacity_state
  | ClaimMissing
  | ClaimConflict

datatype recheck_resolution =
    ResolveAvailable
  | ResolveLimited capacity
  | ResolveRetry date string

datatype resolve_result =
    Applied "capacity_state option"
  | StaleClaim
  | ResolveMissing
  | ResolveConflict

datatype metric = MetricRecheckDue | MetricRecheckBusy | MetricRecheckFailed | MetricTimeToResetMs jsnum

record capacity_store =
  st_records :: "(string \<times> capacity_record) list"
  st_claims :: "(string \<times> recheck_claim) list"
  st_metrics :: "metric list"

definition store_new :: capacity_store where
  "store_new = \<lparr>st_records = [], st_claims = [], st_metrics = []\<rparr>"

definition nul :: char where
  "nul = CHR 0x00"

definition accountCapacityKey :: "string \<Rightarrow> runtime_demand option \<Rightarrow> string" where
  "accountCapacityKey accountId demand =
     (case truthy (workerRuntimeDemandKey demand) of None \<Rightarrow> accountId | Some k \<Rightarrow> accountId @ nul # k)"

definition belongs_to :: "string \<Rightarrow> string \<Rightarrow> bool" where
  "belongs_to accountId key = (key = accountId \<or> take (length accountId + 1) key = accountId @ [nul])"

definition stateFromRecord :: "capacity_record \<Rightarrow> date \<Rightarrow> capacity_state" where
  "stateFromRecord r now =
     (let recheckDue = (case ca_cooldownUntil (kr_capacity r) of None \<Rightarrow> False
                        | Some u \<Rightarrow> js_le (getTime u) (getTime now))
      in capacity_record.extend r \<lparr>ks_phase = (if recheckDue then RecheckDue else Blocking)\<rparr>)"

definition selectPreferredRecord :: "capacity_record option list \<Rightarrow> date \<Rightarrow> capacity_record option" where
  "selectPreferredRecord records now =
     (let present = List.map_filter id records;
          active = filter (\<lambda>r. ks_phase (stateFromRecord r now) = Blocking) present;
          candidates = (if active \<noteq> [] then active else present)
      in foldl (\<lambda>selected r. case selected of
            None \<Rightarrow> Some r
          | Some s \<Rightarrow> if \<not> shouldKeepExistingWorkerAccountCapacity (kr_capacity s) (kr_capacity r)
                       then Some r else Some s) None candidates)"

definition readAggregateRecord :: "string \<Rightarrow> date \<Rightarrow> capacity_store \<Rightarrow> capacity_record option" where
  "readAggregateRecord accountId now st =
     selectPreferredRecord (map (\<lambda>(k, r). Some r) (filter (\<lambda>(k, r). belongs_to accountId k) (st_records st))) now"

definition store_readState :: "string \<Rightarrow> runtime_demand option \<Rightarrow> date \<Rightarrow> capacity_store \<Rightarrow> capacity_state option" where
  "store_readState inputAccount inputDemand now st =
     (case normalizeWorkerAccountId (Some inputAccount) of
        None \<Rightarrow> None
      | Some accountId \<Rightarrow>
          map_option (\<lambda>r. stateFromRecord r now)
            (case normalizeWorkerRuntimeDemand inputDemand of
               Some demand \<Rightarrow>
                 selectPreferredRecord [map_of (st_records st) (accountCapacityKey accountId (Some demand)),
                   map_of (st_records st) (accountCapacityKey accountId None)] now
             | None \<Rightarrow> readAggregateRecord accountId now st))"

definition recheckInProgressCapacity :: "capacity \<Rightarrow> date \<Rightarrow> capacity" where
  "recheckInProgressCapacity previous retryAt =
     \<lparr>ca_availability = Cooldown, ca_reason = Some ''quota_recheck_in_progress'', ca_cooldownUntil = Some retryAt,
      ca_recentRuns = None, ca_softLimitRemainingRuns = None,
      ca_lastLimitSignalAt = ca_lastLimitSignalAt previous, ca_details = ca_details previous\<rparr>"

definition store_read ::
    "string \<Rightarrow> runtime_demand option \<Rightarrow> date option \<Rightarrow> date \<Rightarrow> date \<Rightarrow> capacity_store \<Rightarrow> capacity option" where
  "store_read accountId demand inputNow clock1 clock2 st =
     (case store_readState accountId demand (case inputNow of None \<Rightarrow> clock1 | Some d \<Rightarrow> d) st of
        None \<Rightarrow> None
      | Some state \<Rightarrow>
          if ks_phase state = Blocking then Some (kr_capacity state)
          else
            (case map_of (st_claims st) (kr_recordId state) of
               None \<Rightarrow> None
             | Some claim \<Rightarrow>
                 if js_lt (getTime (case inputNow of None \<Rightarrow> clock2 | Some d \<Rightarrow> d)) (getTime (rk_expiresAt claim))
                 then Some (recheckInProgressCapacity (kr_capacity state) (rk_expiresAt claim))
                 else None))"

definition recordTimeToReset :: "capacity \<Rightarrow> date \<Rightarrow> capacity_store \<Rightarrow> capacity_store" where
  "recordTimeToReset c observedAt st =
     (case ca_cooldownUntil c of
        None \<Rightarrow> st
      | Some u \<Rightarrow>
          if ca_reason c \<noteq> Some ''quota_limited'' then st
          else st\<lparr>st_metrics := MetricTimeToResetMs (js_max (Fin 0) (js_sub (getTime u) (getTime observedAt)))
                    # st_metrics st\<rparr>)"

definition put_record :: "string \<Rightarrow> capacity_record \<Rightarrow> capacity_store \<Rightarrow> capacity_store" where
  "put_record k r st = st\<lparr>st_records := AList.update k r (st_records st)\<rparr>"

definition drop_record :: "string \<Rightarrow> capacity_store \<Rightarrow> capacity_store" where
  "drop_record k st = st\<lparr>st_records := AList.delete k (st_records st)\<rparr>"

definition drop_claim :: "string \<Rightarrow> capacity_store \<Rightarrow> capacity_store" where
  "drop_claim k st = st\<lparr>st_claims := AList.delete k (st_claims st)\<rparr>"

definition count_metric :: "metric \<Rightarrow> capacity_store \<Rightarrow> capacity_store" where
  "count_metric m st = st\<lparr>st_metrics := m # st_metrics st\<rparr>"

definition store_observe :: "limit_signal \<Rightarrow> string \<Rightarrow> capacity_store \<Rightarrow> capacity_state option \<times> capacity_store" where
  "store_observe input uuid st =
     (case normalizeWorkerAccountId (Some (ls_accountId input)) of
        None \<Rightarrow> (None, st)
      | Some accountId \<Rightarrow>
        (case normalizeWorkerAccountCapacitySignal input of
           None \<Rightarrow> (None, st)
         | Some c \<Rightarrow>
           let demand = signal_demand input (ca_details (ls_capacity input));
               key = accountCapacityKey accountId demand;
               activeClaim = (case map_of (st_claims st) key of None \<Rightarrow> False
                 | Some claim \<Rightarrow> js_lt (getTime (ls_observedAt input)) (getTime (rk_expiresAt claim)));
               replace_record =
                 (let r = \<lparr>kr_recordId = key, kr_revision = uuid, kr_accountId = accountId, kr_demand = demand, kr_capacity = c\<rparr>
                  in (Some (stateFromRecord r (ls_observedAt input)),
                      recordTimeToReset c (ls_observedAt input) (drop_claim key (put_record key r st))))
           in (case map_of (st_records st) key of
                 None \<Rightarrow> replace_record
               | Some existing \<Rightarrow>
                   if ks_phase (stateFromRecord existing (ls_observedAt input)) = Blocking \<and>
                      shouldKeepExistingWorkerAccountCapacity (kr_capacity existing) c
                   then
                     if \<not> activeClaim then (Some (stateFromRecord existing (ls_observedAt input)), st)
                     else let refreshed = existing\<lparr>kr_revision := uuid\<rparr>
                          in (Some (stateFromRecord refreshed (ls_observedAt input)),
                              drop_claim key (put_record key refreshed st))
                   else replace_record)))"

definition store_tryClaimRecheck ::
    "capacity_state \<Rightarrow> string \<Rightarrow> date \<Rightarrow> jsnum \<Rightarrow> recheck_mode \<Rightarrow> string \<Rightarrow> capacity_store \<Rightarrow>
      claim_result \<times> capacity_store" where
  "store_tryClaimRecheck input ownerId now ttlMs mode uuid st =
     (case map_of (st_records st) (kr_recordId input) of
        None \<Rightarrow> (ClaimMissing, st)
      | Some current \<Rightarrow>
        if kr_revision current \<noteq> kr_revision input then (ClaimConflict, st)
        else
          let state = stateFromRecord current now in
          if ca_reason (kr_capacity state) = Some session_invalid then (NotDue state, st)
          else
            let st1 = (if mode = DueOnly \<and> ks_phase state = RecheckDue then count_metric MetricRecheckDue st else st) in
            if mode = DueOnly \<and> ks_phase state \<noteq> RecheckDue then (NotDue state, st1)
            else
              (case (case map_of (st_claims st) (kr_recordId current) of
                       None \<Rightarrow> None
                     | Some existing \<Rightarrow>
                         if js_lt (getTime now) (getTime (rk_expiresAt existing)) then Some (rk_expiresAt existing) else None) of
                 Some retryAt \<Rightarrow> (ClaimBusy retryAt, count_metric MetricRecheckBusy st1)
               | None \<Rightarrow>
                   let claim = \<lparr>rk_claimId = uuid, rk_recordId = kr_recordId current, rk_baseRevision = kr_revision current,
                         rk_accountId = kr_accountId current, rk_demand = kr_demand current, rk_ownerId = ownerId,
                         rk_claimedAt = now, rk_expiresAt = newDate (js_add (getTime now) (js_max (Fin 1) ttlMs)),
                         rk_previous = kr_capacity current\<rparr>
                   in (Claimed claim, st1\<lparr>st_claims := AList.update (kr_recordId current) claim (st_claims st1)\<rparr>)))"

definition invalidLimitedRecheckCapacity :: "recheck_claim \<Rightarrow> date \<Rightarrow> capacity" where
  "invalidLimitedRecheckCapacity claim observedAt =
     \<lparr>ca_availability = Cooldown, ca_reason = Some ''quota_recheck_invalid_limited'',
      ca_cooldownUntil = Some (newDate (js_add (getTime observedAt) (Fin 60000))),
      ca_recentRuns = None, ca_softLimitRemainingRuns = None,
      ca_lastLimitSignalAt = Some observedAt, ca_details = ca_details (rk_previous claim)\<rparr>"

definition resolvedCapacity :: "recheck_claim \<Rightarrow> date \<Rightarrow> recheck_resolution \<Rightarrow> capacity option" where
  "resolvedCapacity claim observedAt resolution =
     (case resolution of
        ResolveAvailable \<Rightarrow> None
      | ResolveRetry retryAt reason \<Rightarrow>
          Some \<lparr>ca_availability = Cooldown, ca_reason = Some reason, ca_cooldownUntil = Some retryAt,
                ca_recentRuns = None, ca_softLimitRemainingRuns = None,
                ca_lastLimitSignalAt = Some observedAt, ca_details = ca_details (rk_previous claim)\<rparr>
      | ResolveLimited c \<Rightarrow>
          nullish
            (normalizeWorkerAccountCapacitySignal
               \<lparr>ls_accountId = rk_accountId claim, ls_scope = None, ls_demand = rk_demand claim, ls_capacity = c,
                ls_observedAt = observedAt, ls_sourceWorkerId = None, ls_retainExpiredForRecheck = False\<rparr>)
            (Some (invalidLimitedRecheckCapacity claim observedAt)))"

definition store_resolveRecheck ::
    "recheck_claim \<Rightarrow> date \<Rightarrow> recheck_resolution \<Rightarrow> string \<Rightarrow> capacity_store \<Rightarrow> resolve_result \<times> capacity_store" where
  "store_resolveRecheck claim observedAt resolution uuid st0 =
     (let key = rk_recordId claim;
          st = (case resolution of
                  ResolveRetry retryAt reason \<Rightarrow>
                    if reason = ''quota_recheck_failed'' then count_metric MetricRecheckFailed st0 else st0
                | _ \<Rightarrow> st0)
      in case map_of (st_claims st) key of
           None \<Rightarrow> (StaleClaim, st)
         | Some stored \<Rightarrow>
             if rk_claimId stored \<noteq> rk_claimId claim then (StaleClaim, st)
             else if js_le (getTime (rk_expiresAt stored)) (getTime observedAt) then (StaleClaim, drop_claim key st)
             else
               (case map_of (st_records st) key of
                  None \<Rightarrow> (ResolveMissing, drop_claim key st)
                | Some current \<Rightarrow>
                    if kr_revision current \<noteq> rk_baseRevision claim then (ResolveConflict, drop_claim key st)
                    else
                      (case resolvedCapacity claim observedAt resolution of
                         Some next \<Rightarrow>
                           let r = current\<lparr>kr_revision := uuid, kr_capacity := next\<rparr>;
                               st1 = put_record (kr_recordId current) r st;
                               st2 = (case resolution of ResolveLimited c \<Rightarrow> recordTimeToReset next observedAt st1 | _ \<Rightarrow> st1)
                           in (Applied (Some (stateFromRecord r observedAt)), drop_claim (kr_recordId current) st2)
                       | None \<Rightarrow>
                           (Applied None, drop_claim (kr_recordId current) (drop_record (kr_recordId current) st)))))"

definition store_releaseRecheck :: "recheck_claim \<Rightarrow> capacity_store \<Rightarrow> capacity_store" where
  "store_releaseRecheck claim st =
     (case map_of (st_claims st) (rk_recordId claim) of
        None \<Rightarrow> st
      | Some stored \<Rightarrow> if rk_claimId stored = rk_claimId claim then drop_claim (rk_recordId claim) st else st)"

definition store_clear :: "string \<Rightarrow> capacity_store \<Rightarrow> capacity_store" where
  "store_clear inputAccount st =
     (case normalizeWorkerAccountId (Some inputAccount) of
        None \<Rightarrow> st
      | Some accountId \<Rightarrow>
          fold (\<lambda>k s. if belongs_to accountId k then drop_claim k (drop_record k s) else s) (map fst (st_records st)) st)"

datatype store_op =
    CsObserve limit_signal string
  | CsClaim capacity_state string date jsnum recheck_mode string
  | CsResolve recheck_claim date recheck_resolution string
  | CsRelease recheck_claim
  | CsClear string

fun store_step :: "store_op \<Rightarrow> capacity_store \<Rightarrow> capacity_store" where
  "store_step (CsObserve s u) st = snd (store_observe s u st)"
| "store_step (CsClaim state owner now ttl mode u) st = snd (store_tryClaimRecheck state owner now ttl mode u st)"
| "store_step (CsResolve c t res u) st = snd (store_resolveRecheck c t res u st)"
| "store_step (CsRelease c) st = store_releaseRecheck c st"
| "store_step (CsClear a) st = store_clear a st"

fun store_steps :: "store_op list \<Rightarrow> capacity_store \<Rightarrow> capacity_store" where
  "store_steps [] st = st"
| "store_steps (x # xs) st = store_steps xs (store_step x st)"

section \<open>Frames\<close>

lemma store_frame [simp]:
  "st_records (put_record k r st) = AList.update k r (st_records st)" "st_claims (put_record k r st) = st_claims st"
  "st_records (drop_record k st) = AList.delete k (st_records st)" "st_claims (drop_record k st) = st_claims st"
  "st_records (drop_claim k st) = st_records st" "st_claims (drop_claim k st) = AList.delete k (st_claims st)"
  "st_records (count_metric m st) = st_records st" "st_claims (count_metric m st) = st_claims st"
  "st_records (recordTimeToReset c d st) = st_records st" "st_claims (recordTimeToReset c d st) = st_claims st"
  by (simp_all add: put_record_def drop_record_def drop_claim_def count_metric_def recordTimeToReset_def split: option.split)

lemma stateFromRecord_simps [simp]:
  "kr_recordId (stateFromRecord r now) = kr_recordId r" "kr_revision (stateFromRecord r now) = kr_revision r"
  "kr_accountId (stateFromRecord r now) = kr_accountId r" "kr_demand (stateFromRecord r now) = kr_demand r"
  "kr_capacity (stateFromRecord r now) = kr_capacity r"
  by (simp_all add: stateFromRecord_def Let_def capacity_record.defs)

lemma stateFromRecord_phase:
  "ks_phase (stateFromRecord r now) = RecheckDue \<longleftrightarrow>
     (\<exists>u. ca_cooldownUntil (kr_capacity r) = Some u \<and> date_le u now)"
  "ks_phase (stateFromRecord r now) = Blocking \<longleftrightarrow>
     \<not> (\<exists>u. ca_cooldownUntil (kr_capacity r) = Some u \<and> date_le u now)"
  by (auto simp: stateFromRecord_def Let_def capacity_record.defs date_le_getTime split: option.splits)

definition signal_key :: "limit_signal \<Rightarrow> string option" where
  "signal_key s = map_option (\<lambda>a. accountCapacityKey a (signal_demand s (ca_details (ls_capacity s))))
     (normalizeWorkerAccountId (Some (ls_accountId s)))"

definition clears :: "string \<Rightarrow> string \<Rightarrow> bool" where
  "clears a k \<longleftrightarrow> (\<exists>acc. normalizeWorkerAccountId (Some a) = Some acc \<and> belongs_to acc k)"

text \<open>A record is filed under its own key.\<close>

definition filed :: "string \<Rightarrow> capacity_record \<Rightarrow> bool" where
  "filed k r \<longleftrightarrow> kr_recordId r = k \<and> k = accountCapacityKey (kr_accountId r) (kr_demand r)"

text \<open>A claim belongs to the record under its key, at that record's present revision.\<close>

definition claim_fits :: "capacity_store \<Rightarrow> string \<Rightarrow> recheck_claim \<Rightarrow> bool" where
  "claim_fits st k c \<longleftrightarrow> rk_recordId c = k \<and>
     (\<exists>r. map_of (st_records st) k = Some r \<and> rk_baseRevision c = kr_revision r \<and>
        rk_accountId c = kr_accountId r \<and> rk_demand c = kr_demand r \<and>
        ca_reason (kr_capacity r) \<noteq> Some session_invalid)"

definition store_inv :: "capacity_store \<Rightarrow> bool" where
  "store_inv st \<longleftrightarrow> jsmap_ok (st_records st) \<and> jsmap_ok (st_claims st) \<and>
     (\<forall>k r. map_of (st_records st) k = Some r \<longrightarrow> filed k r) \<and>
     (\<forall>k c. map_of (st_claims st) k = Some c \<longrightarrow> claim_fits st k c)"

section \<open>The effect of each operation\<close>

lemma store_observe_effect:
  obtains (same) "snd (store_observe s u st) = st"
  | (refreshed) k r where "signal_key s = Some k" "map_of (st_records st) k = Some r"
      "st_records (snd (store_observe s u st)) = AList.update k (r\<lparr>kr_revision := u\<rparr>) (st_records st)"
      "st_claims (snd (store_observe s u st)) = AList.delete k (st_claims st)"
      "\<exists>c. map_of (st_claims st) k = Some c"
  | (recorded) k r where "signal_key s = Some k" "filed k r" "kr_revision r = u"
      "normalizeWorkerAccountCapacitySignal s = Some (kr_capacity r)"
      "st_records (snd (store_observe s u st)) = AList.update k r (st_records st)"
      "st_claims (snd (store_observe s u st)) = AList.delete k (st_claims st)"
      "\<forall>e. map_of (st_records st) k = Some e \<longrightarrow>
         \<not> (ks_phase (stateFromRecord e (ls_observedAt s)) = Blocking \<and>
            shouldKeepExistingWorkerAccountCapacity (kr_capacity e) (kr_capacity r))"
proof (cases "normalizeWorkerAccountId (Some (ls_accountId s))")
  case None
  then show ?thesis by (intro same) (simp add: store_observe_def)
next
  case (Some acc)
  note acc = Some
  let ?demand = "signal_demand s (ca_details (ls_capacity s))"
  let ?key = "accountCapacityKey acc ?demand"
  have key: "signal_key s = Some ?key" using acc by (simp add: signal_key_def)
  show ?thesis
  proof (cases "normalizeWorkerAccountCapacitySignal s")
    case None
    with acc show ?thesis by (intro same) (simp add: store_observe_def)
  next
    case (Some c)
    let ?r = "\<lparr>kr_recordId = ?key, kr_revision = u, kr_accountId = acc, kr_demand = ?demand, kr_capacity = c\<rparr>"
    have rec: thesis if "snd (store_observe s u st) = recordTimeToReset c (ls_observedAt s) (drop_claim ?key (put_record ?key ?r st))"
      "\<forall>e. map_of (st_records st) ?key = Some e \<longrightarrow> \<not> (ks_phase (stateFromRecord e (ls_observedAt s)) = Blocking \<and>
         shouldKeepExistingWorkerAccountCapacity (kr_capacity e) c)"
      using that key Some by (intro recorded [of ?key ?r]) (simp_all add: filed_def)
    show ?thesis
    proof (cases "map_of (st_records st) ?key")
      case None
      with acc Some show ?thesis by (intro rec) (simp_all add: store_observe_def Let_def)
    next
      case (Some e)
      note e = Some
      show ?thesis
      proof (cases "ks_phase (stateFromRecord e (ls_observedAt s)) = Blocking \<and> shouldKeepExistingWorkerAccountCapacity (kr_capacity e) c")
        case False
        with acc e \<open>normalizeWorkerAccountCapacitySignal s = Some c\<close> show ?thesis
          by (intro rec) (auto simp: store_observe_def Let_def)
      next
        case True
        note facts = True acc e \<open>normalizeWorkerAccountCapacitySignal s = Some c\<close>
        show ?thesis
        proof (cases "\<exists>a. map_of (st_claims st) ?key = Some a \<and> js_lt (getTime (ls_observedAt s)) (getTime (rk_expiresAt a))")
          case True
          with facts key show ?thesis
            by (intro refreshed [OF key e]) (auto simp: store_observe_def Let_def)
        next
          case False
          with facts show ?thesis
            by (intro same) (auto simp: store_observe_def Let_def split: option.splits)
        qed
      qed
    qed
  qed
qed

lemma store_claim_effect:
  obtains (same) "st_records (snd (store_tryClaimRecheck input owner now ttl mode u st)) = st_records st"
      "st_claims (snd (store_tryClaimRecheck input owner now ttl mode u st)) = st_claims st"
      "\<forall>c. fst (store_tryClaimRecheck input owner now ttl mode u st) \<noteq> Claimed c"
  | (claimed) r c where "map_of (st_records st) (kr_recordId input) = Some r" "kr_revision r = kr_revision input"
      "ca_reason (kr_capacity r) \<noteq> Some session_invalid"
      "\<forall>e. map_of (st_claims st) (kr_recordId r) = Some e \<longrightarrow> \<not> date_lt now (rk_expiresAt e)"
      "mode = DueOnly \<longrightarrow> ks_phase (stateFromRecord r now) = RecheckDue"
      "c = \<lparr>rk_claimId = u, rk_recordId = kr_recordId r, rk_baseRevision = kr_revision r,
            rk_accountId = kr_accountId r, rk_demand = kr_demand r, rk_ownerId = owner,
            rk_claimedAt = now, rk_expiresAt = newDate (js_add (getTime now) (js_max (Fin 1) ttl)),
            rk_previous = kr_capacity r\<rparr>"
      "fst (store_tryClaimRecheck input owner now ttl mode u st) = Claimed c"
      "st_records (snd (store_tryClaimRecheck input owner now ttl mode u st)) = st_records st"
      "st_claims (snd (store_tryClaimRecheck input owner now ttl mode u st)) = AList.update (kr_recordId r) c (st_claims st)"
proof (cases "map_of (st_records st) (kr_recordId input)")
  case None
  then show ?thesis by (intro same) (simp_all add: store_tryClaimRecheck_def)
next
  case (Some r)
  let ?busy = "case map_of (st_claims st) (kr_recordId r) of None \<Rightarrow> None
    | Some e \<Rightarrow> if js_lt (getTime now) (getTime (rk_expiresAt e)) then Some (rk_expiresAt e) else None"
  show ?thesis
  proof (cases "kr_revision r = kr_revision input \<and> ca_reason (kr_capacity r) \<noteq> Some session_invalid \<and>
      (mode = DueOnly \<longrightarrow> ks_phase (stateFromRecord r now) = RecheckDue) \<and> ?busy = None")
    case True
    let ?c = "\<lparr>rk_claimId = u, rk_recordId = kr_recordId r, rk_baseRevision = kr_revision r,
            rk_accountId = kr_accountId r, rk_demand = kr_demand r, rk_ownerId = owner,
            rk_claimedAt = now, rk_expiresAt = newDate (js_add (getTime now) (js_max (Fin 1) ttl)),
            rk_previous = kr_capacity r\<rparr>"
    let ?st1 = "if mode = DueOnly \<and> ks_phase (stateFromRecord r now) = RecheckDue then count_metric MetricRecheckDue st else st"
    from True have busy: "?busy = None" by blast
    have eq: "store_tryClaimRecheck input owner now ttl mode u st =
        (Claimed ?c, ?st1\<lparr>st_claims := AList.update (kr_recordId r) ?c (st_claims ?st1)\<rparr>)"
      using True Some unfolding store_tryClaimRecheck_def Let_def by simp
    have "\<forall>e. map_of (st_claims st) (kr_recordId r) = Some e \<longrightarrow> \<not> date_lt now (rk_expiresAt e)"
      using busy by (auto simp: date_lt_getTime split: if_splits)
    with True Some show ?thesis
      by (intro claimed [of r ?c]) (simp_all add: eq)
  next
    case False
    with Some show ?thesis
      by (intro same) (auto simp: store_tryClaimRecheck_def Let_def split: option.splits)
  qed
qed

lemma store_resolve_effect [consumes 1, case_names refused applied]:
  assumes inv: "store_inv st"
  obtains (refused) "st_records (snd (store_resolveRecheck claim t res u st)) = st_records st"
      "st_claims (snd (store_resolveRecheck claim t res u st)) = st_claims st \<or>
       (st_claims (snd (store_resolveRecheck claim t res u st)) = AList.delete (rk_recordId claim) (st_claims st) \<and>
        (\<exists>stored. map_of (st_claims st) (rk_recordId claim) = Some stored \<and> rk_claimId stored = rk_claimId claim))"
      "\<forall>x. fst (store_resolveRecheck claim t res u st) \<noteq> Applied x"
      "\<not> (\<exists>stored r. map_of (st_claims st) (rk_recordId claim) = Some stored \<and> rk_claimId stored = rk_claimId claim \<and>
        \<not> date_le (rk_expiresAt stored) t \<and> map_of (st_records st) (rk_recordId claim) = Some r \<and>
        kr_revision r = rk_baseRevision claim)"
  | (applied) stored r where "map_of (st_claims st) (rk_recordId claim) = Some stored" "rk_claimId stored = rk_claimId claim"
      "\<not> date_le (rk_expiresAt stored) t" "map_of (st_records st) (rk_recordId claim) = Some r"
      "kr_revision r = rk_baseRevision claim"
      "fst (store_resolveRecheck claim t res u st) =
         Applied (map_option (\<lambda>c. stateFromRecord (r\<lparr>kr_revision := u, kr_capacity := c\<rparr>) t) (resolvedCapacity claim t res))"
      "st_records (snd (store_resolveRecheck claim t res u st)) =
         (case resolvedCapacity claim t res of None \<Rightarrow> AList.delete (rk_recordId claim) (st_records st)
          | Some c \<Rightarrow> AList.update (rk_recordId claim) (r\<lparr>kr_revision := u, kr_capacity := c\<rparr>) (st_records st))"
      "st_claims (snd (store_resolveRecheck claim t res u st)) = AList.delete (rk_recordId claim) (st_claims st)"
proof -
  let ?key = "rk_recordId claim"
  let ?st = "case res of ResolveRetry retryAt reason \<Rightarrow>
      if reason = ''quota_recheck_failed'' then count_metric MetricRecheckFailed st else st | _ \<Rightarrow> st"
  have frame [simp]: "st_records ?st = st_records st" "st_claims ?st = st_claims st"
    by (simp_all split: recheck_resolution.split)
  show thesis
  proof (cases "\<exists>stored r. map_of (st_claims st) ?key = Some stored \<and> rk_claimId stored = rk_claimId claim \<and>
      \<not> date_le (rk_expiresAt stored) t \<and> map_of (st_records st) ?key = Some r \<and>
      kr_revision r = rk_baseRevision claim")
    case False
    then show thesis
      by (intro refused [OF _ _ _ False])
         (auto simp: store_resolveRecheck_def Let_def date_le_getTime split: option.split)
  next
    case True
    then obtain stored r where *: "map_of (st_claims st) ?key = Some stored" "rk_claimId stored = rk_claimId claim"
      "\<not> date_le (rk_expiresAt stored) t" "map_of (st_records st) ?key = Some r"
      "kr_revision r = rk_baseRevision claim" by blast
    from inv *(4) have "kr_recordId r = ?key" by (simp add: store_inv_def filed_def)
    with * show thesis
      by (intro applied [OF *(1,2) _ *(4,5)])
         (auto simp: store_resolveRecheck_def Let_def date_le_getTime split: option.split recheck_resolution.split)
  qed
qed

lemma store_release_effect:
  "st_records (store_releaseRecheck c st) = st_records st"
  "st_claims (store_releaseRecheck c st) = st_claims st \<or>
   (st_claims (store_releaseRecheck c st) = AList.delete (rk_recordId c) (st_claims st) \<and>
    (\<exists>stored. map_of (st_claims st) (rk_recordId c) = Some stored \<and> rk_claimId stored = rk_claimId c))"
  by (auto simp: store_releaseRecheck_def split: option.splits)

lemma clear_fold:
  fixes acc ks
  defines "F \<equiv> \<lambda>k s. if belongs_to acc k then drop_claim k (drop_record k s) else s"
  shows "map_of (st_records (fold F ks st)) k = (if k \<in> set ks \<and> belongs_to acc k then None else map_of (st_records st) k)"
    and "map_of (st_claims (fold F ks st)) k = (if k \<in> set ks \<and> belongs_to acc k then None else map_of (st_claims st) k)"
    and "jsmap_ok (st_records st) \<Longrightarrow> jsmap_ok (st_records (fold F ks st))"
    and "jsmap_ok (st_claims st) \<Longrightarrow> jsmap_ok (st_claims (fold F ks st))"
proof -
  show "map_of (st_records (fold F ks st)) k = (if k \<in> set ks \<and> belongs_to acc k then None else map_of (st_records st) k)"
    by (induction ks arbitrary: st) (auto simp: F_def)
  show "map_of (st_claims (fold F ks st)) k = (if k \<in> set ks \<and> belongs_to acc k then None else map_of (st_claims st) k)"
    by (induction ks arbitrary: st) (auto simp: F_def)
  show "jsmap_ok (st_records st) \<Longrightarrow> jsmap_ok (st_records (fold F ks st))"
    by (induction ks arbitrary: st) (auto simp: F_def)
  show "jsmap_ok (st_claims st) \<Longrightarrow> jsmap_ok (st_claims (fold F ks st))"
    by (induction ks arbitrary: st) (auto simp: F_def)
qed

lemma store_clear_effect:
  assumes "store_inv st"
  shows "map_of (st_records (store_clear a st)) k = (if clears a k then None else map_of (st_records st) k)"
    and "map_of (st_claims (store_clear a st)) k = (if clears a k then None else map_of (st_claims st) k)"
    and "jsmap_ok (st_records (store_clear a st))" and "jsmap_ok (st_claims (store_clear a st))"
proof -
  have keys: "k \<in> set (map fst (st_records st)) \<longleftrightarrow> map_of (st_records st) k \<noteq> None"
    by (simp add: map_of_eq_None_iff)
  have claims: "map_of (st_records st) k = None \<Longrightarrow> map_of (st_claims st) k = None"
    using assms by (cases "map_of (st_claims st) k") (fastforce simp: store_inv_def claim_fits_def)+
  have ok: "jsmap_ok (st_records st)" "jsmap_ok (st_claims st)" using assms by (auto simp: store_inv_def)
  show "map_of (st_records (store_clear a st)) k = (if clears a k then None else map_of (st_records st) k)"
    using keys by (auto simp: store_clear_def clears_def clear_fold(1) split: option.splits)
  show "map_of (st_claims (store_clear a st)) k = (if clears a k then None else map_of (st_claims st) k)"
    using keys claims by (auto simp: store_clear_def clears_def clear_fold(2) split: option.splits)
  show "jsmap_ok (st_records (store_clear a st))" "jsmap_ok (st_claims (store_clear a st))"
    using ok clear_fold(3,4) by (auto simp: store_clear_def split: option.splits)
qed

section \<open>The invariant\<close>

lemma store_inv_update:
  assumes "store_inv st" and "filed k r"
    and "st_records st' = AList.update k r (st_records st)" and "st_claims st' = AList.delete k (st_claims st)"
  shows "store_inv st'"
  using assms by (auto simp: store_inv_def claim_fits_def split: if_splits)

lemma store_inv_drop:
  assumes "store_inv st" and "st_records st' = AList.delete k (st_records st)" and "st_claims st' = AList.delete k (st_claims st)"
  shows "store_inv st'"
  using assms by (auto simp: store_inv_def claim_fits_def split: if_splits)

lemma store_inv_claims:
  assumes "store_inv st" and "st_records st' = st_records st"
    and "st_claims st' = st_claims st \<or> st_claims st' = AList.delete k (st_claims st)"
  shows "store_inv st'"
  using assms by (auto simp: store_inv_def claim_fits_def split: if_splits)

lemma store_inv_step:
  assumes "store_inv st"
  shows "store_inv (store_step x st)"
proof (cases x)
  case (CsObserve s u)
  show ?thesis
  proof (cases rule: store_observe_effect [of s u st])
    case same
    with CsObserve assms show ?thesis by simp
  next
    case (refreshed k r)
    then have "filed k (r\<lparr>kr_revision := u\<rparr>)" using assms by (auto simp: store_inv_def filed_def)
    with refreshed CsObserve store_inv_update [OF assms] show ?thesis by simp
  next
    case (recorded k r)
    with CsObserve store_inv_update [OF assms] show ?thesis by simp
  qed
next
  case (CsClaim input owner now ttl mode u)
  show ?thesis
  proof (cases rule: store_claim_effect [of input owner now ttl mode u st])
    case same
    with CsClaim store_inv_claims [OF assms] show ?thesis by simp
  next
    case (claimed r c)
    then have "kr_recordId r = kr_recordId input" using assms by (auto simp: store_inv_def filed_def)
    with claimed CsClaim assms show ?thesis
      by (auto simp: store_inv_def claim_fits_def split: if_splits)
  qed
next
  case (CsResolve c t res u)
  from assms show ?thesis
  proof (cases rule: store_resolve_effect [where claim = c and t = t and res = res and u = u])
    case refused
    with CsResolve store_inv_claims [OF assms, of "store_step x st" "rk_recordId c"] show ?thesis by auto
  next
    case (applied stored r)
    then have f: "filed (rk_recordId c) (r\<lparr>kr_revision := u, kr_capacity := cap\<rparr>)" for cap
      using assms by (auto simp: store_inv_def filed_def)
    show ?thesis
    proof (cases "resolvedCapacity c t res")
      case None
      show ?thesis unfolding CsResolve store_step.simps
        by (rule store_inv_drop [OF assms, of _ "rk_recordId c"]) (simp_all add: applied None)
    next
      case (Some cap)
      show ?thesis unfolding CsResolve store_step.simps
        by (rule store_inv_update [OF assms f [of cap]]) (simp_all add: applied Some)
    qed
  qed
next
  case (CsRelease c)
  with store_release_effect [of c st] store_inv_claims [OF assms, of "store_step x st" "rk_recordId c"] show ?thesis by auto
next
  case (CsClear a)
  with store_clear_effect [OF assms, of a] assms show ?thesis
    by (auto simp: store_inv_def claim_fits_def split: if_splits)
qed

lemma store_inv_steps: "store_inv st \<Longrightarrow> store_inv (store_steps xs st)"
  by (induction xs arbitrary: st) (auto simp: store_inv_step)

lemma store_inv_new: "store_inv store_new"
  by (simp add: store_inv_def store_new_def)

section \<open>Invalid sessions\<close>

definition session_blocked :: "capacity_record \<Rightarrow> bool" where
  "session_blocked r \<longleftrightarrow> ca_availability (kr_capacity r) = Disabled \<and>
     ca_reason (kr_capacity r) = Some session_invalid \<and> ca_cooldownUntil (kr_capacity r) = None"

lemma severity_le_70: "severity c \<le> 70"
  unfolding severity_def by (cases "ca_availability c") auto

lemma severity_70: "severity c = 70 \<longleftrightarrow> ca_availability c = Disabled"
  unfolding severity_def by (cases "ca_availability c") auto

lemma session_invalid_not_Nil [simp]: "session_invalid \<noteq> []"
  by (simp add: session_invalid_def)

lemma normalized_signal_disabled:
  assumes "normalizeWorkerAccountCapacitySignal s = Some c" and "ca_availability c = Disabled"
  shows "ca_cooldownUntil c = None" and "ca_reason c = Some session_invalid"
  using assms
  by (auto simp: normalizeWorkerAccountCapacitySignal_def Let_def isPersistableWorkerAccountCapacity_def truthy_def
      split: option.splits if_splits)

lemma session_blocked_keeps:
  assumes "session_blocked r" and "normalizeWorkerAccountCapacitySignal s = Some c"
  shows "ks_phase (stateFromRecord r now) = Blocking" and "shouldKeepExistingWorkerAccountCapacity (kr_capacity r) c"
proof -
  show "ks_phase (stateFromRecord r now) = Blocking"
    using assms(1) by (simp add: session_blocked_def stateFromRecord_phase)
  have "severity (kr_capacity r) = 70" using assms(1) by (simp add: session_blocked_def severity_70)
  then show "shouldKeepExistingWorkerAccountCapacity (kr_capacity r) c"
    using severity_le_70 [of c] normalized_signal_disabled(1) [OF assms(2)] severity_70 [of c]
    by (auto simp: keep_iff_le capacity_le_def reset_le_def)
qed

lemma session_blocked_no_claim:
  "store_inv st \<Longrightarrow> map_of (st_records st) k = Some r \<Longrightarrow> session_blocked r \<Longrightarrow> map_of (st_claims st) k = None"
  by (cases "map_of (st_claims st) k") (fastforce simp: store_inv_def claim_fits_def session_blocked_def)+

fun clears_key :: "string \<Rightarrow> store_op \<Rightarrow> bool" where
  "clears_key k (CsClear a) = clears a k"
| "clears_key k _ = False"

lemma session_blocked_step:
  assumes "store_inv st" and "map_of (st_records st) k = Some r" and "session_blocked r" and "\<not> clears_key k x"
  shows "map_of (st_records (store_step x st)) k = Some r"
proof (cases x)
  case (CsObserve s u)
  show ?thesis
  proof (cases rule: store_observe_effect [of s u st])
    case same
    with CsObserve assms show ?thesis by simp
  next
    case (refreshed k' r')
    with session_blocked_no_claim [OF assms(1-3)] have "k' \<noteq> k" by auto
    with refreshed CsObserve assms show ?thesis by simp
  next
    case (recorded k' r')
    have "k' \<noteq> k"
      using session_blocked_keeps [OF assms(3) recorded(4)] recorded(7) assms(2) by blast
    with recorded CsObserve assms show ?thesis by simp
  qed
next
  case (CsClaim input owner now ttl mode u)
  then show ?thesis using assms(2) by (cases rule: store_claim_effect [of input owner now ttl mode u st]) simp_all
next
  case (CsResolve c t res u)
  from assms(1) show ?thesis
  proof (cases rule: store_resolve_effect [where claim = c and t = t and res = res and u = u])
    case refused
    with CsResolve assms show ?thesis by simp
  next
    case (applied stored r')
    with session_blocked_no_claim [OF assms(1-3)] have "rk_recordId c \<noteq> k" by auto
    with applied CsResolve assms show ?thesis by (simp split: option.split)
  qed
next
  case (CsRelease c)
  with assms store_release_effect(1) show ?thesis by simp
next
  case (CsClear a)
  with assms store_clear_effect(1) [OF assms(1)] show ?thesis by simp
qed

lemma session_blocked_steps:
  assumes "store_inv st" and "map_of (st_records st) k = Some r" and "session_blocked r"
    and "list_all (\<lambda>x. \<not> clears_key k x) xs"
  shows "map_of (st_records (store_steps xs st)) k = Some r"
  using assms by (induction xs arbitrary: st) (auto simp: session_blocked_step store_inv_step)

section \<open>Recheck claims\<close>

fun leaves_claim :: "string \<Rightarrow> recheck_claim \<Rightarrow> store_op \<Rightarrow> bool" where
  "leaves_claim k c (CsObserve s u) = (signal_key s \<noteq> Some k)"
| "leaves_claim k c (CsClaim input owner now ttl mode u) = (kr_recordId input = k \<longrightarrow> date_lt now (rk_expiresAt c))"
| "leaves_claim k c (CsResolve c' t res u) = (rk_recordId c' = k \<longrightarrow> rk_claimId c' \<noteq> rk_claimId c)"
| "leaves_claim k c (CsRelease c') = (rk_recordId c' = k \<longrightarrow> rk_claimId c' \<noteq> rk_claimId c)"
| "leaves_claim k c (CsClear a) = (\<not> clears a k)"

lemma claim_survives_step:
  assumes "store_inv st" and "map_of (st_claims st) k = Some c" and "leaves_claim k c x"
  shows "map_of (st_claims (store_step x st)) k = Some c \<and> map_of (st_records (store_step x st)) k = map_of (st_records st) k"
proof (cases x)
  case (CsObserve s u)
  then show ?thesis using assms(2,3) by (cases rule: store_observe_effect [of s u st]) auto
next
  case (CsClaim input owner now ttl mode u)
  show ?thesis
  proof (cases rule: store_claim_effect [of input owner now ttl mode u st])
    case same
    with CsClaim assms show ?thesis by simp
  next
    case (claimed r c')
    then have "kr_recordId r = kr_recordId input" using assms(1) by (auto simp: store_inv_def filed_def)
    with claimed CsClaim assms(2,3) show ?thesis by auto
  qed
next
  case (CsResolve c' t res u)
  from assms(1) show ?thesis
  proof (cases rule: store_resolve_effect [where claim = c' and t = t and res = res and u = u])
    case refused
    with CsResolve assms(2,3) show ?thesis by auto
  next
    case (applied stored r)
    with CsResolve assms(2,3) show ?thesis by (auto split: option.split)
  qed
next
  case (CsRelease c')
  with assms(2,3) store_release_effect [of c' st] show ?thesis by auto
next
  case (CsClear a)
  with assms store_clear_effect(1,2) [OF assms(1)] show ?thesis by simp
qed

lemma claim_survives_steps:
  assumes "store_inv st" and "map_of (st_claims st) k = Some c" and "list_all (leaves_claim k c) xs"
  shows "map_of (st_claims (store_steps xs st)) k = Some c \<and> map_of (st_records (store_steps xs st)) k = map_of (st_records st) k"
  using assms
proof (induction xs arbitrary: st)
  case (Cons x xs)
  with claim_survives_step [OF Cons.prems(1,2)] store_inv_step [OF Cons.prems(1)] show ?case by simp
qed simp

lemma resolve_own_claim:
  assumes "store_inv st" and "map_of (st_claims st) k = Some c" and "\<not> date_le (rk_expiresAt c) t"
  shows "\<exists>r. map_of (st_records st) k = Some r \<and>
    fst (store_resolveRecheck c t res u st) =
      Applied (map_option (\<lambda>cap. stateFromRecord (r\<lparr>kr_revision := u, kr_capacity := cap\<rparr>) t) (resolvedCapacity c t res)) \<and>
    map_of (st_records (snd (store_resolveRecheck c t res u st))) k =
      map_option (\<lambda>cap. r\<lparr>kr_revision := u, kr_capacity := cap\<rparr>) (resolvedCapacity c t res) \<and>
    map_of (st_claims (snd (store_resolveRecheck c t res u st))) k = None"
proof -
  from assms(1,2) obtain r where r: "rk_recordId c = k" "map_of (st_records st) k = Some r" "rk_baseRevision c = kr_revision r"
    by (fastforce simp: store_inv_def claim_fits_def)
  from assms(1) show ?thesis
  proof (cases rule: store_resolve_effect [where claim = c and t = t and res = res and u = u])
    case refused
    with assms(2,3) r show ?thesis by auto
  next
    case (applied stored r')
    with r show ?thesis by (auto split: option.split)
  qed
qed

end
