(* ===== verification/Account_Leases.thy ===== *)
theory Account_Leases
  imports Capacity_Store
begin

text \<open>
  The leases by which workers share accounts: \<open>WorkerAccountLease\<close> and the resource key of
  \<open>src/worker-core/account-capacity-selection/domain/runtime-account-selection.ts\<close>, the results of
  \<open>ports/worker-account-lease-store-port.ts\<close> and the in-memory store of
  \<open>adapters/in-memory-worker-account-lease-store.ts\<close>. A lease names an account, for one demand or
  for none, belongs to one owner until it expires, and carries a fencing token.
\<close>

section \<open>Definitions\<close>

record account_lease =
  al_leaseId :: string
  al_fencingToken :: nat
  al_accountId :: string
  al_demand :: "runtime_demand option"
  al_ownerId :: string
  al_acquiredAt :: date
  al_expiresAt :: date

definition workerAccountLeaseResourceKey :: "string \<Rightarrow> runtime_demand option \<Rightarrow> string" where
  "workerAccountLeaseResourceKey accountId demand = accountId @ nul # or_blank (workerRuntimeDemandKey demand)"

datatype acquire_result = LeaseGranted account_lease | LeaseDenied date

datatype renew_result = LeaseRenewed account_lease | LeaseLostExpired | LeaseLostNotCurrent

datatype lease_error =
    LeaseAccountIdRequired | LeaseOwnerIdRequired | LeaseTtlInvalid | LeaseIdRequired

record lease_store =
  le_records :: "(string \<times> account_lease) list"
  le_nextLeaseSequence :: nat

definition lease_store_new :: lease_store where
  "lease_store_new = \<lparr>le_records = [], le_nextLeaseSequence = 0\<rparr>"

definition lease_ttl_invalid :: "jsnum \<Rightarrow> bool" where
  "lease_ttl_invalid ttl = (\<not> js_isFinite ttl \<or> js_le ttl (Fin 0))"

definition lease_acquire ::
    "string \<Rightarrow> runtime_demand option \<Rightarrow> string \<Rightarrow> jsnum \<Rightarrow> date \<Rightarrow> lease_store \<Rightarrow>
      (lease_error + acquire_result) \<times> lease_store" where
  "lease_acquire inputAccount inputDemand inputOwner ttlMs now st =
     (case normalizeWorkerAccountId (Some inputAccount) of
        None \<Rightarrow> (Inl LeaseAccountIdRequired, st)
      | Some accountId \<Rightarrow>
        let ownerId = js_trim inputOwner in
        if ownerId = [] then (Inl LeaseOwnerIdRequired, st)
        else if lease_ttl_invalid ttlMs then (Inl LeaseTtlInvalid, st)
        else
          let demand = normalizeWorkerRuntimeDemand inputDemand;
              key = workerAccountLeaseResourceKey accountId demand;
              live = (case map_of (le_records st) key of None \<Rightarrow> None
                | Some current \<Rightarrow> if js_lt (getTime now) (getTime (al_expiresAt current)) then Some current else None)
          in (case live of
                Some current \<Rightarrow>
                  if al_ownerId current = ownerId then (Inr (LeaseGranted current), st)
                  else (Inr (LeaseDenied (al_expiresAt current)), st)
              | None \<Rightarrow>
                  let token = le_nextLeaseSequence st + 1;
                      lease = \<lparr>al_leaseId = ownerId @ CHR '':'' # nat_digits token, al_fencingToken = token,
                               al_accountId = accountId, al_demand = demand, al_ownerId = ownerId,
                               al_acquiredAt = now, al_expiresAt = newDate (js_add (getTime now) ttlMs)\<rparr>
                  in (Inr (LeaseGranted lease),
                      \<lparr>le_records = AList.update key lease (le_records st), le_nextLeaseSequence = token\<rparr>)))"

definition lease_named :: "string \<Rightarrow> string \<Rightarrow> string \<times> account_lease \<Rightarrow> bool" where
  "lease_named leaseId ownerId entry = (al_leaseId (snd entry) = leaseId \<and> al_ownerId (snd entry) = ownerId)"

definition lease_renew ::
    "string \<Rightarrow> string \<Rightarrow> jsnum \<Rightarrow> date \<Rightarrow> lease_store \<Rightarrow> (lease_error + renew_result) \<times> lease_store" where
  "lease_renew inputLease inputOwner ttlMs now st =
     (let leaseId = js_trim inputLease; ownerId = js_trim inputOwner in
      if leaseId = [] then (Inl LeaseIdRequired, st)
      else if ownerId = [] then (Inl LeaseOwnerIdRequired, st)
      else if lease_ttl_invalid ttlMs then (Inl LeaseTtlInvalid, st)
      else
        (case List.find (lease_named leaseId ownerId) (le_records st) of
           None \<Rightarrow> (Inr LeaseLostNotCurrent, st)
         | Some (key, lease) \<Rightarrow>
             if js_le (getTime (al_expiresAt lease)) (getTime now) then (Inr LeaseLostExpired, st)
             else
               let renewed = lease\<lparr>al_expiresAt :=
                     newDate (js_max (getTime (al_expiresAt lease)) (js_add (getTime now) ttlMs))\<rparr>
               in (Inr (LeaseRenewed renewed), st\<lparr>le_records := AList.update key renewed (le_records st)\<rparr>)))"

definition lease_release :: "string \<Rightarrow> string \<Rightarrow> lease_store \<Rightarrow> lease_store" where
  "lease_release leaseId inputOwner st =
     (case List.find (lease_named leaseId (js_trim inputOwner)) (le_records st) of
        None \<Rightarrow> st
      | Some (key, lease) \<Rightarrow> st\<lparr>le_records := AList.delete key (le_records st)\<rparr>)"

datatype lease_op =
    LAcquire string "runtime_demand option" string jsnum date
  | LRenew string string jsnum date
  | LRelease string string

fun lease_step :: "lease_op \<Rightarrow> lease_store \<Rightarrow> lease_store" where
  "lease_step (LAcquire a d owner ttl now) st = snd (lease_acquire a d owner ttl now st)"
| "lease_step (LRenew l owner ttl now) st = snd (lease_renew l owner ttl now st)"
| "lease_step (LRelease l owner) st = lease_release l owner st"

fun lease_steps :: "lease_op list \<Rightarrow> lease_store \<Rightarrow> lease_store" where
  "lease_steps [] st = st"
| "lease_steps (x # xs) st = lease_steps xs (lease_step x st)"

section \<open>Lease ids\<close>

lemma append_last_separator_inject:
  assumes "c \<notin> set b" and "c \<notin> set b'"
  shows "a @ c # b = a' @ c # b' \<longleftrightarrow> a = a' \<and> b = b'"
proof -
  have "rev (a @ c # b) = rev (a' @ c # b') \<longleftrightarrow> rev b = rev b' \<and> rev a = rev a'"
    using append_separator_inject [of c "rev b" "rev b'" "rev a" "rev a'"] assms by simp
  then show ?thesis unfolding rev_is_rev_conv by blast
qed

lemma colon_not_digit: "CHR '':'' \<notin> set (nat_digits n)"
proof
  assume "CHR '':'' \<in> set (nat_digits n)"
  with nat_digits_chars [of n] obtain d where "d < 10" "CHR '':'' = (char_of (48 + d :: nat) :: char)"
    by (auto simp: list_all_iff)
  then have "(of_char CHR '':'' :: nat) = of_char (char_of (48 + d :: nat) :: char)" by simp
  with \<open>d < 10\<close> show False by simp
qed

lemma lease_id_inject:
  "o1 @ CHR '':'' # nat_digits m = o2 @ CHR '':'' # nat_digits n \<longleftrightarrow> o1 = o2 \<and> m = n"
  using append_last_separator_inject [OF colon_not_digit colon_not_digit] nat_digits_inj by auto

section \<open>The effect of each operation\<close>

text \<open>The lease in force for an account and a demand at a moment.\<close>

definition lease_key :: "string \<Rightarrow> runtime_demand option \<Rightarrow> string option" where
  "lease_key a d = map_option (\<lambda>acc. workerAccountLeaseResourceKey acc (normalizeWorkerRuntimeDemand d))
     (normalizeWorkerAccountId (Some a))"

definition live_lease :: "string \<Rightarrow> date \<Rightarrow> lease_store \<Rightarrow> account_lease option" where
  "live_lease k now st = (case map_of (le_records st) k of None \<Rightarrow> None
     | Some l \<Rightarrow> if date_lt now (al_expiresAt l) then Some l else None)"

lemma lease_acquire_effect [case_names invalid held busy fresh]:
  obtains (invalid) e where "lease_acquire a d owner ttl now st = (Inl e, st)"
      "lease_key a d = None \<or> js_trim owner = [] \<or> lease_ttl_invalid ttl"
  | (held) k l where "lease_key a d = Some k" "live_lease k now st = Some l" "al_ownerId l = js_trim owner"
      "lease_acquire a d owner ttl now st = (Inr (LeaseGranted l), st)"
  | (busy) k l where "lease_key a d = Some k" "live_lease k now st = Some l" "al_ownerId l \<noteq> js_trim owner"
      "lease_acquire a d owner ttl now st = (Inr (LeaseDenied (al_expiresAt l)), st)"
  | (fresh) k l acc where "lease_key a d = Some k" "live_lease k now st = None" "js_trim owner \<noteq> []"
      "\<not> lease_ttl_invalid ttl" "normalizeWorkerAccountId (Some a) = Some acc"
      "l = \<lparr>al_leaseId = js_trim owner @ CHR '':'' # nat_digits (le_nextLeaseSequence st + 1),
            al_fencingToken = le_nextLeaseSequence st + 1, al_accountId = acc,
            al_demand = normalizeWorkerRuntimeDemand d, al_ownerId = js_trim owner, al_acquiredAt = now,
            al_expiresAt = newDate (js_add (getTime now) ttl)\<rparr>"
      "lease_acquire a d owner ttl now st = (Inr (LeaseGranted l),
         \<lparr>le_records = AList.update k l (le_records st), le_nextLeaseSequence = le_nextLeaseSequence st + 1\<rparr>)"
proof (cases "lease_key a d = None \<or> js_trim owner = [] \<or> lease_ttl_invalid ttl")
  case True
  then have "\<exists>e. lease_acquire a d owner ttl now st = (Inl e, st)"
    by (auto simp: lease_acquire_def lease_key_def Let_def split: option.split)
  with True invalid show thesis by blast
next
  case False
  then obtain acc where acc: "normalizeWorkerAccountId (Some a) = Some acc" "js_trim owner \<noteq> []" "\<not> lease_ttl_invalid ttl"
    by (auto simp: lease_key_def)
  let ?k = "workerAccountLeaseResourceKey acc (normalizeWorkerRuntimeDemand d)"
  have k: "lease_key a d = Some ?k" using acc by (simp add: lease_key_def)
  have live: "(case map_of (le_records st) ?k of None \<Rightarrow> None
      | Some current \<Rightarrow> if js_lt (getTime now) (getTime (al_expiresAt current)) then Some current else None) = live_lease ?k now st"
    by (simp add: live_lease_def date_lt_getTime split: option.split)
  note eq = lease_acquire_def [of a d owner ttl now st] acc Let_def live
  show thesis
  proof (cases "live_lease ?k now st")
    case None
    show thesis by (rule fresh [OF k None acc(2,3,1) refl]) (simp add: eq None)
  next
    case (Some l)
    show thesis
    proof (cases "al_ownerId l = js_trim owner")
      case True
      show thesis by (rule held [OF k Some True]) (simp add: eq Some True)
    next
      case False
      show thesis by (rule busy [OF k Some False]) (simp add: eq Some False)
    qed
  qed
qed

section \<open>The invariant\<close>

text \<open>
  Every lease is filed under the key of its account and demand, is named by its owner and its
  token, holds a token the store has already given out, and shares it with no other lease.
\<close>

definition lease_ok :: "nat \<Rightarrow> string \<Rightarrow> account_lease \<Rightarrow> bool" where
  "lease_ok n k l \<longleftrightarrow> k = workerAccountLeaseResourceKey (al_accountId l) (al_demand l) \<and>
     al_leaseId l = al_ownerId l @ CHR '':'' # nat_digits (al_fencingToken l) \<and>
     al_fencingToken l \<le> n \<and> js_trim (al_ownerId l) = al_ownerId l \<and> al_ownerId l \<noteq> [] \<and>
     newDate (getTime (al_expiresAt l)) = al_expiresAt l"

definition lease_inv :: "lease_store \<Rightarrow> bool" where
  "lease_inv st \<longleftrightarrow> jsmap_ok (le_records st) \<and>
     (\<forall>k l. map_of (le_records st) k = Some l \<longrightarrow> lease_ok (le_nextLeaseSequence st) k l) \<and>
     (\<forall>k l k' l'. map_of (le_records st) k = Some l \<and> map_of (le_records st) k' = Some l' \<and>
        al_fencingToken l = al_fencingToken l' \<longrightarrow> k = k')"

lemma find_SomeD: "List.find P xs = Some x \<Longrightarrow> P x \<and> x \<in> set xs"
  by (induction xs) (auto split: if_splits)

lemma find_lease:
  assumes "jsmap_ok m"
  shows "List.find (lease_named i owner) m = None \<Longrightarrow> \<forall>k l. map_of m k = Some l \<longrightarrow> al_leaseId l \<noteq> i \<or> al_ownerId l \<noteq> owner"
    and "List.find (lease_named i owner) m = Some (k, l) \<Longrightarrow> map_of m k = Some l \<and> al_leaseId l = i \<and> al_ownerId l = owner"
proof -
  show "\<forall>k l. map_of m k = Some l \<longrightarrow> al_leaseId l \<noteq> i \<or> al_ownerId l \<noteq> owner" if "List.find (lease_named i owner) m = None"
    using that unfolding find_None_iff map_of_eq_Some_iff [OF assms] by (auto simp: lease_named_def)
  show "map_of m k = Some l \<and> al_leaseId l = i \<and> al_ownerId l = owner" if "List.find (lease_named i owner) m = Some (k, l)"
    using find_SomeD [OF that] unfolding map_of_eq_Some_iff [OF assms] by (simp add: lease_named_def)
qed

lemma lease_renew_effect [consumes 1, case_names same renewed]:
  assumes "lease_inv st"
  obtains (same) "snd (lease_renew i owner ttl now st) = st"
      "js_trim i = [] \<or> js_trim owner = [] \<or> lease_ttl_invalid ttl \<or>
       (\<forall>k l. map_of (le_records st) k = Some l \<and> al_leaseId l = js_trim i \<and> al_ownerId l = js_trim owner \<longrightarrow>
          date_le (al_expiresAt l) now)"
  | (renewed) k l l' where "map_of (le_records st) k = Some l" "al_leaseId l = js_trim i" "al_ownerId l = js_trim owner"
      "\<not> date_le (al_expiresAt l) now"
      "l' = l\<lparr>al_expiresAt := newDate (js_max (getTime (al_expiresAt l)) (js_add (getTime now) ttl))\<rparr>"
      "lease_renew i owner ttl now st = (Inr (LeaseRenewed l'), st\<lparr>le_records := AList.update k l' (le_records st)\<rparr>)"
proof -
  from assms have ok: "jsmap_ok (le_records st)" by (simp add: lease_inv_def)
  show thesis
  proof (cases "js_trim i = [] \<or> js_trim owner = [] \<or> lease_ttl_invalid ttl")
    case True
    then show thesis by (intro same) (auto simp: lease_renew_def Let_def)
  next
    case False
    note args = this
    show thesis
    proof (cases "List.find (lease_named (js_trim i) (js_trim owner)) (le_records st)")
      case None
      with find_lease(1) [OF ok None] args show thesis by (intro same) (auto simp: lease_renew_def Let_def)
    next
      case (Some entry)
      obtain k l where entry: "entry = (k, l)" by (cases entry)
      from find_lease(2) [OF ok Some [unfolded entry]] have l: "map_of (le_records st) k = Some l"
        "al_leaseId l = js_trim i" "al_ownerId l = js_trim owner" by blast+
      show thesis
      proof (cases "date_le (al_expiresAt l) now")
        case True
        have "k' = k \<and> l' = l" if "map_of (le_records st) k' = Some l'" "al_leaseId l' = js_trim i" "al_ownerId l' = js_trim owner" for k' l'
          using assms that l unfolding lease_inv_def lease_ok_def by (metis lease_id_inject option.inject)
        with True Some entry args show thesis
          by (intro same) (auto simp: lease_renew_def Let_def date_le_getTime)
      next
        case False
        with Some entry args show thesis
          by (intro renewed [OF l False refl]) (simp add: lease_renew_def Let_def date_le_getTime)
      qed
    qed
  qed
qed

lemma lease_release_effect [consumes 1, case_names same released]:
  assumes "lease_inv st"
  obtains (same) "lease_release i owner st = st"
      "\<forall>k l. map_of (le_records st) k = Some l \<longrightarrow> al_leaseId l \<noteq> i \<or> al_ownerId l \<noteq> js_trim owner"
  | (released) k l where "map_of (le_records st) k = Some l" "al_leaseId l = i" "al_ownerId l = js_trim owner"
      "lease_release i owner st = st\<lparr>le_records := AList.delete k (le_records st)\<rparr>"
proof -
  from assms have ok: "jsmap_ok (le_records st)" by (simp add: lease_inv_def)
  show thesis
  proof (cases "List.find (lease_named i (js_trim owner)) (le_records st)")
    case None
    with find_lease(1) [OF ok None] show thesis by (intro same) (auto simp: lease_release_def)
  next
    case (Some entry)
    obtain k l where entry: "entry = (k, l)" by (cases entry)
    from find_lease(2) [OF ok Some [unfolded entry]] Some entry show thesis
      by (intro released [of k l]) (auto simp: lease_release_def)
  qed
qed

lemma newDate_idem [simp]: "newDate (getTime (newDate x)) = newDate x"
proof (cases x)
  case (Fin r)
  have "\<bar>of_int (js_trunc r) :: rat\<bar> \<le> 8640000000000000" if "\<bar>r\<bar> \<le> 8640000000000000"
  proof (cases "0 \<le> r")
    case True
    then have "\<bar>of_int (js_trunc r)\<bar> \<le> r" by (simp add: js_trunc_def)
    with that True show ?thesis by linarith
  next
    case False
    then have "\<lceil>r\<rceil> \<le> 0" "r \<le> of_int \<lceil>r\<rceil>" by simp_all
    then have "\<bar>of_int (js_trunc r)\<bar> \<le> - r" using False by (simp add: js_trunc_def)
    with that False show ?thesis by linarith
  qed
  with Fin show ?thesis by simp
qed simp_all

lemma lease_inv_step:
  assumes "lease_inv st"
  shows "lease_inv (lease_step x st)"
proof (cases x)
  case (LAcquire a d owner ttl now)
  show ?thesis
  proof (cases rule: lease_acquire_effect [of a d owner ttl now st])
    case (fresh k l acc)
    have "lease_ok (le_nextLeaseSequence st + 1) k l"
      using fresh by (auto simp: lease_ok_def lease_key_def)
    moreover have "al_fencingToken l = le_nextLeaseSequence st + 1" using fresh by simp
    ultimately show ?thesis
      using assms fresh(7) LAcquire unfolding lease_inv_def
      by (fastforce simp: lease_ok_def split: if_splits)
  qed (use LAcquire assms in simp_all)
next
  case (LRenew i owner ttl now)
  from assms show ?thesis
  proof (cases rule: lease_renew_effect [where i = i and owner = owner and ttl = ttl and now = now])
    case same
    with LRenew assms show ?thesis by simp
  next
    case (renewed k l l')
    have "lease_ok (le_nextLeaseSequence st) k l'" "al_fencingToken l' = al_fencingToken l"
      using assms renewed by (auto simp: lease_inv_def lease_ok_def)
    with assms renewed(1,6) LRenew show ?thesis
      unfolding lease_inv_def by (fastforce split: if_splits)
  qed
next
  case (LRelease i owner)
  from assms show ?thesis
  proof (cases rule: lease_release_effect [where i = i and owner = owner])
    case same
    with LRelease assms show ?thesis by simp
  next
    case (released k l)
    with assms LRelease show ?thesis unfolding lease_inv_def by (fastforce split: if_splits)
  qed
qed

lemma lease_inv_steps: "lease_inv st \<Longrightarrow> lease_inv (lease_steps xs st)"
  by (induction xs arbitrary: st) (simp_all add: lease_inv_step)

lemma lease_inv_new: "lease_inv lease_store_new"
  by (simp add: lease_inv_def lease_store_new_def)

section \<open>A lease in force\<close>

definition same_lease :: "account_lease \<Rightarrow> account_lease \<Rightarrow> bool" where
  "same_lease l l' \<longleftrightarrow> l' = l\<lparr>al_expiresAt := al_expiresAt l'\<rparr>"

lemma same_lease_simps:
  assumes "same_lease l l'"
  shows "al_leaseId l' = al_leaseId l" "al_ownerId l' = al_ownerId l" "al_fencingToken l' = al_fencingToken l"
  using assms by (cases l; cases l'; simp add: same_lease_def)+

lemma same_lease_refl [simp]: "same_lease l l"
  by (simp add: same_lease_def)

lemma same_lease_renewed: "same_lease l l' \<Longrightarrow> same_lease l (l'\<lparr>al_expiresAt := e\<rparr>)"
  by (cases l; cases l') (simp add: same_lease_def)

text \<open>The lease, or a renewal of it that ends no earlier, is stored under the key.\<close>

definition lease_kept :: "string \<Rightarrow> account_lease \<Rightarrow> lease_store \<Rightarrow> bool" where
  "lease_kept k l st \<longleftrightarrow> (\<exists>l'. map_of (le_records st) k = Some l' \<and> same_lease l l' \<and> date_le (al_expiresAt l) (al_expiresAt l'))"

text \<open>
  A call that leaves a lease alone: it does not release it, acquires the same key only before the
  lease ends, and renews it only at a valid time and to a valid time.
\<close>

fun leaves_account :: "string \<Rightarrow> account_lease \<Rightarrow> lease_op \<Rightarrow> bool" where
  "leaves_account k l (LAcquire a d owner ttl now) = (lease_key a d = Some k \<longrightarrow> date_lt now (al_expiresAt l))"
| "leaves_account k l (LRenew i owner ttl now) =
     (js_trim i = al_leaseId l \<longrightarrow> valid_date (newDate (js_add (getTime now) ttl)))"
| "leaves_account k l (LRelease i owner) = (i \<noteq> al_leaseId l \<or> js_trim owner \<noteq> al_ownerId l)"

lemma lease_kept_live:
  "lease_kept k l st \<Longrightarrow> date_lt now (al_expiresAt l) \<Longrightarrow> \<exists>l'. live_lease k now st = Some l' \<and> same_lease l l' \<and>
     date_le (al_expiresAt l) (al_expiresAt l')"
  using date_lt_le_trans unfolding lease_kept_def live_lease_def by fastforce

lemma newDate_max_later:
  assumes "newDate (getTime e) = e" and "valid_date e" and "valid_date (newDate x)"
  shows "date_le e (newDate (js_max (getTime e) x))"
proof -
  from assms(2) obtain t where t: "e = Instant t" by (cases e) auto
  from assms(3) obtain r where r: "x = Fin r" "\<bar>r\<bar> \<le> 8640000000000000" by (cases x) (auto split: if_splits)
  have "t \<le> js_trunc r" if "of_int t \<le> r"
  proof (cases "0 \<le> r")
    case True
    with that show ?thesis by (simp add: js_trunc_def le_floor_iff)
  next
    case False
    with that have "(of_int t :: rat) \<le> of_int \<lceil>r\<rceil>" by (meson le_of_int_ceiling order_trans)
    with False show ?thesis by (simp add: js_trunc_def)
  qed
  with assms(1) t r show ?thesis by (auto simp: max_def split: if_splits)
qed

lemma lease_kept_step:
  assumes "lease_inv st" and "lease_kept k l st" and "leaves_account k l x"
  shows "lease_kept k l (lease_step x st)"
proof -
  from assms(2) obtain l0 where l0: "map_of (le_records st) k = Some l0" "same_lease l l0"
    "date_le (al_expiresAt l) (al_expiresAt l0)" by (auto simp: lease_kept_def)
  show ?thesis
  proof (cases x)
    case (LAcquire a d owner ttl now)
    show ?thesis
    proof (cases rule: lease_acquire_effect [of a d owner ttl now st])
      case (fresh k' l' acc)
      have "k' \<noteq> k" using lease_kept_live [OF assms(2), of now] assms(3) fresh(1,2) LAcquire by auto
      with l0 fresh(7) LAcquire show ?thesis by (auto simp: lease_kept_def)
    qed (use LAcquire assms(2) in simp_all)
  next
    case (LRenew i owner ttl now)
    from assms(1) show ?thesis
    proof (cases rule: lease_renew_effect [where i = i and owner = owner and ttl = ttl and now = now])
      case same
      with LRenew assms(2) show ?thesis by simp
    next
      case (renewed k' l1 l')
      show ?thesis
      proof (cases "k' = k")
        case True
        with renewed l0 have "l1 = l0" by simp
        moreover have "newDate (getTime (al_expiresAt l0)) = al_expiresAt l0"
          using assms(1) l0(1) by (auto simp: lease_inv_def lease_ok_def)
        moreover have "valid_date (newDate (js_add (getTime now) ttl))"
          using assms(3) LRenew renewed(2) \<open>l1 = l0\<close> same_lease_simps(1) [OF l0(2)] by simp
        ultimately have "date_le (al_expiresAt l0) (al_expiresAt l')"
          using renewed(5) newDate_max_later date_le_valid [OF l0(3)] by simp
        with True renewed l0 \<open>l1 = l0\<close> LRenew show ?thesis
          by (auto simp: lease_kept_def intro: same_lease_renewed date_le_trans)
      next
        case False
        with renewed(6) l0 LRenew show ?thesis by (auto simp: lease_kept_def)
      qed
    qed
  next
    case (LRelease i owner)
    from assms(1) show ?thesis
    proof (cases rule: lease_release_effect [where i = i and owner = owner])
      case same
      with LRelease assms(2) show ?thesis by simp
    next
      case (released k' l1)
      have "k' \<noteq> k" using released(1-3) l0(1) same_lease_simps(1,2) [OF l0(2)] assms(3) LRelease by auto
      with released(4) l0 LRelease show ?thesis by (auto simp: lease_kept_def)
    qed
  qed
qed

lemma lease_kept_steps:
  "lease_inv st \<Longrightarrow> lease_kept k l st \<Longrightarrow> list_all (leaves_account k l) xs \<Longrightarrow> lease_kept k l (lease_steps xs st)"
  by (induction xs arbitrary: st) (simp_all add: lease_inv_step lease_kept_step)

lemma granted_stored:
  assumes "lease_inv st" and "lease_acquire a d owner ttl now st = (Inr (LeaseGranted l), st')"
  shows "\<exists>k. lease_key a d = Some k \<and> map_of (le_records st') k = Some l \<and> al_ownerId l = js_trim owner"
  using assms(2) by (cases rule: lease_acquire_effect [of a d owner ttl now st])
    (auto simp: live_lease_def split: option.splits if_splits)

lemma js_trim_lease_id:
  assumes "js_trim owner = owner" and "owner \<noteq> []"
  shows "js_trim (owner @ CHR '':'' # nat_digits n) = owner @ CHR '':'' # nat_digits n"
proof -
  have "dropWhile js_ws owner = owner"
    using dropWhile_rev_dropWhile [of js_ws owner] assms(1) by (simp add: js_trim_def)
  then have head: "\<not> js_ws (hd owner)" using hd_dropWhile [of js_ws owner] assms(2) by simp
  have "\<not> js_ws c" if "c \<in> set (nat_digits n)" for c
  proof -
    from that nat_digits_chars [of n] obtain d where "d < 10" "c = char_of (48 + d :: nat)" by (auto simp: list_all_iff)
    then have "(of_char c :: nat) = 48 + d" by simp
    with \<open>d < 10\<close> show ?thesis by (auto simp: js_ws_def)
  qed
  then have last: "\<not> js_ws (last (nat_digits n))" by simp
  have 1: "dropWhile js_ws (owner @ CHR '':'' # nat_digits n) = owner @ CHR '':'' # nat_digits n"
    using head assms(2) by (intro dropWhile_id_hd) simp
  have 2: "dropWhile js_ws (rev (owner @ CHR '':'' # nat_digits n)) = rev (owner @ CHR '':'' # nat_digits n)"
    using last by (intro dropWhile_id_hd) (simp add: hd_rev hd_append)
  show ?thesis unfolding js_trim_def 1 2 by simp
qed

section \<open>Fencing tokens\<close>

definition fenced :: "string \<Rightarrow> account_lease \<Rightarrow> lease_store \<Rightarrow> bool" where
  "fenced k l st \<longleftrightarrow> al_fencingToken l \<le> le_nextLeaseSequence st \<and>
     (\<forall>l'. map_of (le_records st) k = Some l' \<longrightarrow> same_lease l l' \<or> al_fencingToken l < al_fencingToken l') \<and>
     (\<forall>k' l'. map_of (le_records st) k' = Some l' \<and> al_fencingToken l' = al_fencingToken l \<longrightarrow> same_lease l l')"

lemma fenced_less:
  assumes "fenced k l st" and "le_nextLeaseSequence st' = le_nextLeaseSequence st"
    and "\<And>k' l'. map_of (le_records st') k' = Some l' \<Longrightarrow>
      \<exists>l0. map_of (le_records st) k' = Some l0 \<and> same_lease l0 l'"
  shows "fenced k l st'"
proof -
  have trans: "same_lease x z" if "same_lease x y" "same_lease y z" for x y z
    using that by (cases x; cases y; cases z) (simp add: same_lease_def)
  have same: "same_lease l l'" if "map_of (le_records st') k' = Some l'" "al_fencingToken l' = al_fencingToken l" for k' l'
  proof -
    from assms(3) [OF that(1)] obtain l0 where l0: "map_of (le_records st) k' = Some l0" "same_lease l0 l'" by blast
    with that(2) same_lease_simps(3) [OF l0(2)] assms(1) have "same_lease l l0" unfolding fenced_def by metis
    with l0(2) show ?thesis by (rule trans [rotated])
  qed
  moreover have "same_lease l l' \<or> al_fencingToken l < al_fencingToken l'" if "map_of (le_records st') k = Some l'" for l'
  proof -
    from assms(3) [OF that] obtain l0 where l0: "map_of (le_records st) k = Some l0" "same_lease l0 l'" by blast
    with assms(1) have "same_lease l l0 \<or> al_fencingToken l < al_fencingToken l0" unfolding fenced_def by blast
    with trans [OF _ l0(2)] same_lease_simps(3) [OF l0(2)] show ?thesis by auto
  qed
  ultimately show ?thesis using assms(1,2) unfolding fenced_def by auto
qed

lemma fenced_step:
  assumes "lease_inv st" and "fenced k l st"
  shows "fenced k l (lease_step x st)"
proof (cases x)
  case (LAcquire a d owner ttl now)
  show ?thesis
  proof (cases rule: lease_acquire_effect [of a d owner ttl now st])
    case (fresh k' l' acc)
    have "al_fencingToken l' = le_nextLeaseSequence st + 1" using fresh(6) by simp
    with assms(2) fresh(7) LAcquire show ?thesis unfolding fenced_def by (auto split: if_splits)
  qed (use LAcquire assms(2) in simp_all)
next
  case (LRenew i owner ttl now)
  from assms(1) show ?thesis
  proof (cases rule: lease_renew_effect [where i = i and owner = owner and ttl = ttl and now = now])
    case same
    with LRenew assms(2) show ?thesis by simp
  next
    case (renewed k' l1 l')
    have "same_lease l1 l'" using renewed(5) same_lease_renewed by simp
    with renewed(1,6) LRenew show ?thesis
      by (intro fenced_less [OF assms(2)]) (auto split: if_splits)
  qed
next
  case (LRelease i owner)
  from assms(1) show ?thesis
  proof (cases rule: lease_release_effect [where i = i and owner = owner])
    case same
    with LRelease assms(2) show ?thesis by simp
  next
    case (released k' l1)
    with LRelease show ?thesis by (intro fenced_less [OF assms(2)]) (auto split: if_splits)
  qed
qed

lemma fenced_steps: "lease_inv st \<Longrightarrow> fenced k l st \<Longrightarrow> fenced k l (lease_steps xs st)"
  by (induction xs arbitrary: st) (simp_all add: lease_inv_step fenced_step)

lemma fenced_granted:
  assumes "lease_inv st" and "map_of (le_records st) k = Some l"
  shows "fenced k l st"
  using assms unfolding fenced_def lease_inv_def lease_ok_def by (metis option.inject same_lease_refl)

lemma reachable_leases: "lease_inv (lease_steps xs lease_store_new)"
  by (rule lease_inv_steps [OF lease_inv_new])

text \<open>
  C33. An account has one user at a time. After an owner was granted a lease, and as long as the
  other calls do not release it and are made before it ends, every attempt of another owner to
  acquire the same account for the same demand before that time is denied, with an end no earlier
  than the lease's, and the holder's own renewal succeeds and keeps the lease's identity.
\<close>

theorem account_lease_exclusive:
  assumes "lease_acquire a d owner ttl now (lease_steps before lease_store_new) = (Inr (LeaseGranted l), st1)"
    and "lease_key a d = Some k" and "list_all (leaves_account k l) between" and "date_lt t (al_expiresAt l)"
    and "lease_key a' d' = Some k" and "js_trim owner' \<notin> {[], al_ownerId l}" and "\<not> lease_ttl_invalid ttl'"
  shows "(\<exists>e. lease_acquire a' d' owner' ttl' t (lease_steps between st1) = (Inr (LeaseDenied e), lease_steps between st1) \<and>
      date_le (al_expiresAt l) e) \<and>
    (\<exists>l'. fst (lease_renew (al_leaseId l) (al_ownerId l) ttl' t (lease_steps between st1)) = Inr (LeaseRenewed l') \<and> same_lease l l')"
proof -
  let ?st0 = "lease_steps before lease_store_new" and ?st2 = "lease_steps between st1"
  have inv: "lease_inv st1" using lease_inv_step [OF reachable_leases [of before], of "LAcquire a d owner ttl now"] assms(1) by simp
  have l: "map_of (le_records st1) k = Some l" using granted_stored [OF reachable_leases assms(1)] assms(2) by simp
  have kept: "lease_kept k l ?st2"
    using lease_kept_steps [OF inv _ assms(3)] l date_lt_valid [OF assms(4)] by (simp add: lease_kept_def)
  have inv2: "lease_inv ?st2" using lease_inv_steps [OF inv] .
  from lease_kept_live [OF kept assms(4)] obtain l2 where
    l2: "live_lease k t ?st2 = Some l2" "same_lease l l2" "date_le (al_expiresAt l) (al_expiresAt l2)" by blast
  then have l2': "map_of (le_records ?st2) k = Some l2" "\<not> date_le (al_expiresAt l2) t"
    by (auto simp: live_lease_def date_lt_not_le split: option.splits if_splits)
  have denied: "lease_acquire a' d' owner' ttl' t ?st2 = (Inr (LeaseDenied (al_expiresAt l2)), ?st2)"
    using assms(5-7) l2 same_lease_simps(2) [OF l2(2)]
    by (cases rule: lease_acquire_effect [of a' d' owner' ttl' t ?st2]) auto
  have ok: "lease_ok (le_nextLeaseSequence ?st2) k l2" using inv2 l2'(1) by (auto simp: lease_inv_def)
  then have names: "js_trim (al_leaseId l2) = al_leaseId l2" "js_trim (al_ownerId l2) = al_ownerId l2"
    "al_leaseId l2 \<noteq> []" "al_ownerId l2 \<noteq> []"
    using js_trim_lease_id by (auto simp: lease_ok_def)
  have "\<exists>l'. fst (lease_renew (al_leaseId l2) (al_ownerId l2) ttl' t ?st2) = Inr (LeaseRenewed l') \<and> same_lease l l'"
    using inv2
  proof (cases rule: lease_renew_effect [where i = "al_leaseId l2" and owner = "al_ownerId l2" and ttl = ttl' and now = t])
    case same
    with names assms(7) l2' show ?thesis by auto
  next
    case (renewed k' l3 l')
    have "k' = k" using renewed(1,2) names l2'(1) inv2 unfolding lease_inv_def lease_ok_def by (metis lease_id_inject)
    with renewed l2 l2' same_lease_renewed [OF l2(2)] show ?thesis by simp
  qed
  with denied l2(3) same_lease_simps(1,2) [OF l2(2)] show ?thesis by auto
qed

text \<open>
  C34. Tokens fence. Of two grants in the history of a store, whatever happens between them, the
  later grant of the same account and demand either is the same lease or carries a strictly larger
  fencing token; and two grants with one token or one lease id are grants of the same lease.
\<close>

theorem fencing_tokens_increase:
  assumes "lease_acquire a d owner ttl now (lease_steps before lease_store_new) = (Inr (LeaseGranted l), st1)"
    and "lease_acquire a' d' owner' ttl' now' (lease_steps between st1) = (Inr (LeaseGranted l'), st2)"
  shows "(lease_key a' d' = lease_key a d \<longrightarrow> same_lease l l' \<or> al_fencingToken l < al_fencingToken l') \<and>
    (al_fencingToken l' = al_fencingToken l \<or> al_leaseId l' = al_leaseId l \<longrightarrow> same_lease l l')"
proof -
  have inv: "lease_inv st1" using lease_inv_step [OF reachable_leases [of before], of "LAcquire a d owner ttl now"] assms(1) by simp
  have inv2: "lease_inv (lease_steps between st1)" "lease_inv st2"
    using lease_inv_steps [OF inv] lease_inv_step [OF lease_inv_steps [OF inv, of between], of "LAcquire a' d' owner' ttl' now'"] assms(2)
    by simp_all
  from granted_stored [OF reachable_leases assms(1)] obtain k where
    k: "lease_key a d = Some k" "map_of (le_records st1) k = Some l" by blast
  from granted_stored [OF inv2(1) assms(2)] obtain k' where
    k': "lease_key a' d' = Some k'" "map_of (le_records st2) k' = Some l'" by blast
  have f: "fenced k l st2"
    using fenced_step [OF inv2(1) fenced_steps [OF inv fenced_granted [OF inv k(2)]], of "LAcquire a' d' owner' ttl' now'"] assms(2)
    by simp
  have "al_leaseId l = al_ownerId l @ CHR '':'' # nat_digits (al_fencingToken l)"
    "al_leaseId l' = al_ownerId l' @ CHR '':'' # nat_digits (al_fencingToken l')"
    using inv inv2(2) k(2) k'(2) by (auto simp: lease_inv_def lease_ok_def)
  then have "al_leaseId l' = al_leaseId l \<longrightarrow> al_fencingToken l' = al_fencingToken l" using lease_id_inject by metis
  with f k k' show ?thesis unfolding fenced_def by auto
qed

lemma digits_one: "nat_digits (Suc 0) = ''1''"
  by (simp add: nat_digits.simps [of "Suc 0"]) (simp add: char_of_def bit_0)

lemma demo_lease:
  "lease_acquire ''acc'' None ''w1'' (Fin 50) (Instant 10) lease_store_new =
     (Inr (LeaseGranted \<lparr>al_leaseId = ''w1:1'', al_fencingToken = 1, al_accountId = ''acc'', al_demand = None,
        al_ownerId = ''w1'', al_acquiredAt = Instant 10, al_expiresAt = Instant 60\<rparr>),
      \<lparr>le_records = [(''acc'' @ [nul], \<lparr>al_leaseId = ''w1:1'', al_fencingToken = 1, al_accountId = ''acc'', al_demand = None,
        al_ownerId = ''w1'', al_acquiredAt = Instant 10, al_expiresAt = Instant 60\<rparr>)], le_nextLeaseSequence = 1\<rparr>)"
  by (simp add: lease_acquire_def lease_store_new_def normalizeWorkerAccountId_def trimmed_def js_trim_def js_ws_def
      lease_ttl_invalid_def normalizeWorkerRuntimeDemand_def workerAccountLeaseResourceKey_def workerRuntimeDemandKey_def
      or_blank_def js_trunc_def Let_def digits_one)

lemma demo_lease_key: "lease_key ''acc'' None = Some (''acc'' @ [nul])"
  by (simp add: lease_key_def normalizeWorkerAccountId_def trimmed_def js_trim_def js_ws_def
      normalizeWorkerRuntimeDemand_def workerAccountLeaseResourceKey_def workerRuntimeDemandKey_def or_blank_def)

theorem account_lease_exclusive_witness:
  "\<exists>st e. fst (lease_acquire ''acc'' None ''w2'' (Fin 50) (Instant 40) (lease_steps [LRelease ''w1:1'' ''w3''] st)) = Inr (LeaseDenied e) \<and>
     st = snd (lease_acquire ''acc'' None ''w1'' (Fin 50) (Instant 10) (lease_steps [] lease_store_new))"
proof -
  have "js_trim ''w2'' = ''w2''" "js_trim ''w3'' = ''w3''" "\<not> lease_ttl_invalid (Fin 50)"
    by (simp_all add: js_trim_def js_ws_def lease_ttl_invalid_def)
  with account_lease_exclusive [of "''acc''" None "''w1''" "Fin 50" "Instant 10" "[]", unfolded lease_steps.simps,
      OF demo_lease demo_lease_key, of "[LRelease ''w1:1'' ''w3'']" "Instant 40" "''acc''" None "''w2''" "Fin 50"]
    demo_lease_key demo_lease
  show ?thesis by auto
qed

theorem fencing_tokens_increase_witness:
  "\<exists>l l' st st'. lease_acquire ''acc'' None ''w1'' (Fin 50) (Instant 10) (lease_steps [] lease_store_new) = (Inr (LeaseGranted l), st) \<and>
     lease_acquire ''acc'' None ''w2'' (Fin 50) (Instant 70) (lease_steps [] st) = (Inr (LeaseGranted l'), st') \<and>
     (same_lease l l' \<or> al_fencingToken l < al_fencingToken l')"
proof -
  let ?st = "snd (lease_acquire ''acc'' None ''w1'' (Fin 50) (Instant 10) lease_store_new)"
  have valid: "js_trim ''w2'' \<noteq> []" "\<not> lease_ttl_invalid (Fin 50)"
    by (simp_all add: js_trim_def js_ws_def lease_ttl_invalid_def)
  have "live_lease (''acc'' @ [nul]) (Instant 70) ?st = None"
    by (simp add: demo_lease live_lease_def)
  then have "\<exists>l' st'. lease_acquire ''acc'' None ''w2'' (Fin 50) (Instant 70) ?st = (Inr (LeaseGranted l'), st')"
    using valid demo_lease_key
    by (cases rule: lease_acquire_effect [of "''acc''" None "''w2''" "Fin 50" "Instant 70" ?st]) auto
  then obtain l' st' where
    2: "lease_acquire ''acc'' None ''w2'' (Fin 50) (Instant 70) (lease_steps [] ?st) = (Inr (LeaseGranted l'), st')" by auto
  have 1: "\<exists>l. lease_acquire ''acc'' None ''w1'' (Fin 50) (Instant 10) (lease_steps [] lease_store_new) = (Inr (LeaseGranted l), ?st)"
    by (simp add: demo_lease)
  then obtain l where l: "lease_acquire ''acc'' None ''w1'' (Fin 50) (Instant 10) (lease_steps [] lease_store_new) = (Inr (LeaseGranted l), ?st)" ..
  from fencing_tokens_increase [OF l 2] l 2 show ?thesis by blast
qed

end
