(* ===== verification/Capacity_Laws.thy ===== *)
theory Capacity_Laws
  imports Capacity_Store
begin

text \<open>
  What the store of account capacities promises over whole histories of calls: the order in which
  records win a read, the records a reachable store can hold, the blocking of accounts and the
  exclusive recheck. The clients of the store (the capacity-aware worker and the account selection)
  use it through the interface \<open>capacity_gate\<close>, which the in-memory store satisfies.
\<close>

section \<open>Choosing a preferred element\<close>

text \<open>
  A reduction that keeps the present choice or takes the next element, where the decision agrees
  with a rank, ends with an element of the highest rank.
\<close>

locale ranked_choice =
  fixes rank :: "'a \<Rightarrow> nat" and keep :: "'a \<Rightarrow> 'a \<Rightarrow> bool"
  assumes keep_rank: "keep old new \<Longrightarrow> rank new \<le> rank old"
    and take_rank: "\<not> keep old new \<Longrightarrow> rank old \<le> rank new"
begin

lemma choice_from:
  "\<exists>x. foldl (\<lambda>sel r. case sel of None \<Rightarrow> Some r | Some s \<Rightarrow> if \<not> keep s r then Some r else Some s) (Some a) xs = Some x \<and>
     x \<in> set (a # xs) \<and> (\<forall>y \<in> set (a # xs). rank y \<le> rank x)"
proof (induction xs arbitrary: a)
  case (Cons b xs)
  show ?case
  proof (cases "keep a b")
    case True
    with Cons [of a] keep_rank [OF True] show ?thesis by (auto intro: le_trans)
  next
    case False
    with Cons [of b] take_rank [OF False] show ?thesis by (auto intro: le_trans)
  qed
qed simp

lemma choice_cases:
  obtains "xs = []" "foldl (\<lambda>sel r. case sel of None \<Rightarrow> Some r | Some s \<Rightarrow> if \<not> keep s r then Some r else Some s) None xs = None"
  | x where "foldl (\<lambda>sel r. case sel of None \<Rightarrow> Some r | Some s \<Rightarrow> if \<not> keep s r then Some r else Some s) None xs = Some x"
      "x \<in> set xs" "\<forall>y \<in> set xs. rank y \<le> rank x"
proof (cases xs)
  case Nil
  with that(1) show thesis by simp
next
  case (Cons a ys)
  from choice_from [of a ys] obtain x where
    x: "foldl (\<lambda>sel r. case sel of None \<Rightarrow> Some r | Some s \<Rightarrow> if \<not> keep s r then Some r else Some s) (Some a) ys = Some x"
      "x \<in> set (a # ys)" "\<forall>y \<in> set (a # ys). rank y \<le> rank x" by blast
  show thesis by (rule that(2) [of x]) (use x Cons in simp_all)
qed

end

interpretation preferred: ranked_choice
  "\<lambda>r. severity (kr_capacity r)"
  "\<lambda>s r. shouldKeepExistingWorkerAccountCapacity (kr_capacity s) (kr_capacity r)"
  by unfold_locales (auto simp: keep_iff_le capacity_le_def)

lemma selectPreferred_cases:
  obtains (none) "List.map_filter id rs = []" "selectPreferredRecord rs now = None"
  | (active) x where "selectPreferredRecord rs now = Some x" "Some x \<in> set rs" "ks_phase (stateFromRecord x now) = Blocking"
      "\<forall>y. Some y \<in> set rs \<and> ks_phase (stateFromRecord y now) = Blocking \<longrightarrow> severity (kr_capacity y) \<le> severity (kr_capacity x)"
  | (due) x where "selectPreferredRecord rs now = Some x" "Some x \<in> set rs"
      "\<forall>y. Some y \<in> set rs \<longrightarrow> ks_phase (stateFromRecord y now) \<noteq> Blocking"
proof -
  have present: "set (List.map_filter id rs) = {x. Some x \<in> set rs}"
    by (force simp: List.map_filter_def)
  let ?act = "filter (\<lambda>r. ks_phase (stateFromRecord r now) = Blocking) (List.map_filter id rs)"
  let ?cand = "if ?act \<noteq> [] then ?act else List.map_filter id rs"
  show thesis
  proof (cases rule: preferred.choice_cases [of ?cand])
    case 1
    then have "List.map_filter id rs = []" by (auto split: if_splits)
    with 1 show thesis by (intro none) (simp_all add: selectPreferredRecord_def Let_def)
  next
    case (2 x)
    then have sel: "selectPreferredRecord rs now = Some x" by (simp add: selectPreferredRecord_def Let_def)
    have act: "set ?act = {y. Some y \<in> set rs \<and> ks_phase (stateFromRecord y now) = Blocking}"
      using present by auto
    show thesis
    proof (cases "?act = []")
      case True
      then have "\<forall>y. Some y \<in> set rs \<longrightarrow> ks_phase (stateFromRecord y now) \<noteq> Blocking"
        using act by auto
      moreover have "Some x \<in> set rs" using 2(2) True present by simp
      ultimately show thesis using due [OF sel] by blast
    next
      case False
      with 2 have "x \<in> set ?act" "\<forall>y \<in> set ?act. severity (kr_capacity y) \<le> severity (kr_capacity x)" by simp_all
      then show thesis using active [OF sel] act by blast
    qed
  qed
qed

section \<open>What a reachable store holds\<close>

text \<open>
  Every stored capacity is a cooldown, an exhausted quota or the mark of an invalid session.
\<close>

definition limits_only :: "capacity_store \<Rightarrow> bool" where
  "limits_only st \<longleftrightarrow> (\<forall>k r. map_of (st_records st) k = Some r \<longrightarrow>
     ca_availability (kr_capacity r) \<in> {Cooldown, QuotaExhausted} \<or> session_blocked r)"

lemma normalized_signal_availability:
  assumes "normalizeWorkerAccountCapacitySignal s = Some c"
  shows "ca_availability c = Cooldown \<or> ca_availability c = QuotaExhausted \<or> ca_availability c = Disabled"
proof -
  have "ca_availability c = Disabled \<or> (ca_availability c = ca_availability (ls_capacity s) \<and>
      isPersistableWorkerAccountCapacity (ls_capacity s))"
    using assms unfolding normalizeWorkerAccountCapacitySignal_def Let_def
    by (auto split: option.split_asm if_split_asm)
  then show ?thesis by (auto simp: isPersistableWorkerAccountCapacity_def)
qed

lemma normalized_signal_limit:
  assumes "normalizeWorkerAccountCapacitySignal s = Some c" and "kr_capacity r = c"
  shows "ca_availability c \<in> {Cooldown, QuotaExhausted} \<or> session_blocked r"
proof (cases "ca_availability c = Disabled")
  case True
  with normalized_signal_disabled [OF assms(1)] assms(2) show ?thesis by (simp add: session_blocked_def)
next
  case False
  with normalized_signal_availability [OF assms(1)] show ?thesis by simp
qed

lemma resolved_limit:
  assumes "resolvedCapacity c t res = Some cap" and "kr_capacity r = cap"
  shows "ca_availability cap \<in> {Cooldown, QuotaExhausted} \<or> session_blocked r"
proof (cases res)
  case (ResolveLimited limit)
  let ?s = "\<lparr>ls_accountId = rk_accountId c, ls_scope = None, ls_demand = rk_demand c, ls_capacity = limit,
    ls_observedAt = t, ls_sourceWorkerId = None, ls_retainExpiredForRecheck = False\<rparr>"
  show ?thesis
  proof (cases "normalizeWorkerAccountCapacitySignal ?s")
    case None
    with ResolveLimited assms show ?thesis by (auto simp: resolvedCapacity_def invalidLimitedRecheckCapacity_def)
  next
    case (Some n)
    with ResolveLimited assms normalized_signal_limit [OF Some, of r] show ?thesis by (simp add: resolvedCapacity_def)
  qed
qed (use assms in \<open>auto simp: resolvedCapacity_def\<close>)

lemma limits_only_update:
  assumes "limits_only st" and "st_records st' = AList.update k r (st_records st)"
    and "ca_availability (kr_capacity r) \<in> {Cooldown, QuotaExhausted} \<or> session_blocked r"
  shows "limits_only st'"
  unfolding limits_only_def
proof (intro allI impI)
  fix k' r'
  assume "map_of (st_records st') k' = Some r'"
  with assms(2) have "(if k' = k then Some r else map_of (st_records st) k') = Some r'" by simp
  with assms(1,3) show "ca_availability (kr_capacity r') \<in> {Cooldown, QuotaExhausted} \<or> session_blocked r'"
    unfolding limits_only_def by (metis option.inject)
qed

lemma limits_only_less:
  "limits_only st \<Longrightarrow> (\<And>k r. map_of (st_records st') k = Some r \<Longrightarrow> map_of (st_records st) k = Some r) \<Longrightarrow> limits_only st'"
  unfolding limits_only_def by blast

lemma limits_only_same: "limits_only st \<Longrightarrow> st_records st' = st_records st \<Longrightarrow> limits_only st'"
  by (simp add: limits_only_def)

lemma limits_only_step:
  assumes "store_inv st" and "limits_only st"
  shows "limits_only (store_step x st)"
proof (cases x)
  case (CsObserve s u)
  show ?thesis
  proof (cases rule: store_observe_effect [of s u st])
    case same
    with CsObserve assms show ?thesis by simp
  next
    case (refreshed k r)
    then have "ca_availability (kr_capacity r) \<in> {Cooldown, QuotaExhausted} \<or> session_blocked r"
      using assms(2) unfolding limits_only_def by blast
    then show ?thesis unfolding CsObserve store_step.simps
      by (intro limits_only_update [OF assms(2) refreshed(3)]) (simp add: session_blocked_def)
  next
    case (recorded k r)
    then show ?thesis unfolding CsObserve store_step.simps
      by (intro limits_only_update [OF assms(2) recorded(5)] normalized_signal_limit [OF recorded(4) refl])
  qed
next
  case (CsClaim input owner now ttl mode u)
  then show ?thesis
    by (cases rule: store_claim_effect [of input owner now ttl mode u st]) (simp_all add: limits_only_same [OF assms(2)])
next
  case (CsResolve c t res u)
  from assms(1) show ?thesis
  proof (cases rule: store_resolve_effect [where claim = c and t = t and res = res and u = u])
    case refused
    with CsResolve show ?thesis by (simp add: limits_only_same [OF assms(2)])
  next
    case (applied stored r)
    show ?thesis
    proof (cases "resolvedCapacity c t res")
      case None
      show ?thesis unfolding CsResolve store_step.simps
        by (rule limits_only_less [OF assms(2)]) (simp add: applied(7) None split: if_splits)
    next
      case (Some cap)
      show ?thesis unfolding CsResolve store_step.simps
        by (rule limits_only_update [OF assms(2), of _ "rk_recordId c" "r\<lparr>kr_revision := u, kr_capacity := cap\<rparr>"])
           (simp_all add: applied(7) Some resolved_limit [OF Some] del: insert_iff)
    qed
  qed
next
  case (CsRelease c)
  then show ?thesis by (simp add: store_release_effect(1) limits_only_same [OF assms(2)])
next
  case (CsClear a)
  show ?thesis unfolding CsClear store_step.simps
    by (rule limits_only_less [OF assms(2)]) (simp add: store_clear_effect(1) [OF assms(1)] split: if_splits)
qed

lemma limits_only_steps: "store_inv st \<Longrightarrow> limits_only st \<Longrightarrow> limits_only (store_steps xs st)"
  by (induction xs arbitrary: st) (auto simp: store_inv_step limits_only_step)

lemma limits_only_new: "limits_only store_new"
  by (simp add: limits_only_def store_new_def)

section \<open>Reads\<close>

text \<open>The keys a read of an account for a demand consults.\<close>

definition consulted :: "string \<Rightarrow> runtime_demand option \<Rightarrow> string \<Rightarrow> bool" where
  "consulted a d k \<longleftrightarrow> (\<exists>acc. normalizeWorkerAccountId (Some a) = Some acc \<and>
     (case normalizeWorkerRuntimeDemand d of
        None \<Rightarrow> belongs_to acc k
      | Some dm \<Rightarrow> k = accountCapacityKey acc (Some dm) \<or> k = accountCapacityKey acc None))"

abbreviation due_at :: "capacity_record \<Rightarrow> date \<Rightarrow> bool" where
  "due_at r now \<equiv> \<exists>u. ca_cooldownUntil (kr_capacity r) = Some u \<and> date_le u now"

lemma readState_consults [consumes 1, case_names blank reads]:
  assumes "jsmap_ok (st_records st)"
  obtains (blank) "store_readState a d now st = None" "\<forall>k. \<not> consulted a d k"
  | (reads) rs where "store_readState a d now st = map_option (\<lambda>r. stateFromRecord r now) (selectPreferredRecord rs now)"
      "\<forall>r. Some r \<in> set rs \<longleftrightarrow> (\<exists>k. consulted a d k \<and> map_of (st_records st) k = Some r)"
proof (cases "normalizeWorkerAccountId (Some a)")
  case None
  then show thesis by (intro blank) (simp_all add: store_readState_def consulted_def)
next
  case (Some acc)
  show thesis
  proof (cases "normalizeWorkerRuntimeDemand d")
    case None
    have "Some r \<in> set (map (\<lambda>(k, r). Some r) (filter (\<lambda>(k, r). belongs_to acc k) (st_records st))) \<longleftrightarrow>
        (\<exists>k. consulted a d k \<and> map_of (st_records st) k = Some r)" for r
      using Some None by (force simp: consulted_def map_of_eq_Some_iff [OF assms])
    with Some None show thesis by (intro reads) (auto simp: store_readState_def readAggregateRecord_def)
  next
    case (Some dm)
    let ?rs = "[map_of (st_records st) (accountCapacityKey acc (Some dm)), map_of (st_records st) (accountCapacityKey acc None)]"
    have "Some r \<in> set ?rs \<longleftrightarrow> (\<exists>k. consulted a d k \<and> map_of (st_records st) k = Some r)" for r
      using Some \<open>normalizeWorkerAccountId (Some a) = Some acc\<close> by (auto simp: consulted_def)
    with Some \<open>normalizeWorkerAccountId (Some a) = Some acc\<close> show thesis
      by (intro reads [of ?rs]) (auto simp: store_readState_def)
  qed
qed

lemma readState_cases [consumes 1, case_names none active due]:
  assumes "jsmap_ok (st_records st)"
  obtains (none) "store_readState a d now st = None" "\<forall>k r. consulted a d k \<longrightarrow> map_of (st_records st) k \<noteq> Some r"
  | (active) k x where "store_readState a d now st = Some (stateFromRecord x now)" "consulted a d k"
      "map_of (st_records st) k = Some x" "\<not> due_at x now"
      "\<forall>k' y. consulted a d k' \<and> map_of (st_records st) k' = Some y \<and> \<not> due_at y now \<longrightarrow>
         severity (kr_capacity y) \<le> severity (kr_capacity x)"
  | (due) k x where "store_readState a d now st = Some (stateFromRecord x now)" "consulted a d k"
      "map_of (st_records st) k = Some x"
      "\<forall>k' y. consulted a d k' \<and> map_of (st_records st) k' = Some y \<longrightarrow> due_at y now"
  using assms
proof (cases rule: readState_consults [where a = a and d = d and now = now])
  case blank
  with none show thesis by blast
next
  case (reads rs)
  note eq = reads(1) and mem = reads(2)
  show thesis
  proof (cases rule: selectPreferred_cases [of rs now])
    case none
    then have "Some r \<notin> set rs" for r by (force simp: List.map_filter_def filter_empty_conv)
    with mem \<open>selectPreferredRecord rs now = None\<close> eq that(1) show thesis by simp
  next
    case (active x)
    with mem obtain k where k: "consulted a d k" "map_of (st_records st) k = Some x" by blast
    show thesis
      by (rule that(2) [OF _ k]) (use active eq mem in \<open>auto simp: stateFromRecord_phase(2)\<close>)
  next
    case (due x)
    with mem obtain k where k: "consulted a d k" "map_of (st_records st) k = Some x" by blast
    show thesis
      by (rule that(3) [OF _ k]) (use due eq mem in \<open>auto simp: stateFromRecord_phase(2)\<close>)
  qed
qed

lemma store_read_active:
  assumes "jsmap_ok (st_records st)" and "consulted a d k" and "map_of (st_records st) k = Some r" and "\<not> due_at r now"
  shows "\<exists>k' x. store_read a d (Some now) t1 t2 st = Some (kr_capacity x) \<and> map_of (st_records st) k' = Some x \<and>
    consulted a d k' \<and> severity (kr_capacity r) \<le> severity (kr_capacity x)"
  using assms(1)
proof (cases rule: readState_cases [where a = a and d = d and now = now])
  case none
  with assms(2,3) show ?thesis by blast
next
  case (active k' x)
  then have "store_read a d (Some now) t1 t2 st = Some (kr_capacity x)"
    by (simp add: store_read_def stateFromRecord_phase(2))
  with active assms(2-4) show ?thesis by blast
next
  case (due k' x)
  with assms(2-4) show ?thesis by blast
qed

lemma store_read_cases:
  assumes "store_inv st" and "store_read a d (Some now) t1 t2 st = Some c"
  shows "(\<exists>k r. map_of (st_records st) k = Some r \<and> consulted a d k \<and> \<not> due_at r now \<and> c = kr_capacity r) \<or>
    ca_availability c = Cooldown"
proof -
  from assms(1) have "jsmap_ok (st_records st)" by (simp add: store_inv_def)
  then show ?thesis
  proof (cases rule: readState_cases [where a = a and d = d and now = now])
    case none
    with assms(2) show ?thesis by (simp add: store_read_def)
  next
    case (active k x)
    with assms(2) have "c = kr_capacity x" by (simp add: store_read_def stateFromRecord_phase(2))
    with active show ?thesis by blast
  next
    case (due k x)
    with assms(2) show ?thesis
      by (auto simp: store_read_def stateFromRecord_phase(2) recheckInProgressCapacity_def split: option.splits if_splits)
  qed
qed

lemma store_read_unavailable:
  assumes "store_inv st" and "limits_only st" and "store_read a d (Some now) t1 t2 st = Some c"
  shows "ca_availability c \<noteq> Available"
  using store_read_cases [OF assms(1,3)] assms(2) unfolding limits_only_def session_blocked_def by force

lemma store_read_due:
  assumes "store_inv st"
    and "\<forall>k r. consulted a d k \<and> map_of (st_records st) k = Some r \<longrightarrow>
           due_at r now \<and> (\<forall>c. map_of (st_claims st) k = Some c \<longrightarrow> \<not> date_lt now (rk_expiresAt c))"
  shows "store_read a d (Some now) t1 t2 st = None"
proof -
  from assms(1) have "jsmap_ok (st_records st)" by (simp add: store_inv_def)
  then show ?thesis
  proof (cases rule: readState_cases [where a = a and d = d and now = now])
    case none
    then show ?thesis by (simp add: store_read_def)
  next
    case (active k x)
    with assms(2) show ?thesis by blast
  next
    case (due k x)
    with assms(1) have "kr_recordId x = k" by (simp add: store_inv_def filed_def)
    moreover from due(2,3,4) have "\<not> ks_phase (stateFromRecord x now) = Blocking"
      unfolding stateFromRecord_phase(2) by blast
    ultimately show ?thesis
      using due assms(2) by (auto simp: store_read_def date_lt_getTime split: option.split)
  qed
qed

lemmas reachable_store = store_inv_steps [OF store_inv_new] limits_only_steps [OF store_inv_new limits_only_new]

lemma store_steps_append [simp]: "store_steps (xs @ ys) st = store_steps ys (store_steps xs st)"
  by (induction xs arbitrary: st) simp_all

section \<open>Invalid sessions stay blocked\<close>

lemma session_signal_normalizes:
  assumes "ca_reason (ls_capacity s) = Some session_invalid" and "signal_key s = Some k"
  shows "\<exists>c. normalizeWorkerAccountCapacitySignal s = Some c \<and> ca_availability c = Disabled"
  using assms
  by (auto simp: normalizeWorkerAccountCapacitySignal_def Let_def isPersistableWorkerAccountCapacity_def signal_key_def)

lemma session_signal_recorded:
  assumes "store_inv st" and "limits_only st"
    and "ca_reason (ls_capacity s) = Some session_invalid" and "signal_key s = Some k"
  shows "\<exists>r. map_of (st_records (snd (store_observe s u st))) k = Some r \<and> session_blocked r"
proof -
  from session_signal_normalizes [OF assms(3,4)] obtain c where
    c: "normalizeWorkerAccountCapacitySignal s = Some c" "ca_availability c = Disabled" by blast
  from assms(4) obtain acc where acc: "normalizeWorkerAccountId (Some (ls_accountId s)) = Some acc"
    "k = accountCapacityKey acc (signal_demand s (ca_details (ls_capacity s)))"
    by (auto simp: signal_key_def)
  let ?r = "\<lparr>kr_recordId = k, kr_revision = u, kr_accountId = acc,
    kr_demand = signal_demand s (ca_details (ls_capacity s)), kr_capacity = c\<rparr>"
  have blocked: "session_blocked ?r"
    using c normalized_signal_disabled [OF c] by (simp add: session_blocked_def)
  show ?thesis
  proof (cases "map_of (st_records st) k")
    case None
    with c acc blocked show ?thesis by (simp add: store_observe_def Let_def)
  next
    case (Some e)
    show ?thesis
    proof (cases "ks_phase (stateFromRecord e (ls_observedAt s)) = Blocking \<and> shouldKeepExistingWorkerAccountCapacity (kr_capacity e) c")
      case False
      with c acc blocked Some show ?thesis by (auto simp: store_observe_def Let_def)
    next
      case True
      then have "severity (kr_capacity e) = 70"
        using c(2) severity_70 [of c] severity_le_70 [of "kr_capacity e"] by (auto simp: keep_iff_le capacity_le_def)
      then have "session_blocked e" using assms(2) Some severity_70 unfolding limits_only_def by fastforce
      with True c acc Some session_blocked_no_claim [OF assms(1) Some] show ?thesis
        by (simp add: store_observe_def Let_def)
    qed
  qed
qed

lemma invalid_session_reads:
  assumes "ca_reason (ls_capacity s) = Some session_invalid" and "signal_key s = Some k"
    and "list_all (\<lambda>x. \<not> clears_key k x) after" and "consulted a d k"
  shows "\<exists>c. store_read a d (Some now) t1 t2 (store_steps (before @ CsObserve s u # after) store_new) = Some c \<and>
    ca_availability c = Disabled \<and> ca_reason c = Some session_invalid"
proof -
  let ?st = "store_steps before store_new"
  let ?st2 = "store_steps (before @ CsObserve s u # after) store_new"
  note inv = reachable_store [of before]
  from session_signal_recorded [OF inv assms(1,2)] obtain r where
    r: "map_of (st_records (store_step (CsObserve s u) ?st)) k = Some r" "session_blocked r" by auto
  have r2: "map_of (st_records ?st2) k = Some r"
    using session_blocked_steps [OF store_inv_step [OF inv(1)] r assms(3)] by simp
  have inv2: "jsmap_ok (st_records ?st2)" "limits_only ?st2"
    using reachable_store [of "before @ CsObserve s u # after"] by (auto simp: store_inv_def)
  have sev: "severity (kr_capacity r) = 70" "\<not> due_at r now"
    using r(2) by (auto simp: session_blocked_def severity_70)
  from store_read_active [OF inv2(1) assms(4) r2 sev(2), of t1 t2] sev(1) obtain k' x where
    x: "store_read a d (Some now) t1 t2 ?st2 = Some (kr_capacity x)" "map_of (st_records ?st2) k' = Some x"
      "70 \<le> severity (kr_capacity x)" by auto
  then have "ca_availability (kr_capacity x) = Disabled"
    using severity_le_70 severity_70 by (metis le_antisym)
  with x inv2(2) have "session_blocked x" unfolding limits_only_def by fastforce
  with x(1) show ?thesis by (auto simp: session_blocked_def)
qed

text \<open>
  C21. An invalid provider session keeps its account out of use. After a signal that reports the
  session of an account invalid, whatever calls follow, other than clearing the account, and at any
  time, every read that consults the signal's key (a read of the account as a whole, for the same
  demand, or for any demand when the signal was account-wide) answers that the account is disabled
  for that reason: no cooldown, later signal or recheck lifts it.
\<close>

theorem invalid_session_stays_blocked:
  assumes "ca_reason (ls_capacity s) = Some session_invalid" and "signal_key s = Some k"
    and "list_all (\<lambda>x. \<not> clears_key k x) after" and "consulted a d k"
  shows "\<exists>c. store_read a d (Some now) t1 t2 (store_steps (before @ CsObserve s u # after) store_new) = Some c \<and>
    ca_availability c = Disabled \<and> ca_reason c = Some session_invalid"
  using assms by (rule invalid_session_reads)

definition demo_signal :: "capacity \<Rightarrow> int \<Rightarrow> limit_signal" where
  "demo_signal c t = \<lparr>ls_accountId = ''acc'', ls_scope = None, ls_demand = None, ls_capacity = c,
     ls_observedAt = Instant t, ls_sourceWorkerId = None, ls_retainExpiredForRecheck = False\<rparr>"

definition demo_invalid :: capacity where
  "demo_invalid = \<lparr>ca_availability = Degraded, ca_reason = Some session_invalid, ca_cooldownUntil = Some (Instant 9),
     ca_recentRuns = None, ca_softLimitRemainingRuns = None, ca_lastLimitSignalAt = None, ca_details = None\<rparr>"

lemma demo_account [simp]: "normalizeWorkerAccountId (Some ''acc'') = Some ''acc''"
  by (simp add: normalizeWorkerAccountId_def trimmed_def js_trim_def js_ws_def)

lemma demo_signal_fields [simp]:
  "ls_accountId (demo_signal c t) = ''acc''" "ls_capacity (demo_signal c t) = c" "ls_observedAt (demo_signal c t) = Instant t"
  by (simp_all add: demo_signal_def)

lemma demo_no_demand [simp]: "signal_demand (demo_signal c t) None = None" "normalizeWorkerRuntimeDemand None = None"
  by (simp_all add: signal_demand_def demo_signal_def normalizeWorkerRuntimeDemand_def defaultRuntimeDemandFromCapacityDetails_def
      detail_def trimmed_def js_trim_def nullish_def)

lemma demo_signal_key: "ca_details c = None \<Longrightarrow> signal_key (demo_signal c t) = Some ''acc''"
  by (simp add: signal_key_def accountCapacityKey_def workerRuntimeDemandKey_def truthy_def)

lemma demo_consulted: "consulted ''acc'' None ''acc''"
  by (simp add: consulted_def belongs_to_def)

theorem invalid_session_stays_blocked_witness:
  "\<exists>c. store_read ''acc'' None (Some (Instant 500)) InvalidDate InvalidDate
      (store_steps ([] @ CsObserve (demo_signal demo_invalid 3) ''u'' #
         [CsObserve (demo_signal (demo_limit Cooldown 900) 4) ''v'', CsClear ''other'']) store_new) = Some c \<and>
    ca_availability c = Disabled \<and> ca_reason c = Some session_invalid"
proof (rule invalid_session_stays_blocked [OF _ _ _ demo_consulted])
  show "ca_reason (ls_capacity (demo_signal demo_invalid 3)) = Some session_invalid"
    by (simp add: demo_signal_def demo_invalid_def)
  show "signal_key (demo_signal demo_invalid 3) = Some ''acc''"
    by (rule demo_signal_key) (simp add: demo_invalid_def)
  show "list_all (\<lambda>x. \<not> clears_key ''acc'' x) [CsObserve (demo_signal (demo_limit Cooldown 900) 4) ''v'', CsClear ''other'']"
    by (simp add: clears_def normalizeWorkerAccountId_def trimmed_def js_trim_def js_ws_def belongs_to_def nul_def)
qed

text \<open>
  A read never lets a limited account through. In every reachable store a read that answers
  with nothing finds every record it consults past its reset; it does answer with nothing once all
  of them are past their resets and none is being rechecked; and what it answers otherwise is
  never an available capacity.
\<close>

theorem reads_report_limits:
  assumes "st = store_steps calls store_new"
  shows "(store_read a d (Some now) t1 t2 st = None \<longrightarrow>
      (\<forall>k r. consulted a d k \<and> map_of (st_records st) k = Some r \<longrightarrow> due_at r now)) \<and>
    ((\<forall>k r. consulted a d k \<and> map_of (st_records st) k = Some r \<longrightarrow>
        due_at r now \<and> (\<forall>c. map_of (st_claims st) k = Some c \<longrightarrow> \<not> date_lt now (rk_expiresAt c))) \<longrightarrow>
      store_read a d (Some now) t1 t2 st = None) \<and>
    (\<forall>c. store_read a d (Some now) t1 t2 st = Some c \<longrightarrow> ca_availability c \<noteq> Available)"
proof -
  have inv: "store_inv st" "limits_only st" "jsmap_ok (st_records st)"
    using reachable_store [of calls] assms by (auto simp: store_inv_def)
  show ?thesis
    using store_read_active [OF inv(3), of a d _ _ now t1 t2] store_read_due [OF inv(1), of a d now t1 t2]
      store_read_unavailable [OF inv(1,2), of a d now t1 t2]
    by (intro conjI impI allI; fastforce)
qed

theorem reads_report_limits_witness:
  "(let st = store_steps [CsObserve (demo_signal (demo_limit Cooldown 900) 4) ''v''] store_new in
     \<forall>c. store_read ''acc'' None (Some (Instant 5)) InvalidDate InvalidDate st = Some c \<longrightarrow> ca_availability c \<noteq> Available)"
  unfolding Let_def using reads_report_limits [OF refl] by blast

text \<open>
  C20. One recheck at a time. Once a worker has claimed the recheck of a record, and as long as no
  call observes a new limit for its key, clears its account or settles this claim, nobody else is
  given a claim on that record before the claim expires; the holder's resolution, made before then,
  is applied, and a second resolution with the same claim is refused as stale.
\<close>

theorem recheck_is_exclusive:
  assumes "store_tryClaimRecheck input owner now ttl mode u (store_steps before store_new) = (Claimed c, st1)"
    and "list_all (leaves_claim (rk_recordId c) c) between" and "st2 = store_steps between st1"
    and "\<not> date_le (rk_expiresAt c) t"
  shows "(kr_recordId other = rk_recordId c \<and> date_lt now' (rk_expiresAt c) \<longrightarrow>
      fst (store_tryClaimRecheck other owner' now' ttl' mode' u' st2) \<noteq> Claimed c') \<and>
    (\<exists>x. fst (store_resolveRecheck c t res v st2) = Applied x) \<and>
    fst (store_resolveRecheck c t' res' v' (snd (store_resolveRecheck c t res v st2))) = StaleClaim"
proof -
  have inv: "store_inv st1" and held: "map_of (st_claims st1) (rk_recordId c) = Some c"
    using assms(1) store_inv_step [OF reachable_store(1) [of before], of "CsClaim input owner now ttl mode u"]
    by (cases rule: store_claim_effect [of input owner now ttl mode u "store_steps before store_new"]; simp)+
  have inv2: "store_inv st2" using store_inv_steps [OF inv] assms(3) by simp
  have held2: "map_of (st_claims st2) (rk_recordId c) = Some c"
    using claim_survives_steps [OF inv held assms(2)] assms(3) by simp
  have "fst (store_tryClaimRecheck other owner' now' ttl' mode' u' st2) \<noteq> Claimed c'"
    if o: "kr_recordId other = rk_recordId c" "date_lt now' (rk_expiresAt c)"
  proof (cases rule: store_claim_effect [of other owner' now' ttl' mode' u' st2])
    case (claimed r c2)
    then have "kr_recordId r = rk_recordId c" using inv2 o(1) by (auto simp: store_inv_def filed_def)
    with claimed(4) held2 o(2) show ?thesis by simp
  qed simp
  with resolve_own_claim [OF inv2 held2 assms(4), of res v] show ?thesis
    by (auto simp: store_resolveRecheck_def [of c t'] Let_def split: recheck_resolution.split)
qed

definition demo_record :: capacity_record where
  "demo_record = \<lparr>kr_recordId = ''acc'', kr_revision = ''u'', kr_accountId = ''acc'', kr_demand = None,
     kr_capacity = (demo_limit Cooldown 9)\<lparr>ca_lastLimitSignalAt := Some (Instant 3),
       ca_details := Some [''accountId'' \<mapsto> ''acc'']\<rparr>\<rparr>"

lemma demo_record_fields [simp]:
  "kr_recordId demo_record = ''acc''" "kr_revision demo_record = ''u''" "ca_reason (kr_capacity demo_record) = Some ''quota_limited''"
  "''quota_limited'' \<noteq> session_invalid"
  by (simp_all add: demo_record_def demo_limit_def session_invalid_def)

lemma demo_observed:
  "store_steps [CsObserve (demo_signal (demo_limit Cooldown 9) 3) ''u''] store_new =
     \<lparr>st_records = [(''acc'', demo_record)], st_claims = [], st_metrics = [MetricTimeToResetMs (Fin 6)]\<rparr>"
proof -
  let ?s = "demo_signal (demo_limit Cooldown 9) 3"
  have "normalizeWorkerAccountCapacitySignal ?s = Some (kr_capacity demo_record)"
    by (simp add: normalizeWorkerAccountCapacitySignal_def Let_def isPersistableWorkerAccountCapacity_def demo_limit_def
        session_invalid_def demo_record_def truthy_def or_empty_def runtimeDemandDetails_def)
       (simp add: demo_signal_def truthy_def)
  moreover have "signal_demand ?s (ca_details (demo_limit Cooldown 9)) = None" by (simp add: demo_limit_def)
  ultimately show ?thesis
    by (simp add: store_observe_def Let_def store_new_def accountCapacityKey_def workerRuntimeDemandKey_def truthy_def
        put_record_def drop_claim_def recordTimeToReset_def demo_record_def demo_limit_def)
qed

lemma demo_claimed:
  "\<exists>c st1. store_tryClaimRecheck (stateFromRecord demo_record (Instant 20)) ''w1'' (Instant 20) (Fin 50) DueOnly ''id''
      (store_steps [CsObserve (demo_signal (demo_limit Cooldown 9) 3) ''u''] store_new) = (Claimed c, st1) \<and>
    rk_recordId c = ''acc'' \<and> rk_expiresAt c = Instant 70 \<and> map_of (st_claims st1) ''acc'' = Some c"
proof -
  have "ks_phase (stateFromRecord demo_record (Instant 20)) = RecheckDue"
    by (simp add: stateFromRecord_phase demo_record_def demo_limit_def)
  then show ?thesis unfolding demo_observed by (simp add: store_tryClaimRecheck_def Let_def js_trunc_def)
qed

theorem recheck_is_exclusive_witness:
  "\<exists>c st1 x. store_tryClaimRecheck (stateFromRecord demo_record (Instant 20)) ''w1'' (Instant 20) (Fin 50) DueOnly ''id''
      (store_steps [CsObserve (demo_signal (demo_limit Cooldown 9) 3) ''u''] store_new) = (Claimed c, st1) \<and>
    fst (store_resolveRecheck c (Instant 30) ResolveAvailable ''v'' (store_steps [CsClear ''zzz''] st1)) = Applied x"
proof -
  let ?st = "store_steps [CsObserve (demo_signal (demo_limit Cooldown 9) 3) ''u''] store_new"
  let ?claim = "store_tryClaimRecheck (stateFromRecord demo_record (Instant 20)) ''w1'' (Instant 20) (Fin 50) DueOnly ''id'' ?st"
  from demo_claimed obtain c st1 where c: "?claim = (Claimed c, st1)" "rk_recordId c = ''acc''" "rk_expiresAt c = Instant 70" by blast
  have "list_all (leaves_claim (rk_recordId c) c) [CsClear ''zzz'']"
    by (simp add: c clears_def normalizeWorkerAccountId_def trimmed_def js_trim_def js_ws_def belongs_to_def nul_def)
  from recheck_is_exclusive [OF c(1) this refl, of "Instant 30"] c show ?thesis by fastforce
qed

end
