(* ===== verification/Account_Selection.thy ===== *)
theory Account_Selection
  imports Account_Leases Capacity_Laws
begin

text \<open>
  The choice of an account for a run: the domain functions of
  \<open>src/worker-core/account-capacity-selection/domain/runtime-account-selection.ts\<close> and the use case
  \<open>application/select-runtime-account.ts\<close>. The use case tries the allowed accounts in turn, skips
  those whose capacity is limited, and leases the first it can. It awaits each acquisition: what
  other parties do to the stores during one await is an argument, so that every interleaving with
  them is covered. The two stores are the ports of the use case; the interface \<open>account_pool\<close>
  states what it relies on, and the in-memory stores satisfy it.
\<close>

section \<open>Definitions\<close>

record unavailable_reason =
  un_accountId :: string
  un_reason :: string
  un_waitUntil :: "date option"

record wait_plan =
  wp_waitUntil :: "date option"
  wp_waitMs :: "jsnum option"
  wp_unavailable :: "unavailable_reason list"

datatype selection_decision = Selected string account_lease | AllUnavailable wait_plan

datatype select_error = SelectOwnerIdRequired | SelectLeaseTtlInvalid | SelectLeaseError lease_error

text \<open>\<open>leaseDemand\<close> may be absent, null or a demand.\<close>

record select_input =
  si_allowedAccounts :: "string list"
  si_demand :: "runtime_demand option"
  si_leaseDemand :: "runtime_demand option option"
  si_ownerId :: string
  si_leaseTtlMs :: jsnum
  si_now :: date
  si_lastSelectedAccountId :: "string option"

record 's account_ports =
  ap_read :: "string \<Rightarrow> runtime_demand option \<Rightarrow> date \<Rightarrow> 's \<Rightarrow> capacity option"
  ap_acquire :: "string \<Rightarrow> runtime_demand option \<Rightarrow> string \<Rightarrow> jsnum \<Rightarrow> date \<Rightarrow> 's \<Rightarrow> (lease_error + acquire_result) \<times> 's"

text \<open>A JavaScript set made from an array keeps first occurrences, in order.\<close>

fun js_unique :: "'a list \<Rightarrow> 'a list \<Rightarrow> 'a list" where
  "js_unique seen [] = seen"
| "js_unique seen (x # xs) = js_unique (if x \<in> set seen then seen else seen @ [x]) xs"

fun index_of :: "'a \<Rightarrow> 'a list \<Rightarrow> nat option" where
  "index_of x [] = None"
| "index_of x (y # ys) = (if x = y then Some 0 else map_option Suc (index_of x ys))"

definition orderedAccounts :: "string list \<Rightarrow> string option \<Rightarrow> string list" where
  "orderedAccounts accounts lastSelected =
     (case truthy lastSelected of
        None \<Rightarrow> accounts
      | Some a \<Rightarrow>
          (case index_of a accounts of
             None \<Rightarrow> accounts
           | Some i \<Rightarrow> if i = length accounts - 1 then accounts
                       else drop (i + 1) accounts @ take (i + 1) accounts))"

definition selectableWorkerAccountIds :: "string list \<Rightarrow> string option \<Rightarrow> string list" where
  "selectableWorkerAccountIds allowed lastSelected =
     orderedAccounts (js_unique [] (List.map_filter (\<lambda>a. normalizeWorkerAccountId (Some a)) allowed))
       (normalizeWorkerAccountId lastSelected)"

text \<open>
  A stable sort by \<open>left.getTime() - right.getTime()\<close>. A difference that is not a number counts as
  zero; where Invalid Dates are mixed with others the language leaves the order open.
\<close>

fun insert_by_time :: "date \<Rightarrow> date list \<Rightarrow> date list" where
  "insert_by_time x [] = [x]"
| "insert_by_time x (y # ys) =
     (if js_lt (Fin 0) (js_sub (getTime x) (getTime y)) then y # insert_by_time x ys else x # y # ys)"

definition sort_by_time :: "date list \<Rightarrow> date list" where
  "sort_by_time ds = foldr insert_by_time ds []"

definition buildRuntimeAccountWaitPlan :: "unavailable_reason list \<Rightarrow> date \<Rightarrow> wait_plan" where
  "buildRuntimeAccountWaitPlan unavailable now =
     (let waitUntil = (case sort_by_time (List.map_filter un_waitUntil unavailable) of [] \<Rightarrow> None | d # _ \<Rightarrow> Some d)
      in \<lparr>wp_waitUntil = waitUntil,
          wp_waitMs = map_option (\<lambda>d. js_max (Fin 0) (js_sub (getTime d) (getTime now))) waitUntil,
          wp_unavailable = unavailable\<rparr>)"

definition assertSelectionInput :: "select_input \<Rightarrow> select_error + unit" where
  "assertSelectionInput input =
     seqE (guardE (js_trim (si_ownerId input) \<noteq> []) SelectOwnerIdRequired)
          (guardE (\<not> (\<not> js_isFinite (si_leaseTtlMs input) \<or> js_le (si_leaseTtlMs input) (Fin 0))) SelectLeaseTtlInvalid)"

definition capacity_refusal :: "string \<Rightarrow> capacity option \<Rightarrow> unavailable_reason option" where
  "capacity_refusal accountId capacity =
     (case capacity of
        None \<Rightarrow> None
      | Some c \<Rightarrow>
          if ca_availability c \<noteq> Available
          then Some \<lparr>un_accountId = accountId,
                     un_reason = (case ca_reason c of None \<Rightarrow> availability_name (ca_availability c) | Some r \<Rightarrow> r),
                     un_waitUntil = ca_cooldownUntil c\<rparr>
          else None)"

definition lease_demand :: "select_input \<Rightarrow> runtime_demand option" where
  "lease_demand input = (case si_leaseDemand input of None \<Rightarrow> si_demand input | Some d \<Rightarrow> d)"

definition acquire_for :: "'s account_ports \<Rightarrow> select_input \<Rightarrow> string \<Rightarrow> 's \<Rightarrow> (lease_error + acquire_result) \<times> 's" where
  "acquire_for port input accountId =
     ap_acquire port accountId (lease_demand input) (si_ownerId input) (si_leaseTtlMs input) (si_now input)"

text \<open>What others do during the next await; nothing once the list is used up.\<close>

fun during_await :: "('s \<Rightarrow> 's) list \<Rightarrow> 's \<Rightarrow> 's" where
  "during_await [] s = s"
| "during_await (f # fs) s = f s"

fun select_loop ::
    "'s account_ports \<Rightarrow> select_input \<Rightarrow> ('s \<Rightarrow> 's) list \<Rightarrow> string list \<Rightarrow> unavailable_reason list \<Rightarrow> 's \<Rightarrow>
      (select_error + selection_decision) \<times> 's" where
  "select_loop port input others [] unavailable s =
     (Inr (AllUnavailable (buildRuntimeAccountWaitPlan unavailable (si_now input))), s)"
| "select_loop port input others (accountId # accounts) unavailable s =
     (case capacity_refusal accountId (ap_read port accountId (si_demand input) (si_now input) s) of
        Some refusal \<Rightarrow> select_loop port input others accounts (unavailable @ [refusal]) s
      | None \<Rightarrow>
          (case acquire_for port input accountId s of
             (Inl e, s1) \<Rightarrow> (Inl (SelectLeaseError e), s1)
           | (Inr (LeaseGranted lease), s1) \<Rightarrow> (Inr (Selected accountId lease), during_await others s1)
           | (Inr (LeaseDenied expiresAt), s1) \<Rightarrow>
               select_loop port input (tl others) accounts
                 (unavailable @ [\<lparr>un_accountId = accountId, un_reason = ''leased'', un_waitUntil = Some expiresAt\<rparr>])
                 (during_await others s1)))"

definition selectRuntimeAccount ::
    "'s account_ports \<Rightarrow> select_input \<Rightarrow> ('s \<Rightarrow> 's) list \<Rightarrow> 's \<Rightarrow> (select_error + selection_decision) \<times> 's" where
  "selectRuntimeAccount port input others s =
     (case assertSelectionInput input of
        Inl e \<Rightarrow> (Inl e, s)
      | Inr _ \<Rightarrow>
          select_loop port input others
            (selectableWorkerAccountIds (si_allowedAccounts input) (si_lastSelectedAccountId input)) [] s)"

section \<open>The order of the accounts\<close>

lemma js_unique_set: "set (js_unique seen xs) = set seen \<union> set xs"
  by (induction seen xs rule: js_unique.induct) auto

lemma js_unique_distinct: "distinct seen \<Longrightarrow> distinct (js_unique seen xs)"
  by (induction seen xs rule: js_unique.induct) auto

lemma index_of_Some: "index_of x xs = Some i \<Longrightarrow> i < length xs \<and> xs ! i = x"
  by (induction xs arbitrary: i) (auto split: if_splits)

lemma index_of_None: "index_of x xs = None \<longleftrightarrow> x \<notin> set xs"
  by (induction xs) auto

lemma orderedAccounts_set: "set (orderedAccounts xs l) = set xs \<and> (distinct xs \<longrightarrow> distinct (orderedAccounts xs l))"
proof -
  have "set (drop n xs @ take n xs) = set xs" for n
    by (metis Un_commute append_take_drop_id set_append)
  moreover have "distinct (drop n xs @ take n xs)" if "distinct xs" for n
    using that by (metis append_take_drop_id distinct_append inf_commute)
  ultimately show ?thesis by (auto simp: orderedAccounts_def split: option.split)
qed

lemma set_map_filter: "set (List.map_filter f xs) = {y. \<exists>x \<in> set xs. f x = Some y}"
  by (force simp: List.map_filter_def)

lemma selectable_set:
  "set (selectableWorkerAccountIds allowed l) = {a. \<exists>x \<in> set allowed. normalizeWorkerAccountId (Some x) = Some a} \<and>
   distinct (selectableWorkerAccountIds allowed l)"
  unfolding selectableWorkerAccountIds_def
  using orderedAccounts_set js_unique_distinct [of "[]"]
  by (auto simp: js_unique_set set_map_filter)

lemma orderedAccounts_last:
  assumes "distinct xs" and "x \<in> set xs" and "x \<noteq> []"
  shows "last (orderedAccounts xs (Some x)) = x"
proof -
  from assms(2) obtain i where i: "index_of x xs = Some i" using index_of_None [of x xs] by (cases "index_of x xs") auto
  note at = index_of_Some [OF i]
  show ?thesis
  proof (cases "i = length xs - 1")
    case True
    moreover have "last xs = xs ! (length xs - 1)" using at by (intro last_conv_nth) auto
    ultimately show ?thesis using i at assms(3) by (simp add: orderedAccounts_def truthy_def)
  next
    case False
    with i at assms(3) show ?thesis
      by (auto simp: orderedAccounts_def truthy_def take_Suc_conv_app_nth)
  qed
qed

section \<open>The earliest time to try again\<close>

lemma sort_by_time_Nil: "sort_by_time ds = [] \<longleftrightarrow> ds = []"
proof -
  have "insert_by_time x ys \<noteq> []" for x ys by (cases ys) auto
  then show ?thesis by (cases ds) (auto simp: sort_by_time_def)
qed

lemma insert_by_time_hd:
  assumes "valid_date x" and "list_all valid_date ys" and "ys \<noteq> [] \<longrightarrow> (\<forall>y \<in> set ys. date_le (hd ys) y)"
  shows "set (insert_by_time x ys) = insert x (set ys) \<and> (\<forall>y \<in> insert x (set ys). date_le (hd (insert_by_time x ys)) y)"
proof -
  have set: "set (insert_by_time x zs) = insert x (set zs)" for zs
    by (induction zs) auto
  show ?thesis
  proof (cases ys)
    case Nil
    with assms(1) set show ?thesis by simp
  next
    case (Cons z zs)
    obtain i j where ij: "x = Instant i" "z = Instant j" using assms(1,2) Cons by (cases x; cases z) auto
    show ?thesis
    proof (cases "j < i")
      case True
      with ij Cons assms(3) set show ?thesis by auto
    next
      case False
      with ij have "date_le x z" by simp
      then have "\<forall>y \<in> set ys. date_le x y" using assms(3) Cons date_le_trans by auto
      with False ij Cons set assms(1) show ?thesis by simp
    qed
  qed
qed

lemma sort_by_time_hd:
  assumes "list_all valid_date ds" and "ds \<noteq> []"
  shows "hd (sort_by_time ds) \<in> set ds \<and> (\<forall>y \<in> set ds. date_le (hd (sort_by_time ds)) y)"
proof -
  have "set (sort_by_time ds) = set ds \<and> (ds \<noteq> [] \<longrightarrow> (\<forall>y \<in> set ds. date_le (hd (sort_by_time ds)) y))"
    using assms(1)
  proof (induction ds)
    case (Cons x ds)
    then have IH: "set (sort_by_time ds) = set ds" "ds \<noteq> [] \<longrightarrow> (\<forall>y \<in> set ds. date_le (hd (sort_by_time ds)) y)" by simp_all
    have "list_all valid_date (sort_by_time ds)" using Cons.prems IH(1) by (simp add: list_all_iff)
    with insert_by_time_hd [of x "sort_by_time ds"] Cons.prems IH show ?case
      by (simp add: sort_by_time_def [of "x # ds"] sort_by_time_Nil flip: sort_by_time_def)
  qed (simp add: sort_by_time_def)
  with assms(2) show ?thesis by (metis hd_in_set sort_by_time_Nil)
qed

section \<open>The interface of the two stores\<close>

definition free_account :: "'s account_ports \<Rightarrow> select_input \<Rightarrow> 's \<Rightarrow> string \<Rightarrow> bool" where
  "free_account port input s a \<longleftrightarrow> ap_read port a (si_demand input) (si_now input) s = None \<and>
     (\<exists>l s'. acquire_for port input a s = (Inr (LeaseGranted l), s'))"

locale account_pool =
  fixes port :: "'s account_ports" and good :: "'s \<Rightarrow> bool"
  assumes read_unavailable: "good s \<Longrightarrow> ap_read port a d now s = Some c \<Longrightarrow> ca_availability c \<noteq> Available"
    and acquire_good: "good s \<Longrightarrow> good (snd (ap_acquire port a d owner ttl now s))"
    and denied_same: "good s \<Longrightarrow> ap_acquire port a d owner ttl now s = (Inr (LeaseDenied e), s') \<Longrightarrow> s' = s"
    and acquire_accepts: "good s \<Longrightarrow> normalizeWorkerAccountId (Some a) \<noteq> None \<Longrightarrow> js_trim owner \<noteq> [] \<Longrightarrow>
      \<not> lease_ttl_invalid ttl \<Longrightarrow> \<exists>r s'. ap_acquire port a d owner ttl now s = (Inr r, s')"
begin

lemma refusal_iff: "good s \<Longrightarrow> capacity_refusal a (ap_read port a d now s) = None \<longleftrightarrow> ap_read port a d now s = None"
  using read_unavailable by (auto simp: capacity_refusal_def split: option.split)

lemma loop_selected:
  assumes "good s" and "\<forall>f \<in> set others. \<forall>s. good s \<longrightarrow> good (f s)"
    and "select_loop port input others accounts un s = (Inr (Selected a l), s')"
  shows "a \<in> set accounts \<and> (\<exists>s0 s1. good s0 \<and> ap_read port a (si_demand input) (si_now input) s0 = None \<and>
    acquire_for port input a s0 = (Inr (LeaseGranted l), s1))"
  using assms
proof (induction accounts arbitrary: others un s)
  case (Cons b accounts)
  show ?case
  proof (cases "capacity_refusal b (ap_read port b (si_demand input) (si_now input) s)")
    case (Some r)
    with Cons show ?thesis by fastforce
  next
    case None
    note unlimited = None
    obtain res s1 where acq: "acquire_for port input b s = (res, s1)" by fastforce
    have s1: "good s1" using acquire_good [OF Cons.prems(1)] acq unfolding acquire_for_def by (metis snd_conv)
    have s2: "good (during_await others s1)" using s1 Cons.prems(2) by (cases others) auto
    have tl: "\<forall>f \<in> set (tl others). \<forall>s. good s \<longrightarrow> good (f s)" using Cons.prems(2) by (cases others) auto
    show ?thesis
    proof (cases res)
      case (Inl e)
      with Cons.prems(3) unlimited acq show ?thesis by simp
    next
      case (Inr r)
      show ?thesis
      proof (cases r)
        case (LeaseGranted lease)
        with Cons.prems unlimited acq Inr refusal_iff show ?thesis by auto
      next
        case (LeaseDenied e)
        with Cons.prems(3) unlimited acq Inr Cons.IH [OF s2 tl] show ?thesis by fastforce
      qed
    qed
  qed
qed simp

lemma loop_alone:
  assumes "good s" and "list_all (\<lambda>a. normalizeWorkerAccountId (Some a) \<noteq> None) accounts"
    and "js_trim (si_ownerId input) \<noteq> []" and "\<not> lease_ttl_invalid (si_leaseTtlMs input)"
  shows "case List.find (free_account port input s) accounts of
      Some a \<Rightarrow> \<exists>l s1. select_loop port input [] accounts un s = (Inr (Selected a l), s1) \<and>
        acquire_for port input a s = (Inr (LeaseGranted l), s1)
    | None \<Rightarrow> \<exists>rs. select_loop port input [] accounts un s =
          (Inr (AllUnavailable (buildRuntimeAccountWaitPlan (un @ rs) (si_now input))), s) \<and>
        map un_accountId rs = accounts"
  using assms(2)
proof (induction accounts arbitrary: un)
  case (Cons b accounts)
  show ?case
  proof (cases "capacity_refusal b (ap_read port b (si_demand input) (si_now input) s)")
    case (Some r)
    then have r: "\<not> free_account port input s b" "un_accountId r = b"
      using refusal_iff [OF assms(1)] by (auto simp: free_account_def capacity_refusal_def split: option.splits if_splits)
    with Some Cons.IH [of "un @ [r]"] Cons.prems show ?thesis
      by (auto split: option.splits intro: exI [of _ "r # _"])
  next
    case None
    then have unlimited: "ap_read port b (si_demand input) (si_now input) s = None" using refusal_iff [OF assms(1)] by simp
    obtain r s1 where acq: "acquire_for port input b s = (Inr r, s1)"
      using acquire_accepts [OF assms(1) _ assms(3,4), of b] Cons.prems unfolding acquire_for_def by fastforce
    show ?thesis
    proof (cases r)
      case (LeaseGranted l)
      with None unlimited acq show ?thesis by (simp add: free_account_def)
    next
      case (LeaseDenied e)
      with denied_same [OF assms(1)] acq have "s1 = s" unfolding acquire_for_def by blast
      let ?r = "\<lparr>un_accountId = b, un_reason = ''leased'', un_waitUntil = Some e\<rparr>"
      have "\<not> free_account port input s b" using acq LeaseDenied by (simp add: free_account_def)
      with None acq LeaseDenied \<open>s1 = s\<close> Cons.IH [of "un @ [?r]"] Cons.prems show ?thesis
        by (auto split: option.splits intro: exI [of _ "?r # _"])
    qed
  qed
qed simp

end

section \<open>The in-memory stores\<close>

definition memory_ports :: "(capacity_store \<times> lease_store) account_ports" where
  "memory_ports =
     \<lparr>ap_read = (\<lambda>a d now w. store_read a d (Some now) now now (fst w)),
      ap_acquire = (\<lambda>a d owner ttl now w. case lease_acquire a d owner ttl now (snd w) of (r, l) \<Rightarrow> (r, (fst w, l)))\<rparr>"

lemma memory_ports_simps [simp]:
  "ap_read memory_ports a d now (c, l) = store_read a d (Some now) now now c"
  "ap_acquire memory_ports a d owner ttl now (c, l) =
     (fst (lease_acquire a d owner ttl now l), (c, snd (lease_acquire a d owner ttl now l)))"
  by (simp_all add: memory_ports_def split_def)

text \<open>The worlds that calls to new stores lead to.\<close>

definition reachable_world :: "capacity_store \<times> lease_store \<Rightarrow> bool" where
  "reachable_world w \<longleftrightarrow> (\<exists>xs ys. w = (store_steps xs store_new, lease_steps ys lease_store_new))"

lemma lease_steps_append [simp]: "lease_steps (xs @ ys) st = lease_steps ys (lease_steps xs st)"
  by (induction xs arbitrary: st) simp_all

lemma reachable_acquire:
  assumes "reachable_world (c, l)"
  shows "reachable_world (c, snd (lease_acquire a d owner ttl now l))"
proof -
  from assms obtain xs ys where "c = store_steps xs store_new" "l = lease_steps ys lease_store_new"
    by (auto simp: reachable_world_def)
  then have "(c, snd (lease_acquire a d owner ttl now l)) =
      (store_steps xs store_new, lease_steps (ys @ [LAcquire a d owner ttl now]) lease_store_new)" by simp
  then show ?thesis unfolding reachable_world_def by blast
qed

lemma reachable_inv:
  assumes "reachable_world (c, l)"
  shows "store_inv c" "limits_only c" "lease_inv l"
  using assms reachable_store reachable_leases by (auto simp: reachable_world_def)

lemma lease_acquire_valid:
  assumes "normalizeWorkerAccountId (Some a) \<noteq> None" and "js_trim owner \<noteq> []" and "\<not> lease_ttl_invalid ttl"
  shows "\<exists>r. fst (lease_acquire a d owner ttl now l) = Inr r"
  using assms by (cases rule: lease_acquire_effect [of a d owner ttl now l]) (auto simp: lease_key_def)

interpretation mem: account_pool memory_ports reachable_world
proof unfold_locales
  fix w :: "capacity_store \<times> lease_store" and a d now c
  assume "reachable_world w" "ap_read memory_ports a d now w = Some c"
  then show "ca_availability c \<noteq> Available"
    by (cases w) (auto dest: store_read_unavailable [OF reachable_inv(1,2)])
next
  fix w :: "capacity_store \<times> lease_store" and a d owner ttl now
  assume "reachable_world w"
  then show "reachable_world (snd (ap_acquire memory_ports a d owner ttl now w))"
    using reachable_acquire by (cases w) simp
next
  fix w w' :: "capacity_store \<times> lease_store" and a d owner ttl now e
  assume "ap_acquire memory_ports a d owner ttl now w = (Inr (LeaseDenied e), w')"
  then show "w' = w"
    by (cases w; cases rule: lease_acquire_effect [of a d owner ttl now "snd w"]) auto
next
  fix w :: "capacity_store \<times> lease_store" and a d owner ttl now
  assume "normalizeWorkerAccountId (Some a) \<noteq> None" "js_trim owner \<noteq> []" "\<not> lease_ttl_invalid ttl"
  then show "\<exists>r w'. ap_acquire memory_ports a d owner ttl now w = (Inr r, w')"
    using lease_acquire_valid [of a owner ttl d now "snd w"] by (cases w) auto
qed

lemma selection_input_ok:
  "assertSelectionInput input = Inr () \<longleftrightarrow> js_trim (si_ownerId input) \<noteq> [] \<and> \<not> lease_ttl_invalid (si_leaseTtlMs input)"
  by (auto simp: assertSelectionInput_def lease_ttl_invalid_def seqE_def guardE_def split: sum.split)

lemma selectRuntimeAccount_Inr:
  assumes "selectRuntimeAccount port input others w = (Inr r, w')"
  shows "assertSelectionInput input = Inr ()"
    and "select_loop port input others (selectableWorkerAccountIds (si_allowedAccounts input) (si_lastSelectedAccountId input)) [] w =
      (Inr r, w')"
  using assms by (auto simp: selectRuntimeAccount_def split: sum.splits)

definition demo_select :: select_input where
  "demo_select = \<lparr>si_allowedAccounts = [''acc''], si_demand = None, si_leaseDemand = None, si_ownerId = ''w1'',
     si_leaseTtlMs = Fin 50, si_now = Instant 10, si_lastSelectedAccountId = None\<rparr>"

lemma demo_select_accounts: "selectableWorkerAccountIds (si_allowedAccounts demo_select) (si_lastSelectedAccountId demo_select) = [''acc'']"
  by (simp add: demo_select_def selectableWorkerAccountIds_def orderedAccounts_def truthy_def normalizeWorkerAccountId_def
      trimmed_def js_trim_def js_ws_def List.map_filter_def)

lemma demo_select_ok: "assertSelectionInput demo_select = Inr ()"
  by (simp add: selection_input_ok demo_select_def lease_ttl_invalid_def js_trim_def js_ws_def)

lemma demo_world: "reachable_world (store_new, lease_store_new)"
  unfolding reachable_world_def by (metis lease_steps.simps(1) store_steps.simps(1))

lemma demo_select_fields:
  "si_demand demo_select = None" "si_leaseDemand demo_select = None" "si_ownerId demo_select = ''w1''"
  "si_leaseTtlMs demo_select = Fin 50" "si_now demo_select = Instant 10"
  by (simp_all add: demo_select_def)

lemma demo_selected:
  "\<exists>lease w'. selectRuntimeAccount memory_ports demo_select [] (store_new, lease_store_new) = (Inr (Selected ''acc'' lease), w')"
proof -
  have "store_read ''acc'' None (Some (Instant 10)) (Instant 10) (Instant 10) store_new = None"
    by (simp add: store_read_def store_readState_def readAggregateRecord_def selectPreferredRecord_def store_new_def
        List.map_filter_def)
  then show ?thesis
    using demo_select_ok demo_lease
    by (simp add: selectRuntimeAccount_def demo_select_accounts capacity_refusal_def acquire_for_def lease_demand_def demo_select_fields)
qed



definition account_free :: "select_input \<Rightarrow> capacity_store \<Rightarrow> lease_store \<Rightarrow> string \<Rightarrow> bool" where
  "account_free input c l a \<longleftrightarrow>
     store_read a (si_demand input) (Some (si_now input)) (si_now input) (si_now input) c = None \<and>
     (\<forall>k cur. lease_key a (lease_demand input) = Some k \<and> live_lease k (si_now input) l = Some cur \<longrightarrow>
        al_ownerId cur = js_trim (si_ownerId input))"

lemma free_account_memory:
  assumes "normalizeWorkerAccountId (Some a) \<noteq> None" and "assertSelectionInput input = Inr ()"
  shows "free_account memory_ports input (c, l) a \<longleftrightarrow> account_free input c l a"
  using assms unfolding free_account_def account_free_def acquire_for_def selection_input_ok
  by (cases rule: lease_acquire_effect [of a "lease_demand input" "si_ownerId input" "si_leaseTtlMs input" "si_now input" l])
     (auto simp: lease_key_def)

lemma normalize_account_idem: "normalizeWorkerAccountId (Some x) = Some a \<Longrightarrow> normalizeWorkerAccountId (Some a) = Some a"
  by (auto simp: normalizeWorkerAccountId_def dest: trimmed_trim)

lemma wait_plan_fields:
  "wp_unavailable (buildRuntimeAccountWaitPlan rs now) = rs"
  "List.map_filter un_waitUntil rs = [] \<Longrightarrow> wp_waitUntil (buildRuntimeAccountWaitPlan rs now) = None"
  "List.map_filter un_waitUntil rs \<noteq> [] \<Longrightarrow>
     wp_waitUntil (buildRuntimeAccountWaitPlan rs now) = Some (hd (sort_by_time (List.map_filter un_waitUntil rs)))"
  using sort_by_time_Nil [of "List.map_filter un_waitUntil rs"]
  by (auto simp: buildRuntimeAccountWaitPlan_def Let_def split: list.split)

lemma find_cong: "(\<And>x. x \<in> set xs \<Longrightarrow> P x \<longleftrightarrow> Q x) \<Longrightarrow> List.find P xs = List.find Q xs"
  by (induction xs) auto

text \<open>
  The selection finds the first free account and gives up only when there is none. When nobody
  else touches the stores meanwhile, it returns the first account, in the rotated order, that has no
  limit in force and no live lease of another owner. If there is none it changes nothing and names
  every account with a reason; with valid times its plan waits until the earliest of the resets and
  lease ends it found, and for no time when there is none.
\<close>

theorem selection_takes_first_free:
  assumes "reachable_world (c, l)" and "assertSelectionInput input = Inr ()"
    and "accounts = selectableWorkerAccountIds (si_allowedAccounts input) (si_lastSelectedAccountId input)"
  shows "case List.find (account_free input c l) accounts of
      Some a \<Rightarrow> \<exists>lease w'. selectRuntimeAccount memory_ports input [] (c, l) = (Inr (Selected a lease), w')
    | None \<Rightarrow> \<exists>plan. selectRuntimeAccount memory_ports input [] (c, l) = (Inr (AllUnavailable plan), (c, l)) \<and>
        map un_accountId (wp_unavailable plan) = accounts \<and>
        (let waits = List.map_filter un_waitUntil (wp_unavailable plan) in
          (waits = [] \<longrightarrow> wp_waitUntil plan = None) \<and>
          (waits \<noteq> [] \<and> list_all valid_date waits \<longrightarrow>
            (\<exists>d \<in> set waits. wp_waitUntil plan = Some d \<and> (\<forall>x \<in> set waits. date_le d x))))"
proof -
  have norm: "list_all (\<lambda>a. normalizeWorkerAccountId (Some a) \<noteq> None) accounts"
    using selectable_set normalize_account_idem unfolding assms(3) by (fastforce simp: list_all_iff)
  then have find: "List.find (free_account memory_ports input (c, l)) accounts = List.find (account_free input c l) accounts"
    using free_account_memory [OF _ assms(2)] by (intro find_cong) (auto simp: list_all_iff)
  have run: "selectRuntimeAccount memory_ports input [] (c, l) = select_loop memory_ports input [] accounts [] (c, l)"
    using assms(2,3) by (simp add: selectRuntimeAccount_def)
  from assms(2) have "js_trim (si_ownerId input) \<noteq> []" "\<not> lease_ttl_invalid (si_leaseTtlMs input)"
    by (simp_all add: selection_input_ok)
  note loop = mem.loop_alone [OF assms(1) norm this, of "[]", unfolded find, folded run]
  show ?thesis
  proof (cases "List.find (account_free input c l) accounts")
    case (Some a)
    with loop show ?thesis by auto
  next
    case None
    with loop obtain rs where rs: "selectRuntimeAccount memory_ports input [] (c, l) =
        (Inr (AllUnavailable (buildRuntimeAccountWaitPlan rs (si_now input))), (c, l))" "map un_accountId rs = accounts"
      by auto
    with None wait_plan_fields [of rs "si_now input"] sort_by_time_hd [of "List.map_filter un_waitUntil rs"]
    show ?thesis by (auto simp: Let_def)
  qed
qed

theorem selection_takes_first_free_witness:
  "case List.find (account_free demo_select store_new lease_store_new) [''acc''] of
      Some a \<Rightarrow> \<exists>lease w'. selectRuntimeAccount memory_ports demo_select [] (store_new, lease_store_new) = (Inr (Selected a lease), w')
    | None \<Rightarrow> \<exists>plan. selectRuntimeAccount memory_ports demo_select [] (store_new, lease_store_new) =
        (Inr (AllUnavailable plan), (store_new, lease_store_new))"
  using selection_takes_first_free [OF demo_world demo_select_ok demo_select_accounts [symmetric]]
  by (auto split: option.splits)

text \<open>
  The rotation is fair and complete: every allowed account that is not blank is tried, once,
  under its normalised name, and the account selected last, when it is still allowed, is tried last.
\<close>

theorem rotation_tries_all:
  assumes "normalizeWorkerAccountId lastSelected = Some x" and "y \<in> set allowed" and "normalizeWorkerAccountId (Some y) = Some x"
  shows "set (selectableWorkerAccountIds allowed lastSelected) = {a. \<exists>z \<in> set allowed. normalizeWorkerAccountId (Some z) = Some a} \<and>
    distinct (selectableWorkerAccountIds allowed lastSelected) \<and> last (selectableWorkerAccountIds allowed lastSelected) = x"
proof -
  let ?xs = "js_unique [] (List.map_filter (\<lambda>a. normalizeWorkerAccountId (Some a)) allowed)"
  have "distinct ?xs" using js_unique_distinct [of "[]"] by simp
  moreover have "x \<in> set ?xs" using assms(2,3) by (auto simp: js_unique_set set_map_filter)
  moreover have "x \<noteq> []" using assms(1) trimmed_Some by (auto simp: normalizeWorkerAccountId_def)
  ultimately have "last (selectableWorkerAccountIds allowed lastSelected) = x"
    unfolding selectableWorkerAccountIds_def assms(1) by (rule orderedAccounts_last)
  with selectable_set show ?thesis by blast
qed

theorem rotation_tries_all_witness:
  "last (selectableWorkerAccountIds [''a'', ''b'', ''c''] (Some ''a'')) = ''a''"
proof -
  have "normalizeWorkerAccountId (Some ''a'') = Some ''a''"
    by (simp add: normalizeWorkerAccountId_def trimmed_def js_trim_def js_ws_def)
  from rotation_tries_all [OF this _ this, of "[''a'', ''b'', ''c'']"] show ?thesis by simp
qed

end
