(* ===== verification/Capacity_Worker.thy ===== *)
theory Capacity_Worker
  imports Capacity_Laws
begin

text \<open>
  The worker that guards its account,
  \<open>src/worker-core/account-capacity/application/account-capacity-aware-worker.ts\<close>. It wraps a
  worker: before a run or a prewarm it rechecks a limit that is due and refuses unless the account
  is available; after a run it reports what the wrapped worker says about its capacity.

  A call of \<open>run\<close> or \<open>prewarm\<close> is a program counter that is advanced once per \<open>await\<close>
  (\<open>aware_start\<close>, \<open>aware_resume\<close>), so that calls of many workers on one store, and anything else
  done to that store, interleave freely between two steps. The clock, the wrapped worker's capacity
  and the recovery passage are read through a \<open>reading\<close> that comes with each step; what a promise
  settles with is an argument of the step that resumes it.
\<close>

section \<open>Definitions\<close>

subsection \<open>Errors\<close>

datatype worker_error_code =
    NotStarted | AlreadyStarted | WorkerDisposed | StartFailed | StartTimeout | PrewarmFailed | RunFailed
  | HealthFailed | AccountUnavailable | ShutdownTimeout | PoolDraining | PoolCapacityUnavailable | PoolQueueFull
  | PoolRunAborted | PoolEmpty | PoolSelectorInvalid | PoolSlotBusy | PoolSlotNotFound | PoolSlotRestartFailed
  | PoolSlotFailed

datatype worker_error = SubscriptionWorkerError (we_code: worker_error_code) (we_message: string) (we_details: details)

text \<open>What a call rejects with: an error of this module, the \<open>RangeError\<close> of a date, or an error of the wrapped worker.\<close>

datatype 'e aware_error = AwareError worker_error | AwareRangeError | AwareInner 'e

subsection \<open>Rendering a date\<close>

text \<open>\<open>Date.prototype.toISOString\<close>, which throws for an Invalid Date.\<close>

definition civil_of_days :: "int \<Rightarrow> int \<times> int \<times> int" where
  "civil_of_days z =
     (let s = z + 719468; era = s div 146097; doe = s mod 146097;
          yoe = (doe - doe div 1460 + doe div 36524 - doe div 146096) div 365;
          doy = doe - (365 * yoe + yoe div 4 - yoe div 100);
          mp = (5 * doy + 2) div 153;
          m = (if mp < 10 then mp + 3 else mp - 9)
      in (yoe + era * 400 + (if m \<le> 2 then 1 else 0), m, doy - (153 * mp + 2) div 5 + 1))"

definition pad_digits :: "nat \<Rightarrow> nat \<Rightarrow> string" where
  "pad_digits width n = (let d = nat_digits n in replicate (width - length d) CHR ''0'' @ d)"

definition iso_year :: "int \<Rightarrow> string" where
  "iso_year y = (if 0 \<le> y \<and> y \<le> 9999 then pad_digits 4 (nat y)
     else (if y < 0 then CHR ''-'' else CHR ''+'') # pad_digits 6 (nat \<bar>y\<bar>))"

fun toISOString :: "date \<Rightarrow> string option" where
  "toISOString InvalidDate = None"
| "toISOString (Instant t) =
     (let days = t div 86400000; ms = nat (t mod 86400000); (y, m, d) = civil_of_days days in
      Some (iso_year y @ ''-'' @ pad_digits 2 (nat m) @ ''-'' @ pad_digits 2 (nat d) @ ''T'' @
        pad_digits 2 (ms div 3600000) @ '':'' @ pad_digits 2 (ms div 60000 mod 60) @ '':'' @
        pad_digits 2 (ms div 1000 mod 60) @ ''.'' @ pad_digits 3 (ms mod 1000) @ ''Z''))"

subsection \<open>Options and readings\<close>

record aware_options =
  wo_workerId :: string
  wo_accountId :: "string option"
  wo_accountIdFromCapacityDetails :: "(details option \<Rightarrow> string option) option"
  wo_runtimeDemand :: "runtime_demand option"
  wo_runtimeDemandFromCapacityDetails :: "(details option \<Rightarrow> runtime_demand option) option"
  wo_limitReasons :: "string list option"
  wo_accountWideLimitReasons :: "string list option"
  wo_capacityRechecker :: bool
  wo_requireCapacityRecheckWhenDue :: bool
  wo_recheckClaimTtlMs :: "jsnum option"
  wo_recheckFailureCooldownMs :: "jsnum option"

text \<open>
  One reading: the clock where the method reads it and where reporting a capacity reads it again,
  the wrapped worker's capacity (absent for a worker that has none), the recovery passage's
  snapshot with whether it carries a genuine prepared recovery, and a fresh id.
\<close>

record reading =
  rd_now :: date
  rd_observeNow :: date
  rd_worker :: "capacity option"
  rd_recovery :: "(capacity \<times> bool) option"
  rd_uuid :: string

definition available_capacity :: capacity where
  "available_capacity = \<lparr>ca_availability = Available, ca_reason = None, ca_cooldownUntil = None, ca_recentRuns = None,
     ca_softLimitRemainingRuns = None, ca_lastLimitSignalAt = None, ca_details = None\<rparr>"

definition aware_workerCapacity :: "reading \<Rightarrow> capacity" where
  "aware_workerCapacity rd = (case rd_worker rd of Some c \<Rightarrow> c | None \<Rightarrow> available_capacity)"

definition aware_limitReasons :: "aware_options \<Rightarrow> string list" where
  "aware_limitReasons opts = (case wo_limitReasons opts of None \<Rightarrow> defaultWorkerAccountLimitReasons | Some rs \<Rightarrow> rs)"

definition aware_accountId :: "aware_options \<Rightarrow> capacity \<Rightarrow> string option" where
  "aware_accountId opts c =
     (case normalizeWorkerAccountId (wo_accountId opts) of
        Some a \<Rightarrow> Some a
      | None \<Rightarrow> nullish (Option.bind (wo_accountIdFromCapacityDetails opts) (\<lambda>f. f (ca_details c)))
                  (defaultAccountIdFromCapacityDetails (ca_details c)))"

definition aware_runtimeDemand :: "aware_options \<Rightarrow> capacity \<Rightarrow> runtime_demand option" where
  "aware_runtimeDemand opts c =
     nullish (normalizeWorkerRuntimeDemand (wo_runtimeDemand opts))
       (nullish (Option.bind (wo_runtimeDemandFromCapacityDetails opts) (\<lambda>f. f (ca_details c)))
         (defaultRuntimeDemandFromCapacityDetails (ca_details c)))"

subsection \<open>Capacity\<close>

definition aware_signal :: "aware_options \<Rightarrow> reading \<Rightarrow> string \<Rightarrow> capacity \<Rightarrow> limit_signal" where
  "aware_signal opts rd accountId c =
     (let accountWide = (case truthy (ca_reason c) of None \<Rightarrow> False
            | Some r \<Rightarrow> r \<in> set (case wo_accountWideLimitReasons opts of None \<Rightarrow> [] | Some rs \<Rightarrow> rs))
      in \<lparr>ls_accountId = accountId, ls_scope = (if accountWide then Some AccountWide else None),
          ls_demand = (if accountWide then None else aware_runtimeDemand opts c), ls_capacity = c,
          ls_observedAt = (case ca_lastLimitSignalAt c of Some t \<Rightarrow> t | None \<Rightarrow> rd_observeNow rd),
          ls_sourceWorkerId = Some (wo_workerId opts), ls_retainExpiredForRecheck = False\<rparr>)"

definition observeWorkerCapacity ::
    "aware_options \<Rightarrow> reading \<Rightarrow> capacity \<Rightarrow> capacity_store \<Rightarrow> capacity_state option \<times> capacity_store" where
  "observeWorkerCapacity opts rd c st =
     (if \<not> isWorkerAccountLimitCapacity c (aware_limitReasons opts) then (None, st)
      else case truthy (aware_accountId opts c) of
             None \<Rightarrow> (None, st)
           | Some accountId \<Rightarrow> store_observe (aware_signal opts rd accountId c) (rd_uuid rd) st)"

definition aware_capacity :: "aware_options \<Rightarrow> reading \<Rightarrow> capacity_store \<Rightarrow> capacity \<times> capacity_store" where
  "aware_capacity opts rd st =
     (case rd_recovery rd of
        Some (recovery, _) \<Rightarrow> (recovery, st)
      | None \<Rightarrow>
        let worker = normalizeWorkerCapacitySnapshot (aware_workerCapacity rd) (rd_now rd);
            st1 = snd (observeWorkerCapacity opts rd worker st)
        in (case truthy (aware_accountId opts worker) of
              None \<Rightarrow> (worker, st1)
            | Some accountId \<Rightarrow>
                (case store_read accountId (aware_runtimeDemand opts worker) (Some (rd_now rd)) (rd_now rd) (rd_now rd) st1 of
                   None \<Rightarrow> (withAccountDetails worker accountId, st1)
                 | Some account \<Rightarrow>
                     (mergeWorkerAndAccountCapacity (withAccountDetails worker accountId) (withAccountDetails account accountId), st1))))"

definition unavailable_details :: "aware_options \<Rightarrow> capacity \<Rightarrow> string option \<Rightarrow> details" where
  "unavailable_details opts c cooldown =
     [''workerId'' \<mapsto> wo_workerId opts, ''availability'' \<mapsto> availability_name (ca_availability c)] ++
     (case truthy (ca_reason c) of None \<Rightarrow> Map.empty | Some r \<Rightarrow> [''reason'' \<mapsto> r]) ++
     (case cooldown of None \<Rightarrow> Map.empty | Some d \<Rightarrow> [''cooldownUntil'' \<mapsto> d]) ++
     (case truthy (detail (ca_details c) ''accountId'') of None \<Rightarrow> Map.empty | Some a \<Rightarrow> [''accountId'' \<mapsto> a])"

definition assertCapacityAvailable ::
    "aware_options \<Rightarrow> reading \<Rightarrow> capacity_store \<Rightarrow> ('e aware_error + unit) \<times> capacity_store" where
  "assertCapacityAvailable opts rd st =
     (case aware_capacity opts rd st of
        (c, st1) \<Rightarrow>
          if ca_availability c = Available then (Inr (), st1)
          else
            (case ca_cooldownUntil c of
               Some u \<Rightarrow>
                 (case toISOString u of
                    None \<Rightarrow> (Inl AwareRangeError, st1)
                  | Some text \<Rightarrow>
                      (Inl (AwareError (SubscriptionWorkerError AccountUnavailable ''Worker account capacity is unavailable.''
                         (unavailable_details opts c (Some text)))), st1))
             | None \<Rightarrow>
                 (Inl (AwareError (SubscriptionWorkerError AccountUnavailable ''Worker account capacity is unavailable.''
                    (unavailable_details opts c None))), st1)))"

subsection \<open>Rechecks\<close>

text \<open>\<open>recheckState\<close> up to the call of the rechecker: the claim to resolve, if it got one.\<close>

definition recheck_begin ::
    "aware_options \<Rightarrow> reading \<Rightarrow> capacity_state \<Rightarrow> recheck_mode \<Rightarrow> capacity_store \<Rightarrow> recheck_claim option \<times> capacity_store" where
  "recheck_begin opts rd state mode st =
     (if \<not> wo_capacityRechecker opts then (None, st)
      else
        (case store_tryClaimRecheck state (wo_workerId opts) (rd_now rd)
                (case wo_recheckClaimTtlMs opts of None \<Rightarrow> Fin 90000 | Some t \<Rightarrow> t) mode (rd_uuid rd) st of
           (Claimed claim, st1) \<Rightarrow> (Some claim, st1)
         | (_, st1) \<Rightarrow> (None, st1)))"

text \<open>The resolution of what the rechecker answered, or threw; \<open>now\<close> is the time of the claim.\<close>

definition recheck_resolution_of :: "aware_options \<Rightarrow> date \<Rightarrow> date \<Rightarrow> 'e + capacity \<Rightarrow> recheck_resolution" where
  "recheck_resolution_of opts now clock answer =
     (let cooldown = (case wo_recheckFailureCooldownMs opts of None \<Rightarrow> Fin 60000 | Some t \<Rightarrow> t) in
      case answer of
        Inr observed \<Rightarrow>
          if ca_availability observed = Available then ResolveAvailable
          else if ca_availability observed = QuotaExhausted \<or> ca_availability observed = Cooldown then ResolveLimited observed
          else ResolveRetry (newDate (js_add (getTime now) cooldown)) ''quota_recheck_inconclusive''
      | Inl _ \<Rightarrow> ResolveRetry (newDate (js_add (getTime clock) cooldown)) ''quota_recheck_failed'')"

text \<open>\<open>recheckState\<close> after the rechecker has answered.\<close>

definition recheck_finish ::
    "aware_options \<Rightarrow> reading \<Rightarrow> recheck_claim \<Rightarrow> date \<Rightarrow> 'e + capacity \<Rightarrow> capacity_store \<Rightarrow> capacity_store" where
  "recheck_finish opts rd claim now answer st =
     snd (store_resolveRecheck claim (rd_now rd) (recheck_resolution_of opts now (rd_observeNow rd) answer) (rd_uuid rd) st)"

definition recheck_error :: "aware_options \<Rightarrow> string \<Rightarrow> string \<Rightarrow> string \<Rightarrow> 'e aware_error" where
  "recheck_error opts accountId message reason =
     AwareError (SubscriptionWorkerError AccountUnavailable message
       [''workerId'' \<mapsto> wo_workerId opts, ''accountId'' \<mapsto> accountId, ''availability'' \<mapsto> ''cooldown'', ''reason'' \<mapsto> reason])"

subsection \<open>A call of \<open>run\<close> or \<open>prewarm\<close>\<close>

datatype aware_call = CallRun | CallPrewarm

text \<open>
  Where a call waits: for the rechecker of a due limit; for that recheck to return; for
  \<open>recheckDueCapacity\<close> to return; for the wrapped worker; for the rechecker after a failed run; for
  that recheck to return; for the recovery passage's own run; or not at all.
\<close>

datatype ('r, 'e) aware_pc =
    AwRecheck aware_call string "runtime_demand option" recheck_claim date
  | AwRechecked aware_call string "runtime_demand option"
  | AwChecked aware_call
  | AwInner aware_call
  | AwRefresh recheck_claim date 'e
  | AwRefreshed 'e
  | AwRecovery
  | AwDone "'e aware_error + 'r"

text \<open>\<open>recheckDueCapacity\<close> up to its first await.\<close>

definition recheckDueCapacity ::
    "aware_options \<Rightarrow> reading \<Rightarrow> aware_call \<Rightarrow> capacity_store \<Rightarrow> ('r, 'e) aware_pc \<times> capacity_store" where
  "recheckDueCapacity opts rd call st =
     (let worker = normalizeWorkerCapacitySnapshot (aware_workerCapacity rd) (rd_now rd) in
      case truthy (aware_accountId opts worker) of
        None \<Rightarrow> (AwChecked call, st)
      | Some accountId \<Rightarrow>
        let demand = aware_runtimeDemand opts worker in
        (case store_readState accountId demand (rd_now rd) st of
           None \<Rightarrow> (AwChecked call, st)
         | Some state \<Rightarrow>
             if ks_phase state \<noteq> RecheckDue then (AwChecked call, st)
             else if \<not> wo_capacityRechecker opts then
               if \<not> wo_requireCapacityRecheckWhenDue opts then (AwChecked call, st)
               else (AwDone (Inl (recheck_error opts accountId
                       ''Worker account quota requires a provider recheck before use.'' ''quota_recheck_unavailable'')), st)
             else
               (case recheck_begin opts rd state DueOnly st of
                  (None, st1) \<Rightarrow> (AwRechecked call accountId demand, st1)
                | (Some claim, st1) \<Rightarrow> (AwRecheck call accountId demand claim (rd_now rd), st1))))"

definition aware_start ::
    "aware_options \<Rightarrow> reading \<Rightarrow> aware_call \<Rightarrow> capacity_store \<Rightarrow> ('r, 'e) aware_pc \<times> capacity_store" where
  "aware_start opts rd call st =
     (case call of
        CallPrewarm \<Rightarrow> recheckDueCapacity opts rd call st
      | CallRun \<Rightarrow>
          (case rd_recovery rd of
             Some (recovery, True) \<Rightarrow> (AwRecovery, st)
           | Some (recovery, False) \<Rightarrow>
               (case assertCapacityAvailable opts rd st of
                  (Inl e, st1) \<Rightarrow> (AwDone (Inl e), st1)
                | (Inr _, st1) \<Rightarrow> recheckDueCapacity opts rd call st1)
           | None \<Rightarrow> recheckDueCapacity opts rd call st))"

text \<open>
  What the awaited promise settled with: the rechecker's answer, or the end of the wrapped worker's
  (or the recovery's) run.
\<close>

datatype ('r, 'e) settled = RecheckerSettled "'e + capacity" | RunSettled "'e + 'r"

fun aware_resume ::
    "aware_options \<Rightarrow> reading \<Rightarrow> ('r, 'e) settled \<Rightarrow> ('r, 'e) aware_pc \<Rightarrow> capacity_store \<Rightarrow> ('r, 'e) aware_pc \<times> capacity_store" where
  "aware_resume opts rd (RecheckerSettled answer) (AwRecheck call accountId demand claim now) st =
     (AwRechecked call accountId demand, recheck_finish opts rd claim now answer st)"
| "aware_resume opts rd settled (AwRechecked call accountId demand) st =
     (case store_readState accountId demand (rd_now rd) st of
        None \<Rightarrow> (AwChecked call, st)
      | Some state \<Rightarrow>
          if ks_phase state = RecheckDue
          then (AwDone (Inl (recheck_error opts accountId
                  ''Worker account quota recheck did not resolve capacity.'' ''quota_recheck_unresolved'')), st)
          else (AwChecked call, st))"
| "aware_resume opts rd settled (AwChecked call) st =
     (case assertCapacityAvailable opts rd st of
        (Inl e, st1) \<Rightarrow> (AwDone (Inl e), st1)
      | (Inr _, st1) \<Rightarrow> (AwInner call, st1))"
| "aware_resume opts rd (RunSettled (Inr r)) (AwInner call) st =
     (AwDone (Inr r), if call = CallRun then snd (observeWorkerCapacity opts rd (aware_workerCapacity rd) st) else st)"
| "aware_resume opts rd (RunSettled (Inl e)) (AwInner call) st =
     (if call = CallPrewarm then (AwDone (Inl (AwareInner e)), st)
      else
        let c = aware_workerCapacity rd in
        (case observeWorkerCapacity opts rd c st of
           (Some state, st1) \<Rightarrow>
             if ca_reason c \<noteq> Some session_invalid \<and> isWorkerAccountLimitCapacity c (aware_limitReasons opts)
             then (case recheck_begin opts rd state Refresh st1 of
                     (None, st2) \<Rightarrow> (AwRefreshed e, st2)
                   | (Some claim, st2) \<Rightarrow> (AwRefresh claim (rd_now rd) e, st2))
             else (AwDone (Inl (AwareInner e)), st1)
         | (None, st1) \<Rightarrow> (AwDone (Inl (AwareInner e)), st1)))"
| "aware_resume opts rd (RecheckerSettled answer) (AwRefresh claim now e) st =
     (AwRefreshed e, recheck_finish opts rd claim now answer st)"
| "aware_resume opts rd settled (AwRefreshed e) st = (AwDone (Inl (AwareInner e)), st)"
| "aware_resume opts rd (RunSettled (Inr r)) AwRecovery st = (AwDone (Inr r), st)"
| "aware_resume opts rd (RunSettled (Inl e)) AwRecovery st = (AwDone (Inl (AwareInner e)), st)"
| "aware_resume opts rd settled pc st = (pc, st)"

subsection \<open>Health\<close>

datatype health_status = Healthy | HealthDegraded | Unhealthy

record 'w worker_health =
  wh_status :: health_status
  wh_state :: string
  wh_checkedAt :: date
  wh_failures :: "(string \<times> string) list"
  wh_warnings :: "'w list"
  wh_details :: "details option"

definition aware_health :: "aware_options \<Rightarrow> reading \<Rightarrow> 'w worker_health \<Rightarrow> capacity_store \<Rightarrow> 'w worker_health \<times> capacity_store" where
  "aware_health opts rd health st =
     (case aware_capacity opts rd st of
        (c, st1) \<Rightarrow>
          if ca_availability c = Available \<or> wh_status health \<noteq> Healthy then (health, st1)
          else
            (health\<lparr>wh_status := HealthDegraded,
               wh_failures := [(case ca_reason c of None \<Rightarrow> availability_name (ca_availability c) | Some r \<Rightarrow> r,
                 ''Worker account capacity is '' @ availability_name (ca_availability c) @ ''.'')],
               wh_details := Some (or_empty (wh_details health) ++ or_empty (ca_details c))\<rparr>, st1))"

subsection \<open>The factory\<close>

text \<open>
  \<open>accountCapacityAwareWorkerFactory\<close> passes an option on only when it is truthy: an empty account
  id and a time of zero are dropped.
\<close>

definition truthy_num :: "jsnum option \<Rightarrow> jsnum option" where
  "truthy_num v = (case v of Some x \<Rightarrow> if x = Fin 0 \<or> x = NaN then None else Some x | None \<Rightarrow> None)"

definition accountCapacityAwareWorkerFactory :: "aware_options \<Rightarrow> string \<Rightarrow> bool \<Rightarrow> aware_options" where
  "accountCapacityAwareWorkerFactory options workerId rechecker =
     options\<lparr>wo_workerId := workerId, wo_accountId := truthy (wo_accountId options), wo_capacityRechecker := rechecker,
       wo_recheckClaimTtlMs := truthy_num (wo_recheckClaimTtlMs options),
       wo_recheckFailureCooldownMs := truthy_num (wo_recheckFailureCooldownMs options)\<rparr>"

subsection \<open>Many workers on one store\<close>

record ('r, 'e) aware_world =
  aw_store :: capacity_store
  aw_calls :: "(aware_options \<times> ('r, 'e) aware_pc) list"

datatype ('r, 'e) aware_event =
    EvCall aware_options reading aware_call
  | EvResume nat reading "('r, 'e) settled"
  | EvStore store_op

fun aware_step :: "('r, 'e) aware_event \<Rightarrow> ('r, 'e) aware_world \<Rightarrow> ('r, 'e) aware_world" where
  "aware_step (EvCall opts rd call) w =
     (case aware_start opts rd call (aw_store w) of
        (pc, st) \<Rightarrow> \<lparr>aw_store = st, aw_calls = aw_calls w @ [(opts, pc)]\<rparr>)"
| "aware_step (EvResume i rd settled) w =
     (if i < length (aw_calls w) then
        (case aw_calls w ! i of
           (opts, pc) \<Rightarrow>
             (case aware_resume opts rd settled pc (aw_store w) of
                (pc', st) \<Rightarrow> \<lparr>aw_store = st, aw_calls = (aw_calls w)[i := (opts, pc')]\<rparr>))
      else w)"
| "aware_step (EvStore x) w = w\<lparr>aw_store := store_step x (aw_store w)\<rparr>"

fun aware_steps :: "('r, 'e) aware_event list \<Rightarrow> ('r, 'e) aware_world \<Rightarrow> ('r, 'e) aware_world" where
  "aware_steps [] w = w"
| "aware_steps (x # xs) w = aware_steps xs (aware_step x w)"

section \<open>Every step is a history of store calls\<close>

text \<open>The worker changes the store through its calls only, and never clears an account.\<close>

definition by_calls :: "capacity_store \<Rightarrow> capacity_store \<Rightarrow> bool" where
  "by_calls st st' \<longleftrightarrow> (\<exists>xs. st' = store_steps xs st \<and> list_all (\<lambda>x. \<forall>k. \<not> clears_key k x) xs)"

lemma by_calls_refl [simp]: "by_calls st st"
  unfolding by_calls_def by (rule exI [of _ "[]"]) simp

lemma by_calls_trans: "by_calls a b \<Longrightarrow> by_calls b c \<Longrightarrow> by_calls a c"
  unfolding by_calls_def by (metis list_all_append store_steps_append)

lemma by_calls_one: "\<forall>k. \<not> clears_key k x \<Longrightarrow> by_calls st (store_step x st)"
  unfolding by_calls_def by (rule exI [of _ "[x]"]) simp

lemma observe_by_calls: "by_calls st (snd (observeWorkerCapacity opts rd c st))"
  using by_calls_one [of "CsObserve s u" for s u]
  by (auto simp: observeWorkerCapacity_def split: option.split)

lemma capacity_by_calls: "by_calls st (snd (aware_capacity opts rd st))"
  by (auto simp: aware_capacity_def Let_def observe_by_calls split: option.split)

lemma assert_by_calls: "by_calls st (snd (assertCapacityAvailable opts rd st))"
  using capacity_by_calls [of st opts rd]
  by (auto simp: assertCapacityAvailable_def split: option.split prod.split)

lemma begin_by_calls: "by_calls st (snd (recheck_begin opts rd state mode st))"
  using by_calls_one [of "CsClaim state (wo_workerId opts) (rd_now rd)
      (case wo_recheckClaimTtlMs opts of None \<Rightarrow> Fin 90000 | Some t \<Rightarrow> t) mode (rd_uuid rd)" st]
  by (auto simp: recheck_begin_def split: prod.split claim_result.split)

lemma finish_by_calls: "by_calls st (recheck_finish opts rd claim now answer st)"
  using by_calls_one [of "CsResolve claim (rd_now rd) (recheck_resolution_of opts now (rd_observeNow rd) answer) (rd_uuid rd)" st]
  by (simp add: recheck_finish_def)

lemma due_by_calls: "by_calls st (snd (recheckDueCapacity opts rd call st))"
  using begin_by_calls [of st opts rd _ DueOnly]
  by (auto simp: recheckDueCapacity_def Let_def split: option.split prod.split) (metis snd_conv)+

lemma assert_by_callsD: "assertCapacityAvailable opts rd st = (x, st1) \<Longrightarrow> by_calls st st1"
  by (metis assert_by_calls snd_conv)

lemma start_by_calls: "by_calls st (snd (aware_start opts rd call st))"
  by (auto simp: aware_start_def due_by_calls intro: by_calls_trans [OF _ due_by_calls] dest: assert_by_callsD
      split: aware_call.split option.split bool.split prod.split sum.split)

lemma resume_by_calls: "by_calls st (snd (aware_resume opts rd settled pc st))"
proof (induction opts rd settled pc st rule: aware_resume.induct)
  case (3 opts rd settled call st)
  show ?case by (auto dest: assert_by_callsD split: prod.split sum.split)
next
  case (5 opts rd e call st)
  let ?o = "observeWorkerCapacity opts rd (aware_workerCapacity rd) st"
  have o: "by_calls st (snd ?o)" by (rule observe_by_calls)
  have "by_calls st (snd (recheck_begin opts rd state Refresh (snd ?o)))" for state
    by (rule by_calls_trans [OF o begin_by_calls])
  with o show ?case by (auto simp: Let_def split: prod.split option.split) (metis snd_conv)+
qed (auto simp: observe_by_calls finish_by_calls split: option.split)

lemma step_by_calls:
  assumes "case x of EvStore y \<Rightarrow> \<forall>k. \<not> clears_key k y | _ \<Rightarrow> True"
  shows "by_calls (aw_store w) (aw_store (aware_step x w))"
proof (cases x)
  case (EvCall opts rd call)
  then show ?thesis by (simp add: split_def start_by_calls)
next
  case (EvResume i rd settled)
  then show ?thesis by (simp add: split_def resume_by_calls)
next
  case (EvStore y)
  with assms by_calls_one show ?thesis by simp
qed

lemma store_of_steps:
  "\<exists>xs. aw_store (aware_steps es w) = store_steps xs (aw_store w)"
proof (induction es arbitrary: w)
  case Nil
  show ?case by (rule exI [of _ "[]"]) simp
next
  case (Cons x es)
  have "\<exists>xs. aw_store (aware_step x w) = store_steps xs (aw_store w)"
  proof (cases x)
    case (EvStore y)
    then show ?thesis by (intro exI [of _ "[y]"]) simp
  qed (use step_by_calls [of x w] in \<open>auto simp: by_calls_def\<close>)
  with Cons [of "aware_step x w"] show ?case by (metis aware_steps.simps(2) store_steps_append)
qed

definition aware_world_new :: "('r, 'e) aware_world" where
  "aware_world_new = \<lparr>aw_store = store_new, aw_calls = []\<rparr>"

lemma reachable_aware_store:
  "\<exists>xs. aw_store (aware_steps es aware_world_new) = store_steps xs store_new"
  using store_of_steps [of es aware_world_new] by (simp add: aware_world_new_def)

section \<open>The gate in front of the wrapped worker\<close>

text \<open>What the worker relies on: a read answers only with limits.\<close>

locale account_gate =
  fixes good :: "'st \<Rightarrow> bool" and gate_read :: "string \<Rightarrow> runtime_demand option \<Rightarrow> date \<Rightarrow> 'st \<Rightarrow> capacity option"
  assumes limited: "good st \<Longrightarrow> gate_read a d now st = Some c \<Longrightarrow> ca_availability c \<noteq> Available"
begin

lemma merged_available:
  assumes "good st"
  shows "ca_availability (case gate_read a d now st of None \<Rightarrow> withAccountDetails w a
      | Some account \<Rightarrow> mergeWorkerAndAccountCapacity (withAccountDetails w a) (withAccountDetails account a)) = Available \<longleftrightarrow>
    gate_read a d now st = None \<and> ca_availability w = Available"
  using limited [OF assms]
  by (auto simp: withAccountDetails_def mergeWorkerAndAccountCapacity_def account_with_worker_details_def split: option.split)

end

interpretation gate: account_gate "\<lambda>st. store_inv st \<and> limits_only st" "\<lambda>a d now st. store_read a d (Some now) now now st"
  by unfold_locales (auto dest: store_read_unavailable)

lemma assert_ok:
  "assertCapacityAvailable opts rd st = (Inr u, st') \<longleftrightarrow>
     ca_availability (fst (aware_capacity opts rd st)) = Available \<and> st' = snd (aware_capacity opts rd st)"
  by (auto simp: assertCapacityAvailable_def split: prod.split option.split)

abbreviation worker_now :: "reading \<Rightarrow> capacity" where
  "worker_now rd \<equiv> normalizeWorkerCapacitySnapshot (aware_workerCapacity rd) (rd_now rd)"

lemma by_calls_good: "by_calls st st' \<Longrightarrow> store_inv st \<and> limits_only st \<Longrightarrow> store_inv st' \<and> limits_only st'"
  using store_inv_steps limits_only_steps by (auto simp: by_calls_def)

lemma aware_capacity_available:
  assumes "store_inv st \<and> limits_only st" and "rd_recovery rd = None"
  shows "ca_availability (fst (aware_capacity opts rd st)) = Available \<longleftrightarrow>
    ca_availability (worker_now rd) = Available \<and>
    (\<forall>a. truthy (aware_accountId opts (worker_now rd)) = Some a \<longrightarrow>
       store_read a (aware_runtimeDemand opts (worker_now rd)) (Some (rd_now rd)) (rd_now rd) (rd_now rd)
         (snd (aware_capacity opts rd st)) = None)"
proof -
  let ?st1 = "snd (observeWorkerCapacity opts rd (worker_now rd) st)"
  have st1: "store_inv ?st1 \<and> limits_only ?st1" using by_calls_good [OF observe_by_calls assms(1)] .
  have snd: "snd (aware_capacity opts rd st) = ?st1"
    using assms(2) by (simp add: aware_capacity_def Let_def split: option.split)
  show ?thesis
  proof (cases "truthy (aware_accountId opts (worker_now rd))")
    case None
    with assms(2) show ?thesis by (simp add: aware_capacity_def Let_def)
  next
    case (Some a)
    let ?d = "aware_runtimeDemand opts (worker_now rd)"
    have "fst (aware_capacity opts rd st) = (case store_read a ?d (Some (rd_now rd)) (rd_now rd) (rd_now rd) ?st1 of
        None \<Rightarrow> withAccountDetails (worker_now rd) a
      | Some account \<Rightarrow> mergeWorkerAndAccountCapacity (withAccountDetails (worker_now rd) a) (withAccountDetails account a))"
      using assms(2) Some by (simp add: aware_capacity_def Let_def split: option.split)
    with gate.merged_available [OF st1, where a = a and d = ?d and now = "rd_now rd" and w = "worker_now rd"] Some snd show ?thesis by auto
  qed
qed

lemma aware_resume_inner:
  assumes "aware_resume opts rd settled pc st = (AwInner call, st')" and "pc \<noteq> AwInner call"
  shows "pc = AwChecked call \<and> ca_availability (fst (aware_capacity opts rd st)) = Available \<and>
    st' = snd (aware_capacity opts rd st)"
  using assms
  by (induction opts rd settled pc st rule: aware_resume.induct)
     (auto simp: Let_def assert_ok split: option.splits if_splits prod.splits sum.splits)

lemma aware_start_not_inner: "aware_start opts rd call st \<noteq> (AwInner c, st')"
  by (auto simp: aware_start_def recheckDueCapacity_def Let_def
      split: aware_call.split option.split bool.split prod.split sum.split)

text \<open>
  C22. The wrapped worker is only let loose on an open account. Whenever, in any interleaving of
  calls of any workers with anything else done to the store, a call begins to run or prewarm the
  wrapped worker, that worker reports itself available and every limit recorded for the account and
  demand of the call is past its reset at that moment. (A recovery snapshot, when the reading has
  one, decides in place of the store.)
\<close>

theorem run_only_when_open:
  assumes "w = aware_steps es aware_world_new" and "w' = aware_step x w"
    and "i < length (aw_calls w')" and "aw_calls w' ! i = (opts, AwInner call)"
    and "i < length (aw_calls w) \<longrightarrow> aw_calls w ! i \<noteq> (opts, AwInner call)"
  shows "\<exists>rd settled. x = EvResume i rd settled \<and>
    (rd_recovery rd = None \<longrightarrow> ca_availability (worker_now rd) = Available \<and>
      (\<forall>a k r. truthy (aware_accountId opts (worker_now rd)) = Some a \<and>
         consulted a (aware_runtimeDemand opts (worker_now rd)) k \<and> map_of (st_records (aw_store w')) k = Some r \<longrightarrow>
         due_at r (rd_now rd)))"
proof -
  from reachable_aware_store [of es] assms(1) obtain xs where "aw_store w = store_steps xs store_new" by auto
  then have good: "store_inv (aw_store w) \<and> limits_only (aw_store w)" using reachable_store by simp
  show ?thesis
  proof (cases x)
    case (EvCall opts' rd call')
    then show ?thesis
      using assms(2-5)
      by (cases "i < length (aw_calls w)") (auto simp: nth_append aware_start_not_inner split: prod.splits)
  next
    case (EvStore y)
    with assms show ?thesis by simp
  next
    case (EvResume j rd settled)
    obtain opts' pc where pc: "aw_calls w ! j = (opts', pc)" by fastforce
    obtain pc' st' where res: "aware_resume opts' rd settled pc (aw_store w) = (pc', st')" by fastforce
    have j: "j < length (aw_calls w)" using assms(2-5) EvResume by (auto split: if_splits)
    then have w': "w' = \<lparr>aw_store = st', aw_calls = (aw_calls w)[j := (opts', pc')]\<rparr>"
      using assms(2) EvResume pc res by simp
    with assms(3-5) j have ij: "i = j" "opts' = opts" "pc' = AwInner call" "pc \<noteq> AwInner call"
      using pc by (auto simp: nth_list_update split: if_splits)
    have open_now: "ca_availability (fst (aware_capacity opts rd (aw_store w))) = Available"
      and st': "st' = snd (aware_capacity opts rd (aw_store w))" using aware_resume_inner res ij by blast+
    have jsmap: "jsmap_ok (st_records st')"
      using by_calls_good [OF capacity_by_calls good] st' by (auto simp: store_inv_def)
    have "ca_availability (worker_now rd) = Available \<and>
      (\<forall>a k r. truthy (aware_accountId opts (worker_now rd)) = Some a \<and>
         consulted a (aware_runtimeDemand opts (worker_now rd)) k \<and> map_of (st_records st') k = Some r \<longrightarrow> due_at r (rd_now rd))"
      if rec: "rd_recovery rd = None"
      using open_now store_read_active [OF jsmap, of _ _ _ _ "rd_now rd" "rd_now rd" "rd_now rd"]
      unfolding aware_capacity_available [OF good rec] st' [symmetric] by (metis option.distinct(1))
    with EvResume ij w' show ?thesis by auto
  qed
qed

definition demo_worker :: "string \<Rightarrow> aware_options" where
  "demo_worker name = \<lparr>wo_workerId = name, wo_accountId = Some ''acc'', wo_accountIdFromCapacityDetails = None,
     wo_runtimeDemand = None, wo_runtimeDemandFromCapacityDetails = None, wo_limitReasons = None,
     wo_accountWideLimitReasons = None, wo_capacityRechecker = False, wo_requireCapacityRecheckWhenDue = False,
     wo_recheckClaimTtlMs = None, wo_recheckFailureCooldownMs = None\<rparr>"

definition demo_reading :: "int \<Rightarrow> capacity option \<Rightarrow> reading" where
  "demo_reading t c = \<lparr>rd_now = Instant t, rd_observeNow = Instant t, rd_worker = c, rd_recovery = None, rd_uuid = ''u''\<rparr>"

lemma demo_reading_fields [simp]:
  "rd_now (demo_reading t c) = Instant t" "rd_recovery (demo_reading t c) = None" "rd_worker (demo_reading t c) = c"
  "rd_uuid (demo_reading t c) = ''u''" "rd_observeNow (demo_reading t c) = Instant t"
  by (simp_all add: demo_reading_def)

lemma demo_worker_account: "truthy (aware_accountId (demo_worker n) c) = Some ''acc''"
  by (simp add: aware_accountId_def demo_worker_def truthy_def)

lemma demo_worker_demand: "ca_details c = None \<Longrightarrow> aware_runtimeDemand (demo_worker n) c = None"
  by (simp add: aware_runtimeDemand_def demo_worker_def defaultRuntimeDemandFromCapacityDetails_def
      normalizeWorkerRuntimeDemand_def detail_def trimmed_def js_trim_def nullish_def)

lemma demo_available_demand: "aware_runtimeDemand (demo_worker n) available_capacity = None"
  by (simp add: demo_worker_demand available_capacity_def)

lemma demo_worker_idle: "normalizeWorkerCapacitySnapshot (aware_workerCapacity (demo_reading t None)) now = available_capacity"
  by (simp add: aware_workerCapacity_def normalizeWorkerCapacitySnapshot_def available_capacity_def)

lemma demo_new_reads:
  "store_readState ''acc'' None now store_new = None" "store_read ''acc'' None (Some now) t1 t2 store_new = None"
  by (simp_all add: store_read_def store_readState_def readAggregateRecord_def selectPreferredRecord_def store_new_def List.map_filter_def)

lemma demo_started:
  "aware_steps [EvCall (demo_worker n) (demo_reading 1 None) CallRun] aware_world_new =
     \<lparr>aw_store = store_new, aw_calls = [(demo_worker n, AwChecked CallRun)]\<rparr>"
  by (simp add: aware_world_new_def aware_start_def recheckDueCapacity_def Let_def demo_worker_idle demo_worker_account
      demo_available_demand demo_new_reads)

lemma demo_idle_capacity:
  "ca_availability (fst (aware_capacity (demo_worker n) (demo_reading t None) store_new)) = Available"
  "snd (aware_capacity (demo_worker n) (demo_reading t None) store_new) = store_new"
proof -
  have "observeWorkerCapacity (demo_worker n) (demo_reading t None) available_capacity store_new = (None, store_new)"
    by (simp add: observeWorkerCapacity_def isWorkerAccountLimitCapacity_def isPersistableWorkerAccountCapacity_def available_capacity_def)
  then show "ca_availability (fst (aware_capacity (demo_worker n) (demo_reading t None) store_new)) = Available"
    "snd (aware_capacity (demo_worker n) (demo_reading t None) store_new) = store_new"
    by (simp_all add: aware_capacity_def Let_def demo_worker_idle demo_worker_account demo_available_demand
        demo_new_reads withAccountDetails_def) (simp add: available_capacity_def)
qed

lemma demo_assert: "assertCapacityAvailable (demo_worker n) (demo_reading t None) store_new = (Inr (), store_new)"
  by (simp add: assert_ok demo_idle_capacity)

lemma demo_running:
  "aware_step (EvResume 0 (demo_reading 2 None) (RecheckerSettled (Inr available_capacity)))
      \<lparr>aw_store = store_new, aw_calls = [(demo_worker n, AwChecked CallRun)]\<rparr> =
   \<lparr>aw_store = store_new, aw_calls = [(demo_worker n, AwInner CallRun)]\<rparr>"
  by (simp add: demo_assert)

theorem run_only_when_open_witness:
  "\<exists>rd settled. EvResume 0 (demo_reading 2 None) (RecheckerSettled (Inr available_capacity)) =
     (EvResume 0 rd settled :: (nat, nat) aware_event) \<and> ca_availability (worker_now rd) = Available"
proof -
  let ?x = "EvResume 0 (demo_reading 2 None) (RecheckerSettled (Inr available_capacity)) :: (nat, nat) aware_event"
  let ?w = "aware_steps [EvCall (demo_worker ''w'') (demo_reading 1 None) CallRun] aware_world_new"
  from run_only_when_open [OF refl refl, of 0 ?x "[EvCall (demo_worker ''w'') (demo_reading 1 None) CallRun]" "demo_worker ''w''" CallRun]
  show ?thesis unfolding demo_started demo_running by auto
qed

section \<open>A limit seen by one worker stops all\<close>

lemma steps_without_clear:
  assumes "list_all (\<lambda>x. case x of EvStore y \<Rightarrow> \<not> clears_key k y | _ \<Rightarrow> True) es"
  shows "\<exists>ys. aw_store (aware_steps es w) = store_steps ys (aw_store w) \<and> list_all (\<lambda>y. \<not> clears_key k y) ys"
  using assms
proof (induction es arbitrary: w)
  case Nil
  show ?case by (rule exI [of _ "[]"]) simp
next
  case (Cons x es)
  have "\<exists>ys. aw_store (aware_step x w) = store_steps ys (aw_store w) \<and> list_all (\<lambda>y. \<not> clears_key k y) ys"
  proof (cases x)
    case (EvStore y)
    with Cons.prems show ?thesis by (intro exI [of _ "[y]"]) simp
  qed (use step_by_calls [of x w] in \<open>auto simp: by_calls_def list_all_iff\<close>)
  then obtain ys where ys: "aw_store (aware_step x w) = store_steps ys (aw_store w)" "list_all (\<lambda>y. \<not> clears_key k y) ys" by blast
  from Cons.IH [of "aware_step x w"] Cons.prems obtain zs where
    "aw_store (aware_steps es (aware_step x w)) = store_steps zs (aw_store (aware_step x w))" "list_all (\<lambda>y. \<not> clears_key k y) zs" by auto
  with ys show ?case by (intro exI [of _ "ys @ zs"]) simp
qed

lemma failed_run_observes:
  assumes "rd_worker rd = Some c" and "isWorkerAccountLimitCapacity c (aware_limitReasons opts)"
    and "ca_reason c = Some session_invalid" and "truthy (aware_accountId opts c) = Some a"
  shows "aware_resume opts rd (RunSettled (Inl e)) (AwInner CallRun) st =
    (AwDone (Inl (AwareInner e)), store_step (CsObserve (aware_signal opts rd a c) (rd_uuid rd)) st)"
  using assms by (simp add: aware_workerCapacity_def observeWorkerCapacity_def split: prod.split option.split)

lemma blocked_check_refuses:
  assumes "store_inv st \<and> limits_only st" and "rd_recovery rd = None"
    and "truthy (aware_accountId opts (worker_now rd)) = Some a"
    and "\<And>st'. by_calls st st' \<Longrightarrow>
      store_read a (aware_runtimeDemand opts (worker_now rd)) (Some (rd_now rd)) (rd_now rd) (rd_now rd) st' \<noteq> None"
  shows "\<exists>err st'. aware_resume opts rd s (AwChecked call) st = (AwDone (Inl err), st') \<and>
    (err = AwareRangeError \<or>
     (\<exists>d. err = AwareError (SubscriptionWorkerError AccountUnavailable ''Worker account capacity is unavailable.'' d)))"
proof -
  have "ca_availability (fst (aware_capacity opts rd st)) \<noteq> Available"
    using aware_capacity_available [OF assms(1,2)] assms(3) assms(4) [OF capacity_by_calls] by blast
  then show ?thesis by (auto simp: assertCapacityAvailable_def split: prod.split option.split)
qed


definition demo_dead :: capacity where
  "demo_dead = demo_invalid\<lparr>ca_availability := Disabled\<rparr>"

definition demo_events :: "(nat, nat) aware_event list" where
  "demo_events = [EvCall (demo_worker ''w'') (demo_reading 1 None) CallRun,
     EvResume 0 (demo_reading 2 None) (RecheckerSettled (Inr available_capacity)),
     EvCall (demo_worker ''v'') (demo_reading 3 None) CallRun]"

lemma demo_two_workers:
  "aware_steps demo_events aware_world_new =
     \<lparr>aw_store = store_new, aw_calls = [(demo_worker ''w'', AwInner CallRun), (demo_worker ''v'', AwChecked CallRun)]\<rparr>"
proof -
  have 1: "aware_step (EvCall (demo_worker ''w'') (demo_reading 1 None) CallRun) aware_world_new =
      \<lparr>aw_store = store_new, aw_calls = [(demo_worker ''w'', AwChecked CallRun)]\<rparr>"
    using demo_started [of "''w''"] by simp
  have 2: "aware_start (demo_worker ''v'') (demo_reading 3 None) CallRun store_new = (AwChecked CallRun, store_new)"
    by (simp add: aware_start_def recheckDueCapacity_def Let_def demo_worker_idle demo_worker_account demo_available_demand demo_new_reads)
  show ?thesis
    unfolding demo_events_def aware_steps.simps 1 demo_running by (simp add: 2)
qed

lemma demo_dead_signal:
  "signal_key (aware_signal (demo_worker n) rd ''acc'' demo_dead) = Some ''acc''"
  "isWorkerAccountLimitCapacity demo_dead (aware_limitReasons (demo_worker n))" "ca_reason demo_dead = Some session_invalid"
proof -
  have d: "ca_details demo_dead = None" "ca_reason demo_dead = Some session_invalid" "ca_availability demo_dead = Disabled"
    by (simp_all add: demo_dead_def demo_invalid_def)
  show "ca_reason demo_dead = Some session_invalid" by (rule d)
  show "isWorkerAccountLimitCapacity demo_dead (aware_limitReasons (demo_worker n))"
    using d by (simp add: isWorkerAccountLimitCapacity_def isPersistableWorkerAccountCapacity_def truthy_def aware_limitReasons_def
        demo_worker_def defaultWorkerAccountLimitReasons_def)
  have "defaultRuntimeDemandFromCapacityDetails None = None"
    by (simp add: defaultRuntimeDemandFromCapacityDetails_def normalizeWorkerRuntimeDemand_def detail_def trimmed_def js_trim_def nullish_def)
  then show "signal_key (aware_signal (demo_worker n) rd ''acc'' demo_dead) = Some ''acc''"
    using d demo_worker_demand [OF d(1), of n]
    by (simp add: signal_key_def signal_demand_def aware_signal_def Let_def accountCapacityKey_def workerRuntimeDemandKey_def truthy_def)
qed


section \<open>Every call ends\<close>

fun aware_rank :: "('r, 'e) aware_pc \<Rightarrow> nat" where
  "aware_rank (AwRecheck call a d claim now) = 6"
| "aware_rank (AwRechecked call a d) = 5"
| "aware_rank (AwChecked call) = 4"
| "aware_rank (AwInner call) = 3"
| "aware_rank (AwRefresh claim now e) = 2"
| "aware_rank (AwRefreshed e) = 1"
| "aware_rank AwRecovery = 1"
| "aware_rank (AwDone r) = 0"

text \<open>The promise the call waits for has settled.\<close>

fun awaited :: "('r, 'e) settled \<Rightarrow> ('r, 'e) aware_pc \<Rightarrow> bool" where
  "awaited (RecheckerSettled x) (AwInner call) = False"
| "awaited (RecheckerSettled x) AwRecovery = False"
| "awaited (RunSettled x) (AwRecheck call a d claim now) = False"
| "awaited (RunSettled x) (AwRefresh claim now e) = False"
| "awaited x (AwDone r) = False"
| "awaited x pc = True"

lemma aware_resume_rank:
  "aware_rank (fst (aware_resume opts rd s pc st)) \<le> aware_rank pc - (if awaited s pc then 1 else 0)"
  by (induction opts rd s pc st rule: aware_resume.induct) (auto simp: Let_def split: option.split prod.split sum.split)

lemma rank_bound: "aware_rank pc \<le> 6"
  by (cases pc) auto

lemma rank_0: "aware_rank pc = 0 \<longleftrightarrow> (\<exists>r. pc = AwDone r)"
  by (cases pc) auto

text \<open>How often in a history of events a call is resumed by the promise it waits for.\<close>

fun resumed :: "nat \<Rightarrow> ('r, 'e) aware_event list \<Rightarrow> ('r, 'e) aware_world \<Rightarrow> nat" where
  "resumed i [] w = 0"
| "resumed i (x # es) w =
     (case x of EvResume j rd s \<Rightarrow> if j = i \<and> awaited s (snd (aw_calls w ! i)) then 1 else 0 | _ \<Rightarrow> 0) +
     resumed i es (aware_step x w)"

lemma awaited_rank: "awaited s pc \<Longrightarrow> 0 < aware_rank pc"
  by (cases s; cases pc) auto

lemma resumed_rank:
  assumes "i < length (aw_calls w)"
  shows "i < length (aw_calls (aware_steps es w)) \<and>
    aware_rank (snd (aw_calls (aware_steps es w) ! i)) + resumed i es w \<le> aware_rank (snd (aw_calls w ! i))"
  using assms
proof (induction es arbitrary: w)
  case (Cons x es)
  let ?n = "case x of EvResume j rd s \<Rightarrow> if j = i \<and> awaited s (snd (aw_calls w ! i)) then 1 else (0::nat) | _ \<Rightarrow> 0"
  have step: "i < length (aw_calls (aware_step x w)) \<and>
      aware_rank (snd (aw_calls (aware_step x w) ! i)) + ?n \<le> aware_rank (snd (aw_calls w ! i))"
  proof (cases x)
    case (EvCall opts rd call)
    with Cons.prems show ?thesis by (simp add: split_def nth_append)
  next
    case (EvResume j rd s)
    obtain opts pc where pc: "aw_calls w ! i = (opts, pc)" by fastforce
    show ?thesis
    proof (cases "j = i")
      case True
      have "aware_rank (fst (aware_resume opts rd s pc (aw_store w))) + (if awaited s pc then 1 else 0) \<le> aware_rank pc"
        using aware_resume_rank [of opts rd s pc "aw_store w"] awaited_rank [of s pc] by (auto split: if_splits)
      with EvResume True pc Cons.prems show ?thesis by (simp add: split_def del: aware_resume.simps)
    next
      case False
      with EvResume Cons.prems show ?thesis by (simp add: split_def)
    qed
  next
    case (EvStore y)
    with Cons.prems show ?thesis by simp
  qed
  with Cons.IH [of "aware_step x w"] show ?case by (simp del: aware_step.simps)
qed simp



section \<open>What a recheck leaves behind\<close>

text \<open>
  A recheck opens the account only on proof. When the rechecker of a claim that is still valid
  answers that the account is available, its record is removed; when it answers with a limit, when
  its answer is inconclusive and when it throws, a record stays that blocks again: for a limit never
  an available one, and otherwise a cooldown until the retry time. In every case the claim is given
  up.
\<close>

theorem recheck_opens_only_on_proof:
  assumes "st = store_steps calls store_new" and "map_of (st_claims st) k = Some claim"
    and "\<not> date_le (rk_expiresAt claim) (rd_now rd)" and "st' = recheck_finish opts rd claim now answer st"
  shows "map_of (st_claims st') k = None \<and>
    (case answer of
       Inr c \<Rightarrow>
         if ca_availability c = Available then map_of (st_records st') k = None
         else if ca_availability c \<in> {QuotaExhausted, Cooldown}
         then (\<exists>r. map_of (st_records st') k = Some r \<and> ca_availability (kr_capacity r) \<noteq> Available)
         else (\<exists>r. map_of (st_records st') k = Some r \<and> ca_availability (kr_capacity r) = Cooldown \<and>
                 ca_cooldownUntil (kr_capacity r) =
                   Some (newDate (js_add (getTime now) (case wo_recheckFailureCooldownMs opts of None \<Rightarrow> Fin 60000 | Some t \<Rightarrow> t))))
     | Inl e \<Rightarrow> \<exists>r. map_of (st_records st') k = Some r \<and> ca_availability (kr_capacity r) = Cooldown \<and>
                 ca_cooldownUntil (kr_capacity r) =
                   Some (newDate (js_add (getTime (rd_observeNow rd)) (case wo_recheckFailureCooldownMs opts of None \<Rightarrow> Fin 60000 | Some t \<Rightarrow> t))))"
proof -
  let ?res = "recheck_resolution_of opts now (rd_observeNow rd) answer"
  have inv: "store_inv st" using reachable_store assms(1) by simp
  from resolve_own_claim [OF inv assms(2,3), of ?res "rd_uuid rd"] assms(4) obtain r where
    r: "map_of (st_records st') k = map_option (\<lambda>cap. r\<lparr>kr_revision := rd_uuid rd, kr_capacity := cap\<rparr>) (resolvedCapacity claim (rd_now rd) ?res)"
      "map_of (st_claims st') k = None"
    by (auto simp: recheck_finish_def)
  have limited: "\<exists>cap. resolvedCapacity claim (rd_now rd) (ResolveLimited c) = Some cap \<and> ca_availability cap \<noteq> Available" for c
  proof -
    obtain cap where cap: "resolvedCapacity claim (rd_now rd) (ResolveLimited c) = Some cap"
      by (cases "resolvedCapacity claim (rd_now rd) (ResolveLimited c)") (auto simp: resolvedCapacity_def)
    with resolved_limit [OF cap, of "r\<lparr>kr_capacity := cap\<rparr>"] show ?thesis by (auto simp: session_blocked_def)
  qed
  show ?thesis
  proof (cases answer)
    case (Inl e)
    with r show ?thesis by (simp add: recheck_resolution_of_def Let_def resolvedCapacity_def)
  next
    case (Inr c)
    with r limited [of c] show ?thesis
      by (cases "ca_availability c") (auto simp: recheck_resolution_of_def Let_def resolvedCapacity_def [of _ _ ResolveAvailable]
          resolvedCapacity_def [of _ _ "ResolveRetry _ _"])
  qed
qed

theorem recheck_opens_only_on_proof_witness:
  "\<exists>claim. map_of (st_records (recheck_finish (demo_worker ''w'') (demo_reading 30 None) claim (Instant 20) (Inr available_capacity :: nat + capacity)
     (store_steps [CsObserve (demo_signal (demo_limit Cooldown 9) 3) ''u'',
        CsClaim (stateFromRecord demo_record (Instant 20)) ''w1'' (Instant 20) (Fin 50) DueOnly ''id''] store_new))) ''acc'' = None"
proof -
  let ?calls = "[CsObserve (demo_signal (demo_limit Cooldown 9) 3) ''u'',
        CsClaim (stateFromRecord demo_record (Instant 20)) ''w1'' (Instant 20) (Fin 50) DueOnly ''id'']"
  from demo_claimed obtain claim where
    c: "map_of (st_claims (store_steps ?calls store_new)) ''acc'' = Some claim" "rk_expiresAt claim = Instant 70" by auto
  then have "\<not> date_le (rk_expiresAt claim) (rd_now (demo_reading 30 None))" by simp
  from recheck_opens_only_on_proof [OF refl c(1) this refl, of "demo_worker ''w''" "Instant 20" "Inr available_capacity :: nat + capacity"]
  show ?thesis by (auto simp: available_capacity_def)
qed

end
