(* ===== verification/Worker_Pool.thy ===== *)
theory Worker_Pool
  imports Capacity_Worker
begin

text \<open>
  The bounded pool of workers, \<open>src/worker-core/worker-pool.ts\<close>, with its helpers
  \<open>worker-pool-capacity.ts\<close> and \<open>worker-pool-retry.ts\<close>.

  Slots are objects the code shares and mutates, also after it has dropped them from the array of
  slots: they live in a heap, and the array holds references, with holes where an assignment beyond
  its end leaves them. Every asynchronous method is a program counter that an event advances by one
  await: a run waits for its worker, then for the callbacks that count it and free its slot, then
  for its retry decision. The clock and the workers' capacities come with each event as a
  \<open>pool_reading\<close>; what a promise settles with is an argument of the event.
\<close>

section \<open>Definitions\<close>

subsection \<open>Errors and policies\<close>

text \<open>An error of the pool with its cause, if it has one, or the \<open>TypeError\<close> of reading a hole.\<close>

datatype 'e pool_error = PoolError (pe_error: worker_error) (pe_cause: "'e option") | PoolTypeError | PoolOther 'e

definition runAbortedError :: "'e pool_error" where
  "runAbortedError = PoolError (SubscriptionWorkerError PoolRunAborted ''Worker pool run was aborted before it started.'' Map.empty) None"

fun isStartTimeoutError :: "'e pool_error \<Rightarrow> bool" where
  "isStartTimeoutError (PoolError err cause) = (we_code err = StartTimeout)"
| "isStartTimeoutError _ = False"

definition normalizeIdempotencyKey :: "string option \<Rightarrow> string option" where
  "normalizeIdempotencyKey v = trimmed v"

record pool_retry_policy =
  pp_maxAttempts :: "jsnum option"
  pp_retryOnSlotCapacityUnavailable :: "bool option"
  pp_capacityPollMs :: "jsnum option"

record required_policy =
  rq_maxAttempts :: jsnum
  rq_retryOnSlotCapacityUnavailable :: bool
  rq_capacityPollMs :: jsnum

definition policy_field :: "(pool_retry_policy \<Rightarrow> 'a option) \<Rightarrow> pool_retry_policy option \<Rightarrow> pool_retry_policy option \<Rightarrow> 'a \<Rightarrow> 'a" where
  "policy_field f run_policy pool_policy d =
     (case nullish (Option.bind run_policy f) (Option.bind pool_policy f) of None \<Rightarrow> d | Some x \<Rightarrow> x)"

definition retryPolicy :: "pool_retry_policy option \<Rightarrow> pool_retry_policy option \<Rightarrow> required_policy" where
  "retryPolicy run_policy pool_policy =
     \<lparr>rq_maxAttempts = js_max (Fin 1) (policy_field pp_maxAttempts run_policy pool_policy (Fin 1)),
      rq_retryOnSlotCapacityUnavailable = policy_field pp_retryOnSlotCapacityUnavailable run_policy pool_policy False,
      rq_capacityPollMs = js_max (Fin 250) (policy_field pp_capacityPollMs run_policy pool_policy (Fin 30000))\<rparr>"

subsection \<open>Capacity of the slots\<close>

text \<open>A snapshot of a slot; \<open>sn_pending\<close>: its capacity carries a genuine prepared recovery.\<close>

record slot_snapshot =
  sn_slotIndex :: nat
  sn_workerId :: string
  sn_busy :: bool
  sn_capacity :: capacity
  sn_pending :: bool

definition isResettableCapacity :: "capacity \<Rightarrow> bool" where
  "isResettableCapacity c = (ca_availability c = Cooldown \<or> ca_availability c = QuotaExhausted)"

definition normalizeCapacity :: "capacity \<Rightarrow> date \<Rightarrow> capacity" where
  "normalizeCapacity c now =
     (case ca_cooldownUntil c of
        None \<Rightarrow> c
      | Some u \<Rightarrow>
          if \<not> isResettableCapacity c \<or> js_lt (getTime now) (getTime u) then c
          else c\<lparr>ca_cooldownUntil := None, ca_lastLimitSignalAt := None, ca_reason := None, ca_availability := Available\<rparr>)"

definition isAuthBlockedCapacity :: "capacity \<Rightarrow> bool" where
  "isAuthBlockedCapacity c =
     (ca_reason c \<in> {Some ''auth_invalid'', Some ''auth_missing'', Some ''account_unavailable'', Some session_invalid,
        Some ''reconnect_required''} \<or>
      detail (ca_details c) ''code'' \<in> {Some ''auth_invalid'', Some session_invalid})"

definition runnableWorkerCapacity :: "slot_snapshot \<Rightarrow> bool" where
  "runnableWorkerCapacity sn =
     (ca_availability (sn_capacity sn) = Available \<or> ca_availability (sn_capacity sn) = Cooldown \<and> sn_pending sn)"

definition pool_summarizeAvailability :: "(string \<Rightarrow> string \<Rightarrow> bool) \<Rightarrow> slot_snapshot list \<Rightarrow> string" where
  "pool_summarizeAvailability le ss =
     join_counts (sort_by le (fold (\<lambda>sn. count_name (availability_name (ca_availability (sn_capacity sn)))) ss []))"

definition pool_summarizeReasons :: "(string \<Rightarrow> string \<Rightarrow> bool) \<Rightarrow> slot_snapshot list \<Rightarrow> string" where
  "pool_summarizeReasons le ss =
     join_counts (sort_by le (fold (\<lambda>sn counts.
       case truthy (nullish (ca_reason (sn_capacity sn)) (detail (ca_details (sn_capacity sn)) ''code'')) of
         None \<Rightarrow> counts | Some r \<Rightarrow> count_name r counts) ss []))"

definition pool_capacityRecoveryDetails :: "(string \<Rightarrow> string \<Rightarrow> bool) \<Rightarrow> slot_snapshot list \<Rightarrow> details" where
  "pool_capacityRecoveryDetails le ss =
     (let reasons = pool_summarizeReasons le ss in
      (if reasons \<noteq> [] then [''reasons'' \<mapsto> reasons] else Map.empty) ++
      (if list_ex (\<lambda>sn. isAuthBlockedCapacity (sn_capacity sn)) ss
       then [''recoveryHint'' \<mapsto> authBlockedWorkerCapacityRecoveryHint] else Map.empty))"

definition capacityUnavailableError ::
    "(string \<Rightarrow> string \<Rightarrow> bool) \<Rightarrow> slot_snapshot list \<Rightarrow> required_policy \<Rightarrow> worker_error option" where
  "capacityUnavailableError le ss policy =
     (if list_ex sn_busy ss then None
      else if list_ex (\<lambda>sn. isResettableCapacity (sn_capacity sn) \<and> ca_cooldownUntil (sn_capacity sn) \<noteq> None) ss then None
      else if rq_retryOnSlotCapacityUnavailable policy \<and> list_ex (\<lambda>sn. isAuthBlockedCapacity (sn_capacity sn)) ss then None
      else
        let unavailable = filter (\<lambda>sn. ca_availability (sn_capacity sn) \<noteq> Available) ss in
        if unavailable = [] then None
        else Some (SubscriptionWorkerError PoolCapacityUnavailable ''Worker pool has no available or resettable-capacity slots.''
               ([''availability'' \<mapsto> pool_summarizeAvailability le unavailable] ++ pool_capacityRecoveryDetails le unavailable)))"

definition nextCooldownDrainAt :: "slot_snapshot list \<Rightarrow> jsnum option" where
  "nextCooldownDrainAt ss =
     foldl (\<lambda>nextAt sn.
        if \<not> isResettableCapacity (sn_capacity sn) then nextAt
        else case ca_cooldownUntil (sn_capacity sn) of
               None \<Rightarrow> nextAt
             | Some d \<Rightarrow> (case nextAt of None \<Rightarrow> Some (getTime d) | Some n \<Rightarrow> Some (js_min n (getTime d)))) None ss"

subsection \<open>The pool\<close>

datatype pool_state = PsCreated | PsStarting | PsStarted | PsPrewarming | PsReady | PsDraining | PsDisposed | PsFailed

record slot_obj =
  so_index :: nat
  so_busy :: bool

text \<open>
  Where a run waits: in the queue; for the worker of a slot (with the number of the attempt); for
  the callback that frees the slot, with its counted result; for its retry decision; for the run it
  shares a key with; or not any more.
\<close>

datatype ('r, 'e) run_pc =
    RunQueued
  | RunOnSlot nat nat
  | RunCounted nat nat "'e pool_error + 'r"
  | RunFreed nat nat "'e pool_error + 'r"
  | RunFollows nat
  | RunEnded

text \<open>
  A run as the caller sees it: \<open>ru_listens\<close>, the promise it was handed rejects when its signal
  aborts; \<open>ru_outcome\<close>, what that promise has settled with.
\<close>

record ('j, 'r, 'e) pool_run =
  ru_job :: 'j
  ru_policy :: "pool_retry_policy option"
  ru_signal :: bool
  ru_aborted :: bool
  ru_listens :: bool
  ru_pc :: "('r, 'e) run_pc"
  ru_outcome :: "('e pool_error + 'r) option"

datatype 'e start_pc = StWorker nat nat | StCleanup "'e pool_error" | StPrewarm | StDisposing "'e pool_error" | StDone "'e pool_error + unit"

datatype 'e restart_pc =
    RsDispose nat nat bool | RsStart nat nat bool | RsPrewarm nat nat | RsCleanup nat "'e pool_error" | RsDone "'e pool_error + unit"

datatype 'e prewarm_pc = PwWait | PwDone "'e pool_error + unit"

datatype 'e dispose_pc = DsWait jsnum | DsClosing | DsDone "'e pool_error + unit"

record ('j, 'r, 'e) pool =
  po_heap :: "slot_obj list"
  po_slots :: "nat option list"
  po_queue :: "nat list"
  po_state :: pool_state
  po_completed :: nat
  po_failed :: nat
  po_restarted :: nat
  po_inFlight :: int
  po_cooldownDrainAt :: "jsnum option"
  po_cooldownDrainTimer :: bool
  po_idempotentRuns :: "(string \<times> nat) list"
  po_runs :: "('j, 'r, 'e) pool_run list"
  po_starts :: "'e start_pc list"
  po_restarts :: "'e restart_pc list"
  po_prewarms :: "'e prewarm_pc list"
  po_disposals :: "'e dispose_pc list"

record 'j pool_options =
  px_poolId :: string
  px_slots :: jsnum
  px_slotSelector :: "(slot_snapshot list \<Rightarrow> 'j \<Rightarrow> date \<Rightarrow> nat option) option"
  px_retryPolicy :: "pool_retry_policy option"
  px_maxQueueSize :: "jsnum option"
  px_shutdownTimeoutMs :: "jsnum option"
  px_prewarmOnStart :: bool
  px_localeLe :: "string \<Rightarrow> string \<Rightarrow> bool"

record pool_reading =
  pv_now :: date
  pv_capacity :: "nat \<Rightarrow> (capacity \<times> bool) option"

abbreviation pool_throw :: "worker_error_code \<Rightarrow> string \<Rightarrow> details \<Rightarrow> 'e pool_error" where
  "pool_throw code message d \<equiv> PoolError (SubscriptionWorkerError code message d) None"

definition pool_new :: "'j pool_options \<Rightarrow> 'e pool_error + ('j, 'r, 'e) pool" where
  "pool_new opts =
     (if js_trim (px_poolId opts) = [] then Inl (pool_throw PoolEmpty ''Worker pool id is required.'' Map.empty)
      else if \<not> js_isInteger (px_slots opts) \<or> js_le (px_slots opts) (Fin 0)
      then Inl (pool_throw PoolEmpty ''Worker pool must have at least one slot.'' Map.empty)
      else Inr \<lparr>po_heap = [], po_slots = [], po_queue = [], po_state = PsCreated, po_completed = 0, po_failed = 0,
             po_restarted = 0, po_inFlight = 0, po_cooldownDrainAt = None, po_cooldownDrainTimer = False,
             po_idempotentRuns = [], po_runs = [], po_starts = [], po_restarts = [], po_prewarms = [], po_disposals = []\<rparr>)"

definition workerPoolSlotId :: "string \<Rightarrow> nat \<Rightarrow> string" where
  "workerPoolSlotId poolId index = poolId @ '':slot-'' @ nat_digits (index + 1)"

definition createSlot :: "nat \<Rightarrow> ('j, 'r, 'e) pool \<Rightarrow> nat \<times> ('j, 'r, 'e) pool" where
  "createSlot index p = (length (po_heap p), p\<lparr>po_heap := po_heap p @ [\<lparr>so_index = index, so_busy = False\<rparr>]\<rparr>)"

definition set_busy :: "nat \<Rightarrow> bool \<Rightarrow> ('j, 'r, 'e) pool \<Rightarrow> ('j, 'r, 'e) pool" where
  "set_busy s b p = p\<lparr>po_heap := (po_heap p)[s := (po_heap p ! s)\<lparr>so_busy := b\<rparr>]\<rparr>"

definition set_run :: "nat \<Rightarrow> ('j, 'r, 'e) pool_run \<Rightarrow> ('j, 'r, 'e) pool \<Rightarrow> ('j, 'r, 'e) pool" where
  "set_run i r p = p\<lparr>po_runs := (po_runs p)[i := r]\<rparr>"

definition set_run_pc :: "nat \<Rightarrow> ('r, 'e) run_pc \<Rightarrow> ('j, 'r, 'e) pool \<Rightarrow> ('j, 'r, 'e) pool" where
  "set_run_pc i pc p = set_run i ((po_runs p ! i)\<lparr>ru_pc := pc\<rparr>) p"

text \<open>A promise settles once; \<open>resolveOnce\<close> and \<open>rejectOnce\<close> also stop listening for an abort.\<close>

definition settle_promise :: "nat \<Rightarrow> 'e pool_error + 'r \<Rightarrow> ('j, 'r, 'e) pool \<Rightarrow> ('j, 'r, 'e) pool" where
  "settle_promise i out p = set_run i ((po_runs p ! i)\<lparr>ru_outcome := nullish (ru_outcome (po_runs p ! i)) (Some out)\<rparr>) p"

definition settle :: "nat \<Rightarrow> 'e pool_error + 'r \<Rightarrow> ('j, 'r, 'e) pool \<Rightarrow> ('j, 'r, 'e) pool" where
  "settle i out p =
     set_run i ((po_runs p ! i)\<lparr>ru_outcome := nullish (ru_outcome (po_runs p ! i)) (Some out), ru_listens := False\<rparr>) p"

definition end_run :: "nat \<Rightarrow> 'e pool_error + 'r \<Rightarrow> ('j, 'r, 'e) pool \<Rightarrow> ('j, 'r, 'e) pool" where
  "end_run i out p = set_run_pc i RunEnded (settle i out p)"

subsection \<open>Choosing a slot\<close>

definition slotCapacity :: "pool_reading \<Rightarrow> ('j, 'r, 'e) pool \<Rightarrow> nat \<Rightarrow> capacity \<times> bool" where
  "slotCapacity rd p s =
     (if so_busy (po_heap p ! s) then (available_capacity\<lparr>ca_availability := Busy\<rparr>, False)
      else case pv_capacity rd s of
             None \<Rightarrow> (available_capacity, False)
           | Some (c, pending) \<Rightarrow> (normalizeCapacity c (pv_now rd), pending))"

definition slot_snapshot_of :: "'j pool_options \<Rightarrow> pool_reading \<Rightarrow> ('j, 'r, 'e) pool \<Rightarrow> nat \<Rightarrow> slot_snapshot" where
  "slot_snapshot_of opts rd p s =
     \<lparr>sn_slotIndex = so_index (po_heap p ! s), sn_workerId = workerPoolSlotId (px_poolId opts) (so_index (po_heap p ! s)),
      sn_busy = so_busy (po_heap p ! s), sn_capacity = fst (slotCapacity rd p s), sn_pending = snd (slotCapacity rd p s)\<rparr>"

definition slotSnapshots :: "'j pool_options \<Rightarrow> pool_reading \<Rightarrow> ('j, 'r, 'e) pool \<Rightarrow> slot_snapshot option list" where
  "slotSnapshots opts rd p = map (map_option (slot_snapshot_of opts rd p)) (po_slots p)"

text \<open>\<open>snapshots.find(...)\<close>: \<open>find\<close> visits the holes of an array, and reading one throws.\<close>

fun find_snapshot :: "nat \<Rightarrow> slot_snapshot option list \<Rightarrow> unit + slot_snapshot option" where
  "find_snapshot i [] = Inr None"
| "find_snapshot i (None # sns) = Inl ()"
| "find_snapshot i (Some sn # sns) = (if sn_slotIndex sn = i then Inr (Some sn) else find_snapshot i sns)"

definition slot_at :: "nat option list \<Rightarrow> nat \<Rightarrow> nat option" where
  "slot_at slots i = (if i < length slots then slots ! i else None)"

definition selectAvailableSlot ::
    "'j pool_options \<Rightarrow> pool_reading \<Rightarrow> 'j \<Rightarrow> ('j, 'r, 'e) pool \<Rightarrow> 'e pool_error + nat option \<times> slot_snapshot list" where
  "selectAvailableSlot opts rd job p =
     (let sparse = slotSnapshots opts rd p;
          snapshots = List.map_filter id sparse;
          available = filter (\<lambda>sn. \<not> sn_busy sn \<and> runnableWorkerCapacity sn) snapshots
      in case available of
           [] \<Rightarrow> Inr (None, snapshots)
         | first # _ \<Rightarrow>
             let selected = (case Option.bind (px_slotSelector opts) (\<lambda>f. f snapshots job (pv_now rd)) of
                   None \<Rightarrow> sn_slotIndex first | Some i \<Rightarrow> i)
             in (case find_snapshot selected sparse of
                   Inl _ \<Rightarrow> Inl PoolTypeError
                 | Inr found \<Rightarrow>
                     if (case found of None \<Rightarrow> False | Some sn \<Rightarrow> \<not> sn_busy sn \<and> runnableWorkerCapacity sn)
                     then Inr (slot_at (po_slots p) selected, snapshots)
                     else Inl (pool_throw PoolSelectorInvalid ''Worker pool slot selector returned an unavailable slot.''
                            ([''slotIndex'' \<mapsto> nat_digits selected] ++
                             (case found of None \<Rightarrow> Map.empty | Some sn \<Rightarrow> [''workerId'' \<mapsto> sn_workerId sn])))))"

subsection \<open>Waiting for capacity\<close>

definition clearCooldownDrainTimer :: "('j, 'r, 'e) pool \<Rightarrow> ('j, 'r, 'e) pool" where
  "clearCooldownDrainTimer p = p\<lparr>po_cooldownDrainTimer := False, po_cooldownDrainAt := None\<rparr>"

definition next_drain_at :: "pool_reading \<Rightarrow> slot_snapshot list \<Rightarrow> required_policy \<Rightarrow> jsnum option" where
  "next_drain_at rd snapshots policy =
     (let nextCooldownAt = nextCooldownDrainAt snapshots;
          shouldPoll = (rq_retryOnSlotCapacityUnavailable policy \<and>
            list_ex (\<lambda>sn. isAuthBlockedCapacity (sn_capacity sn)) snapshots);
          nextPollAt = js_add (getTime (pv_now rd)) (js_max (Fin 250) (rq_capacityPollMs policy))
      in case nextCooldownAt of
           None \<Rightarrow> if shouldPoll then Some nextPollAt else None
         | Some c \<Rightarrow> if shouldPoll then Some (js_min c nextPollAt) else Some c)"

definition scheduleCapacityDrain ::
    "pool_reading \<Rightarrow> slot_snapshot list \<Rightarrow> required_policy \<Rightarrow> ('j, 'r, 'e) pool \<Rightarrow> ('j, 'r, 'e) pool" where
  "scheduleCapacityDrain rd snapshots policy p =
     (case next_drain_at rd snapshots policy of
        None \<Rightarrow> p
      | Some nextDrainAt \<Rightarrow>
          if (case po_cooldownDrainAt p of None \<Rightarrow> False | Some t \<Rightarrow> js_le t nextDrainAt) then p
          else (clearCooldownDrainTimer p)\<lparr>po_cooldownDrainAt := Some nextDrainAt, po_cooldownDrainTimer := True\<rparr>)"

definition rejectQueued :: "'e pool_error \<Rightarrow> ('j, 'r, 'e) pool \<Rightarrow> ('j, 'r, 'e) pool" where
  "rejectQueued err p = fold (\<lambda>i. end_run i (Inl err)) (po_queue p) (p\<lparr>po_queue := []\<rparr>)"

subsection \<open>Running\<close>

definition runOnSlot :: "nat \<Rightarrow> nat \<Rightarrow> nat \<Rightarrow> ('j, 'r, 'e) pool \<Rightarrow> ('j, 'r, 'e) pool" where
  "runOnSlot i s attempt p =
     (if ru_aborted (po_runs p ! i) then set_run_pc i (RunFreed s attempt (Inl runAbortedError)) p
      else set_run_pc i (RunOnSlot s attempt) ((set_busy s True p)\<lparr>po_inFlight := po_inFlight p + 1\<rparr>))"

text \<open>
  The loop of \<open>drainQueue\<close>, over the queue it finds. The answer is the error it throws, if any.
\<close>

fun drain_loop ::
    "'j pool_options \<Rightarrow> pool_reading \<Rightarrow> nat list \<Rightarrow> ('j, 'r, 'e) pool \<Rightarrow> 'e pool_error option \<times> ('j, 'r, 'e) pool" where
  "drain_loop opts rd [] p = (None, p)"
| "drain_loop opts rd (i # rest) p =
     (case selectAvailableSlot opts rd (ru_job (po_runs p ! i)) p of
        Inl e \<Rightarrow> (Some e, p)
      | Inr (None, snapshots) \<Rightarrow>
          let policy = retryPolicy (ru_policy (po_runs p ! i)) (px_retryPolicy opts);
              p1 = scheduleCapacityDrain rd snapshots policy p
          in (None, case capacityUnavailableError (px_localeLe opts) snapshots policy of
                      None \<Rightarrow> p1 | Some err \<Rightarrow> rejectQueued (PoolError err None) p1)
      | Inr (Some s, snapshots) \<Rightarrow>
          let p1 = p\<lparr>po_queue := rest\<rparr> in
          if ru_aborted (po_runs p ! i) then drain_loop opts rd rest (end_run i (Inl runAbortedError) p1)
          else drain_loop opts rd rest (runOnSlot i s 1 p1))"

definition drainQueue :: "'j pool_options \<Rightarrow> pool_reading \<Rightarrow> ('j, 'r, 'e) pool \<Rightarrow> 'e pool_error option \<times> ('j, 'r, 'e) pool" where
  "drainQueue opts rd p =
     (if po_state p = PsDraining \<or> po_state p = PsDisposed then (None, p) else drain_loop opts rd (po_queue p) p)"

definition pool_assertRunnable :: "('j, 'r, 'e) pool \<Rightarrow> 'e pool_error + unit" where
  "pool_assertRunnable p =
     (if po_state p = PsDisposed then Inl (pool_throw WorkerDisposed ''Worker pool has been disposed.'' Map.empty)
      else if po_slots p = [] then Inl (pool_throw NotStarted ''Worker pool has not been started.'' Map.empty)
      else Inr ())"

text \<open>The arguments of a call of \<open>run\<close>.\<close>

record 'j run_request =
  rr_job :: 'j
  rr_idempotencyKey :: "string option"
  rr_signal :: bool
  rr_aborted :: bool
  rr_retryPolicy :: "pool_retry_policy option"

definition new_run :: "'j run_request \<Rightarrow> bool \<Rightarrow> ('r, 'e) run_pc \<Rightarrow> ('e pool_error + 'r) option \<Rightarrow> ('j, 'r, 'e) pool_run" where
  "new_run req listens pc outcome =
     \<lparr>ru_job = rr_job req, ru_policy = rr_retryPolicy req, ru_signal = rr_signal req,
      ru_aborted = (rr_signal req \<and> rr_aborted req), ru_listens = (listens \<and> rr_signal req), ru_pc = pc, ru_outcome = outcome\<rparr>"

definition add_run :: "('j, 'r, 'e) pool_run \<Rightarrow> ('j, 'r, 'e) pool \<Rightarrow> ('j, 'r, 'e) pool" where
  "add_run r p = p\<lparr>po_runs := po_runs p @ [r]\<rparr>"

definition rejected_run :: "'j run_request \<Rightarrow> 'e pool_error \<Rightarrow> ('j, 'r, 'e) pool \<Rightarrow> ('j, 'r, 'e) pool" where
  "rejected_run req err p = add_run (new_run req False RunEnded (Some (Inl err))) p"

definition startRun ::
    "'j pool_options \<Rightarrow> pool_reading \<Rightarrow> 'j run_request \<Rightarrow> ('j, 'r, 'e) pool \<Rightarrow> 'e pool_error + ('j, 'r, 'e) pool" where
  "startRun opts rd req p =
     (let policy = retryPolicy (rr_retryPolicy req) (px_retryPolicy opts); i = length (po_runs p) in
      case selectAvailableSlot opts rd (rr_job req) p of
        Inl e \<Rightarrow> Inl e
      | Inr (Some s, snapshots) \<Rightarrow> Inr (runOnSlot i s 1 (add_run (new_run req False RunQueued None) p))
      | Inr (None, snapshots) \<Rightarrow>
          let p1 = scheduleCapacityDrain rd snapshots policy p in
          (case capacityUnavailableError (px_localeLe opts) snapshots policy of
             Some err \<Rightarrow> Inr (rejected_run req (PoolError err None) p1)
           | None \<Rightarrow>
               if js_le (case px_maxQueueSize opts of None \<Rightarrow> Fin 1024 | Some n \<Rightarrow> n) (Fin (of_nat (length (po_queue p1))))
               then Inr (rejected_run req (pool_throw PoolQueueFull ''Worker pool queue is full.'' Map.empty) p1)
               else
                 (case drainQueue opts rd ((add_run (new_run req True RunQueued None) p1)\<lparr>po_queue := po_queue p1 @ [i]\<rparr>) of
                    (None, p2) \<Rightarrow> Inr p2
                  | (Some e, p2) \<Rightarrow> Inr (settle_promise i (Inl e) p2))))"

text \<open>The result is the error \<open>run\<close> throws, or the number of the run it returns the promise of.\<close>

definition pool_run_call ::
    "'j pool_options \<Rightarrow> pool_reading \<Rightarrow> 'j run_request \<Rightarrow> ('j, 'r, 'e) pool \<Rightarrow> ('e pool_error + nat) \<times> ('j, 'r, 'e) pool" where
  "pool_run_call opts rd req p =
     (let i = length (po_runs p) in
      case pool_assertRunnable p of
        Inl e \<Rightarrow> (Inl e, p)
      | Inr _ \<Rightarrow>
        if rr_signal req \<and> rr_aborted req then (Inr i, rejected_run req runAbortedError p)
        else if po_state p = PsDraining
        then (Inr i, rejected_run req (pool_throw PoolDraining ''Worker pool is draining and does not accept new work.'' Map.empty) p)
        else
          (case normalizeIdempotencyKey (rr_idempotencyKey req) of
             None \<Rightarrow> (case startRun opts rd req p of Inl e \<Rightarrow> (Inl e, p) | Inr p1 \<Rightarrow> (Inr i, p1))
           | Some key \<Rightarrow>
               (case map_of (po_idempotentRuns p) key of
                  Some existing \<Rightarrow> (Inr i, add_run (new_run req True (RunFollows existing) None) p)
                | None \<Rightarrow>
                    (case startRun opts rd req p of
                       Inl e \<Rightarrow> (Inl e, p)
                     | Inr p1 \<Rightarrow> (Inr i, p1\<lparr>po_idempotentRuns := AList.update key i (po_idempotentRuns p1)\<rparr>)))))"

subsection \<open>The rest of a run\<close>

definition slot_failed_error :: "'j pool_options \<Rightarrow> ('j, 'r, 'e) pool \<Rightarrow> nat \<Rightarrow> 'e \<Rightarrow> 'e pool_error" where
  "slot_failed_error opts p s e =
     PoolError (SubscriptionWorkerError PoolSlotFailed ''Worker pool slot failed to run a task.''
       [''workerId'' \<mapsto> workerPoolSlotId (px_poolId opts) (so_index (po_heap p ! s)),
        ''slotIndex'' \<mapsto> nat_digits (so_index (po_heap p ! s))]) (Some e)"

text \<open>The callbacks of \<open>runOnSlot\<close>: the worker's promise has settled and is counted.\<close>

definition run_counted :: "'j pool_options \<Rightarrow> nat \<Rightarrow> 'e + 'r \<Rightarrow> ('j, 'r, 'e) pool \<Rightarrow> ('j, 'r, 'e) pool" where
  "run_counted opts i result p =
     (case ru_pc (po_runs p ! i) of
        RunOnSlot s attempt \<Rightarrow>
          (case result of
             Inr r \<Rightarrow> (set_run_pc i (RunCounted s attempt (Inr r)) p)\<lparr>po_completed := po_completed p + 1\<rparr>
           | Inl e \<Rightarrow> (set_run_pc i (RunCounted s attempt (Inl (slot_failed_error opts p s e))) p)\<lparr>po_failed := po_failed p + 1\<rparr>)
      | _ \<Rightarrow> p)"

text \<open>The \<open>finally\<close> callback; an error thrown by the drain replaces the result.\<close>

definition run_finally :: "'j pool_options \<Rightarrow> pool_reading \<Rightarrow> nat \<Rightarrow> ('j, 'r, 'e) pool \<Rightarrow> ('j, 'r, 'e) pool" where
  "run_finally opts rd i p =
     (case ru_pc (po_runs p ! i) of
        RunCounted s attempt result \<Rightarrow>
          (case drainQueue opts rd
                  (set_run_pc i (RunFreed s attempt result) ((set_busy s False p)\<lparr>po_inFlight := po_inFlight p - 1\<rparr>)) of
             (None, p1) \<Rightarrow> p1
           | (Some e, p1) \<Rightarrow> set_run_pc i (RunFreed s attempt (Inl e)) p1)
      | _ \<Rightarrow> p)"

definition shouldRetryOnAnotherSlot ::
    "'j pool_options \<Rightarrow> pool_reading \<Rightarrow> ('j, 'r, 'e) pool_run \<Rightarrow> nat \<Rightarrow> nat \<Rightarrow> ('j, 'r, 'e) pool \<Rightarrow> bool" where
  "shouldRetryOnAnotherSlot opts rd r s attempt p =
     (let policy = retryPolicy (ru_policy r) (px_retryPolicy opts) in
      if \<not> rq_retryOnSlotCapacityUnavailable policy then False
      else if js_le (rq_maxAttempts policy) (Fin (of_nat attempt)) then False
      else if ru_aborted r then False
      else ca_availability (fst (slotCapacity rd p s)) \<noteq> Available)"

text \<open>\<open>runOnSlotWithRetry\<close> after its await.\<close>

definition run_resume :: "'j pool_options \<Rightarrow> pool_reading \<Rightarrow> nat \<Rightarrow> ('j, 'r, 'e) pool \<Rightarrow> ('j, 'r, 'e) pool" where
  "run_resume opts rd i p =
     (let r = po_runs p ! i in
      case ru_pc r of
        RunFreed s attempt (Inr x) \<Rightarrow> end_run i (Inr x) p
      | RunFreed s attempt (Inl e) \<Rightarrow>
          if \<not> shouldRetryOnAnotherSlot opts rd r s attempt p then end_run i (Inl e) p
          else
            (case selectAvailableSlot opts rd (ru_job r) p of
               Inl e' \<Rightarrow> end_run i (Inl e') p
             | Inr (None, snapshots) \<Rightarrow>
                 end_run i (Inl e) (scheduleCapacityDrain rd snapshots (retryPolicy (ru_policy r) (px_retryPolicy opts)) p)
             | Inr (Some s', snapshots) \<Rightarrow> runOnSlot i s' (attempt + 1) p)
      | _ \<Rightarrow> p)"

definition run_follow :: "nat \<Rightarrow> ('j, 'r, 'e) pool \<Rightarrow> ('j, 'r, 'e) pool" where
  "run_follow i p =
     (case ru_pc (po_runs p ! i) of
        RunFollows t \<Rightarrow> (case ru_outcome (po_runs p ! t) of Some out \<Rightarrow> end_run i out p | None \<Rightarrow> p)
      | _ \<Rightarrow> p)"

text \<open>The run of an idempotency key has settled: the key is forgotten if it still means that run.\<close>

definition run_cleanup :: "string \<Rightarrow> ('j, 'r, 'e) pool \<Rightarrow> ('j, 'r, 'e) pool" where
  "run_cleanup key p =
     (case map_of (po_idempotentRuns p) key of
        Some i \<Rightarrow> if ru_outcome (po_runs p ! i) \<noteq> None
                  then p\<lparr>po_idempotentRuns := AList.delete key (po_idempotentRuns p)\<rparr> else p
      | None \<Rightarrow> p)"

definition run_abort :: "nat \<Rightarrow> ('j, 'r, 'e) pool \<Rightarrow> ('j, 'r, 'e) pool" where
  "run_abort i p =
     (let r = po_runs p ! i; p1 = set_run i (r\<lparr>ru_aborted := True\<rparr>) p in
      if \<not> ru_signal r then p
      else if \<not> ru_listens r then p1
      else
        let queued = (i \<in> set (po_queue p));
            p2 = settle i (Inl runAbortedError) (p1\<lparr>po_queue := remove1 i (po_queue p)\<rparr>)
        in (case ru_pc r of
              RunFollows t \<Rightarrow> set_run_pc i RunEnded p2
            | _ \<Rightarrow> if queued then set_run_pc i RunEnded p2 else p2))"

definition pool_timer :: "'j pool_options \<Rightarrow> pool_reading \<Rightarrow> ('j, 'r, 'e) pool \<Rightarrow> ('j, 'r, 'e) pool" where
  "pool_timer opts rd p =
     (if po_cooldownDrainTimer p
      then snd (drainQueue opts rd (p\<lparr>po_cooldownDrainAt := None, po_cooldownDrainTimer := False\<rparr>))
      else p)"

subsection \<open>Restarting a slot\<close>

text \<open>An assignment beyond the end of an array leaves holes.\<close>

definition slots_put :: "nat \<Rightarrow> nat \<Rightarrow> nat option list \<Rightarrow> nat option list" where
  "slots_put i s xs = (if i < length xs then xs[i := Some s] else xs @ replicate (i - length xs) None @ [Some s])"

definition set_restart :: "nat \<Rightarrow> 'e restart_pc \<Rightarrow> ('j, 'r, 'e) pool \<Rightarrow> ('j, 'r, 'e) pool" where
  "set_restart k pc p = p\<lparr>po_restarts := (po_restarts p)[k := pc]\<rparr>"

definition restartSlot :: "nat \<Rightarrow> bool \<Rightarrow> ('j, 'r, 'e) pool \<Rightarrow> ('j, 'r, 'e) pool" where
  "restartSlot slotIndex prewarm p =
     (let add = (\<lambda>pc q. q\<lparr>po_restarts := po_restarts q @ [pc]\<rparr>); d = [''slotIndex'' \<mapsto> nat_digits slotIndex] in
      case pool_assertRunnable p of
        Inl e \<Rightarrow> add (RsDone (Inl e)) p
      | Inr _ \<Rightarrow>
          (case slot_at (po_slots p) slotIndex of
             None \<Rightarrow> add (RsDone (Inl (pool_throw PoolSlotNotFound ''Worker pool slot was not found.'' d))) p
           | Some s \<Rightarrow>
               if so_busy (po_heap p ! s)
               then add (RsDone (Inl (pool_throw PoolSlotBusy ''Worker pool slot is busy and cannot be restarted.'' d))) p
               else (case createSlot slotIndex (set_busy s True p) of
                       (next, p1) \<Rightarrow> add (RsDispose slotIndex next prewarm) p1)))"

definition restart_failed :: "'j pool_options \<Rightarrow> nat \<Rightarrow> nat \<Rightarrow> 'e \<Rightarrow> ('j, 'r, 'e) pool \<Rightarrow> ('j, 'r, 'e) pool" where
  "restart_failed opts k slotIndex e p =
     set_restart k (RsCleanup slotIndex
         (PoolError (SubscriptionWorkerError PoolSlotRestartFailed ''Worker pool slot failed to restart.''
            [''slotIndex'' \<mapsto> nat_digits slotIndex, ''workerId'' \<mapsto> workerPoolSlotId (px_poolId opts) slotIndex]) (Some e)))
       (p\<lparr>po_slots := take slotIndex (po_slots p) @ drop (slotIndex + 1) (po_slots p), po_state := PsFailed\<rparr>)"

definition restart_done :: "'j pool_options \<Rightarrow> pool_reading \<Rightarrow> nat \<Rightarrow> nat \<Rightarrow> nat \<Rightarrow> ('j, 'r, 'e) pool \<Rightarrow> ('j, 'r, 'e) pool" where
  "restart_done opts rd k slotIndex next p =
     (case drainQueue opts rd (p\<lparr>po_slots := slots_put slotIndex next (po_slots p), po_restarted := po_restarted p + 1\<rparr>) of
        (None, p1) \<Rightarrow> set_restart k (RsDone (Inr ())) p1
      | (Some e, p1) \<Rightarrow> set_restart k (RsDone (Inl e)) p1)"

definition restart_resume :: "'j pool_options \<Rightarrow> pool_reading \<Rightarrow> nat \<Rightarrow> 'e + unit \<Rightarrow> ('j, 'r, 'e) pool \<Rightarrow> ('j, 'r, 'e) pool" where
  "restart_resume opts rd k result p =
     (case po_restarts p ! k of
        RsDispose i next prewarm \<Rightarrow>
          (case result of Inl e \<Rightarrow> restart_failed opts k i e p | Inr _ \<Rightarrow> set_restart k (RsStart i next prewarm) p)
      | RsStart i next prewarm \<Rightarrow>
          (case result of Inl e \<Rightarrow> restart_failed opts k i e p
           | Inr _ \<Rightarrow> if prewarm then set_restart k (RsPrewarm i next) p else restart_done opts rd k i next p)
      | RsPrewarm i next \<Rightarrow>
          (case result of Inl e \<Rightarrow> restart_failed opts k i e p | Inr _ \<Rightarrow> restart_done opts rd k i next p)
      | RsCleanup i err \<Rightarrow>
          if po_slots p = [] then set_restart k (RsDone (Inl err)) (rejectQueued err p)
          else (case drainQueue opts rd p of
                  (None, p1) \<Rightarrow> set_restart k (RsDone (Inl err)) p1
                | (Some e, p1) \<Rightarrow> set_restart k (RsDone (Inl e)) p1)
      | RsDone r \<Rightarrow> p)"

subsection \<open>Starting, prewarming and disposing\<close>

text \<open>
  A start that times out settles with an error whose code is \<open>StartTimeout\<close>. The cause of the error
  a failed start or prewarm throws is not kept.
\<close>

definition set_start :: "nat \<Rightarrow> 'e start_pc \<Rightarrow> ('j, 'r, 'e) pool \<Rightarrow> ('j, 'r, 'e) pool" where
  "set_start k pc p = p\<lparr>po_starts := (po_starts p)[k := pc]\<rparr>"

definition pool_start :: "('j, 'r, 'e) pool \<Rightarrow> ('j, 'r, 'e) pool" where
  "pool_start p =
     (let add = (\<lambda>pc q. q\<lparr>po_starts := po_starts q @ [pc]\<rparr>) in
      if po_state p = PsDisposed
      then add (StDone (Inl (pool_throw WorkerDisposed ''Worker pool has been disposed.'' Map.empty))) p
      else if po_state p \<noteq> PsCreated \<and> po_state p \<noteq> PsFailed
      then add (StDone (Inl (pool_throw AlreadyStarted ''Worker pool is already started.'' Map.empty))) p
      else (case createSlot 0 (p\<lparr>po_state := PsStarting\<rparr>) of (s, p1) \<Rightarrow> add (StWorker 0 s) p1))"

definition start_catch :: "nat \<Rightarrow> 'e pool_error \<Rightarrow> ('j, 'r, 'e) pool \<Rightarrow> ('j, 'r, 'e) pool" where
  "start_catch k e p =
     set_start k (if isStartTimeoutError e then StDone (Inl e) else StDisposing e) (p\<lparr>po_state := PsFailed, po_slots := []\<rparr>)"

definition start_resume :: "'j pool_options \<Rightarrow> nat \<Rightarrow> 'e pool_error + unit \<Rightarrow> ('j, 'r, 'e) pool \<Rightarrow> ('j, 'r, 'e) pool" where
  "start_resume opts k result p =
     (case po_starts p ! k of
        StWorker i s \<Rightarrow>
          (case result of
             Inl e \<Rightarrow> if isStartTimeoutError e then start_catch k e p else set_start k (StCleanup e) p
           | Inr _ \<Rightarrow>
               let p1 = p\<lparr>po_slots := po_slots p @ [Some s]\<rparr> in
               if js_lt (Fin (of_nat (i + 1))) (px_slots opts)
               then (case createSlot (i + 1) p1 of (s', p2) \<Rightarrow> set_start k (StWorker (i + 1) s') p2)
               else if px_prewarmOnStart opts then set_start k StPrewarm (p1\<lparr>po_state := PsPrewarming\<rparr>)
               else set_start k (StDone (Inr ())) (p1\<lparr>po_state := PsStarted\<rparr>))
      | StCleanup e \<Rightarrow> start_catch k e p
      | StPrewarm \<Rightarrow>
          (case result of Inl e \<Rightarrow> start_catch k e p
           | Inr _ \<Rightarrow> set_start k (StDone (Inr ())) (p\<lparr>po_state := PsReady\<rparr>))
      | StDisposing e \<Rightarrow>
          set_start k (StDone (Inl (case result of Inl e' \<Rightarrow> e'
            | Inr _ \<Rightarrow> pool_throw StartFailed ''Worker pool failed to start.'' Map.empty))) p
      | StDone r \<Rightarrow> p)"

definition pool_prewarm :: "('j, 'r, 'e) pool \<Rightarrow> ('j, 'r, 'e) pool" where
  "pool_prewarm p =
     (case pool_assertRunnable p of
        Inl e \<Rightarrow> p\<lparr>po_prewarms := po_prewarms p @ [PwDone (Inl e)]\<rparr>
      | Inr _ \<Rightarrow> p\<lparr>po_prewarms := po_prewarms p @ [PwWait], po_state := PsPrewarming\<rparr>)"

definition prewarm_resume :: "nat \<Rightarrow> 'e pool_error + unit \<Rightarrow> ('j, 'r, 'e) pool \<Rightarrow> ('j, 'r, 'e) pool" where
  "prewarm_resume k result p =
     (case po_prewarms p ! k of
        PwWait \<Rightarrow>
          (case result of
             Inr _ \<Rightarrow> p\<lparr>po_prewarms := (po_prewarms p)[k := PwDone (Inr ())], po_state := PsReady\<rparr>
           | Inl e \<Rightarrow> p\<lparr>po_prewarms := (po_prewarms p)[k := PwDone (Inl
                 (pool_throw PrewarmFailed ''Worker pool failed to prewarm.'' Map.empty))], po_state := PsFailed\<rparr>)
      | PwDone r \<Rightarrow> p)"

definition set_dispose :: "nat \<Rightarrow> 'e dispose_pc \<Rightarrow> ('j, 'r, 'e) pool \<Rightarrow> ('j, 'r, 'e) pool" where
  "set_dispose k pc p = p\<lparr>po_disposals := (po_disposals p)[k := pc]\<rparr>"

text \<open>The loop of \<open>dispose\<close> that waits for work in flight, and what follows it.\<close>

definition dispose_check :: "nat \<Rightarrow> jsnum \<Rightarrow> jsnum \<Rightarrow> ('j, 'r, 'e) pool \<Rightarrow> ('j, 'r, 'e) pool" where
  "dispose_check k deadline now p =
     (if 0 < po_inFlight p \<and> js_lt now deadline then p
      else set_dispose k DsClosing
        ((rejectQueued
            (if 0 < po_inFlight p
             then pool_throw ShutdownTimeout ''Worker pool shutdown timed out with in-flight work.'' Map.empty
             else pool_throw PoolDraining ''Worker pool was disposed before queued work started.'' Map.empty) p)\<lparr>po_slots := []\<rparr>))"

definition pool_dispose :: "'j pool_options \<Rightarrow> jsnum \<Rightarrow> jsnum \<Rightarrow> ('j, 'r, 'e) pool \<Rightarrow> ('j, 'r, 'e) pool" where
  "pool_dispose opts now now' p =
     (if po_state p = PsDisposed then p\<lparr>po_disposals := po_disposals p @ [DsDone (Inr ())]\<rparr>
      else
        let deadline = js_add now (case px_shutdownTimeoutMs opts of None \<Rightarrow> Fin 30000 | Some t \<Rightarrow> t);
            p1 = clearCooldownDrainTimer (p\<lparr>po_state := PsDraining\<rparr>)
        in dispose_check (length (po_disposals p)) deadline now' (p1\<lparr>po_disposals := po_disposals p1 @ [DsWait deadline]\<rparr>))"

definition dispose_resume :: "nat \<Rightarrow> jsnum \<Rightarrow> 'e pool_error + unit \<Rightarrow> ('j, 'r, 'e) pool \<Rightarrow> ('j, 'r, 'e) pool" where
  "dispose_resume k now result p =
     (case po_disposals p ! k of
        DsWait deadline \<Rightarrow> dispose_check k deadline now p
      | DsClosing \<Rightarrow>
          (case result of
             Inl e \<Rightarrow> set_dispose k (DsDone (Inl e)) p
           | Inr _ \<Rightarrow> set_dispose k (DsDone (Inr ())) (p\<lparr>po_state := PsDisposed\<rparr>))
      | DsDone r \<Rightarrow> p)"

subsection \<open>Health and statistics\<close>

definition safeHealth :: "date \<Rightarrow> string option + 'w worker_health \<Rightarrow> 'w worker_health" where
  "safeHealth checkedAt answer =
     (case answer of
        Inr h \<Rightarrow> h
      | Inl message \<Rightarrow>
          \<lparr>wh_status = Unhealthy, wh_state = ''failed'', wh_checkedAt = checkedAt,
           wh_failures = [(''subscription_worker_health_failed'', case message of Some m \<Rightarrow> m | None \<Rightarrow> ''Worker health failed.'')],
           wh_warnings = [], wh_details = None\<rparr>)"

definition pool_health_status :: "'w worker_health list \<Rightarrow> pool_state \<Rightarrow> health_status" where
  "pool_health_status slots state =
     (if list_ex (\<lambda>h. wh_status h = Unhealthy) slots then Unhealthy
      else if list_ex (\<lambda>h. wh_status h = HealthDegraded) slots \<or> state = PsFailed then HealthDegraded
      else Healthy)"

record 'w pool_health =
  ph_poolId :: string
  ph_status :: health_status
  ph_state :: pool_state
  ph_checkedAt :: date
  ph_slots :: "'w worker_health list"
  ph_queued :: nat
  ph_inFlight :: int

text \<open>
  \<open>health\<close> reads the clock, then waits for the health of every slot of that moment (the answers, in
  the order of the slots), and reports the pool as it is afterwards.
\<close>

definition pool_health_report ::
    "'j pool_options \<Rightarrow> date \<Rightarrow> (string option + 'w worker_health) list \<Rightarrow> ('j, 'r, 'e) pool \<Rightarrow> 'w pool_health" where
  "pool_health_report opts checkedAt answers p =
     (let slots = map (safeHealth checkedAt) answers in
      \<lparr>ph_poolId = px_poolId opts, ph_status = pool_health_status slots (po_state p), ph_state = po_state p,
       ph_checkedAt = checkedAt, ph_slots = slots, ph_queued = length (po_queue p), ph_inFlight = po_inFlight p\<rparr>)"

record pool_stats =
  ps_poolId :: string
  ps_state :: pool_state
  ps_slots :: nat
  ps_queued :: nat
  ps_inFlight :: int
  ps_completed :: nat
  ps_failed :: nat
  ps_restarted :: nat

definition pool_statistics :: "'j pool_options \<Rightarrow> ('j, 'r, 'e) pool \<Rightarrow> pool_stats" where
  "pool_statistics opts p =
     \<lparr>ps_poolId = px_poolId opts, ps_state = po_state p, ps_slots = length (po_slots p), ps_queued = length (po_queue p),
      ps_inFlight = po_inFlight p, ps_completed = po_completed p, ps_failed = po_failed p, ps_restarted = po_restarted p\<rparr>"

subsection \<open>Events\<close>

datatype ('j, 'r, 'e) pool_event =
    PvRun pool_reading "'j run_request"
  | PvAbort nat
  | PvWorker nat "'e + 'r"
  | PvFinally nat pool_reading
  | PvResume nat pool_reading
  | PvFollow nat
  | PvCleanup string
  | PvTimer pool_reading
  | PvRestart nat bool
  | PvRestarted nat pool_reading "'e + unit"
  | PvStart
  | PvStarted nat "'e pool_error + unit"
  | PvPrewarm
  | PvPrewarmed nat "'e pool_error + unit"
  | PvDispose jsnum jsnum
  | PvDisposed nat jsnum "'e pool_error + unit"

fun pool_step :: "'j pool_options \<Rightarrow> ('j, 'r, 'e) pool_event \<Rightarrow> ('j, 'r, 'e) pool \<Rightarrow> ('j, 'r, 'e) pool" where
  "pool_step opts (PvRun rd req) p = snd (pool_run_call opts rd req p)"
| "pool_step opts (PvAbort i) p = (if i < length (po_runs p) then run_abort i p else p)"
| "pool_step opts (PvWorker i result) p = (if i < length (po_runs p) then run_counted opts i result p else p)"
| "pool_step opts (PvFinally i rd) p = (if i < length (po_runs p) then run_finally opts rd i p else p)"
| "pool_step opts (PvResume i rd) p = (if i < length (po_runs p) then run_resume opts rd i p else p)"
| "pool_step opts (PvFollow i) p = (if i < length (po_runs p) then run_follow i p else p)"
| "pool_step opts (PvCleanup key) p = run_cleanup key p"
| "pool_step opts (PvTimer rd) p = pool_timer opts rd p"
| "pool_step opts (PvRestart i prewarm) p = restartSlot i prewarm p"
| "pool_step opts (PvRestarted k rd result) p = (if k < length (po_restarts p) then restart_resume opts rd k result p else p)"
| "pool_step opts PvStart p = pool_start p"
| "pool_step opts (PvStarted k result) p = (if k < length (po_starts p) then start_resume opts k result p else p)"
| "pool_step opts PvPrewarm p = pool_prewarm p"
| "pool_step opts (PvPrewarmed k result) p = (if k < length (po_prewarms p) then prewarm_resume k result p else p)"
| "pool_step opts (PvDispose now now') p = pool_dispose opts now now' p"
| "pool_step opts (PvDisposed k now result) p = (if k < length (po_disposals p) then dispose_resume k now result p else p)"

fun pool_steps :: "'j pool_options \<Rightarrow> ('j, 'r, 'e) pool_event list \<Rightarrow> ('j, 'r, 'e) pool \<Rightarrow> ('j, 'r, 'e) pool" where
  "pool_steps opts [] p = p"
| "pool_steps opts (x # xs) p = pool_steps opts xs (pool_step opts x p)"

end
