(* ===== verification/Pool_Laws.thy ===== *)
theory Pool_Laws
  imports Worker_Pool
begin

text \<open>
  What the worker pool guarantees. Every step of the pool is cut into elementary moves of its runs
  (a run is added, taken onto a slot, counted, freed, ended) with at most one change of the array
  of slots before or after them; each invariant is proved once, for the moves. A run never shares
  its slot with another as long as the array is aligned, that is, as long as every slot stands at
  its own index, which orderly histories keep and a failed restart breaks.
\<close>

section \<open>Places and alignment\<close>

fun on_slot :: "('r, 'e) run_pc \<Rightarrow> nat option" where
  "on_slot (RunOnSlot s a) = Some s"
| "on_slot (RunCounted s a res) = Some s"
| "on_slot _ = None"

fun attempt_of :: "('r, 'e) run_pc \<Rightarrow> nat option" where
  "attempt_of (RunOnSlot s a) = Some a"
| "attempt_of (RunCounted s a res) = Some a"
| "attempt_of (RunFreed s a res) = Some a"
| "attempt_of _ = None"

fun waits :: "('r, 'e) run_pc \<Rightarrow> bool" where
  "waits RunQueued = True"
| "waits (RunFreed s a res) = True"
| "waits _ = False"

definition aligned :: "('j, 'r, 'e) pool \<Rightarrow> bool" where
  "aligned p = (\<forall>k s. k < length (po_slots p) \<longrightarrow> po_slots p ! k = Some s \<longrightarrow> so_index (po_heap p ! s) = k)"

text \<open>A further attempt is allowed while the previous ones are below the limit of the policy.\<close>

definition attempt_allowed :: "'j pool_options \<Rightarrow> ('j, 'r, 'e) pool_run \<Rightarrow> nat \<Rightarrow> bool" where
  "attempt_allowed opts r a =
     (a = 1 \<or> 1 < a \<and> \<not> js_le (rq_maxAttempts (retryPolicy (ru_policy r) (px_retryPolicy opts))) (Fin (of_nat (a - 1))))"

definition queue_limit :: "'j pool_options \<Rightarrow> jsnum" where
  "queue_limit opts = (case px_maxQueueSize opts of None \<Rightarrow> Fin 1024 | Some n \<Rightarrow> n)"

lemma waits_not_on_slot [simp]: "waits pc \<Longrightarrow> on_slot pc = None"
  by (cases pc) simp_all

lemma po_fields_set_run [simp]:
  "po_heap (set_run i r p) = po_heap p" "po_slots (set_run i r p) = po_slots p" "po_queue (set_run i r p) = po_queue p"
  "po_state (set_run i r p) = po_state p" "po_inFlight (set_run i r p) = po_inFlight p"
  "po_runs (set_run i r p) = (po_runs p)[i := r]" "po_starts (set_run i r p) = po_starts p"
  "po_restarts (set_run i r p) = po_restarts p" "po_idempotentRuns (set_run i r p) = po_idempotentRuns p"
  by (simp_all add: set_run_def)

lemma po_fields_set_busy [simp]:
  "po_slots (set_busy s b p) = po_slots p" "po_queue (set_busy s b p) = po_queue p" "po_state (set_busy s b p) = po_state p"
  "po_inFlight (set_busy s b p) = po_inFlight p" "po_runs (set_busy s b p) = po_runs p"
  "po_heap (set_busy s b p) = (po_heap p)[s := (po_heap p ! s)\<lparr>so_busy := b\<rparr>]" "po_starts (set_busy s b p) = po_starts p"
  "po_restarts (set_busy s b p) = po_restarts p" "po_idempotentRuns (set_busy s b p) = po_idempotentRuns p"
  by (simp_all add: set_busy_def)

lemma po_fields_add_run [simp]:
  "po_heap (add_run r p) = po_heap p" "po_slots (add_run r p) = po_slots p" "po_queue (add_run r p) = po_queue p"
  "po_state (add_run r p) = po_state p" "po_inFlight (add_run r p) = po_inFlight p"
  "po_runs (add_run r p) = po_runs p @ [r]" "po_starts (add_run r p) = po_starts p" "po_restarts (add_run r p) = po_restarts p"
  "po_idempotentRuns (add_run r p) = po_idempotentRuns p"
  by (simp_all add: add_run_def)

lemma nth_update_beyond: "length xs \<le> t \<Longrightarrow> xs[s := y] ! t = xs ! t"
  by (induction xs arbitrary: s t) (auto simp: nth_Cons' split: nat.splits)

lemma index_of_update [simp]: "so_index ((xs[s := (xs ! s)\<lparr>so_busy := b\<rparr>]) ! t) = so_index (xs ! t)"
  by (cases "s = t"; cases "t < length xs") (simp_all add: nth_update_beyond)

lemma busy_of_update: "so_busy ((xs[s := (xs ! s)\<lparr>so_busy := b\<rparr>]) ! t) = (if s = t \<and> t < length xs then b else so_busy (xs ! t))"
  by (cases "s = t"; cases "t < length xs") (simp_all add: nth_update_beyond)

lemma aligned_cong: "\<lbrakk>po_slots p' = po_slots p; \<And>s. so_index (po_heap p' ! s) = so_index (po_heap p ! s)\<rbrakk> \<Longrightarrow> aligned p' = aligned p"
  by (simp add: aligned_def)

section \<open>The choice of a slot\<close>

lemma find_snapshot_found: "find_snapshot i sns = Inr (Some sn) \<Longrightarrow> Some sn \<in> set sns \<and> sn_slotIndex sn = i"
  by (induction i sns rule: find_snapshot.induct) (auto split: if_splits)

lemma snapshot_slot:
  assumes "Some sn \<in> set (slotSnapshots opts rd p)"
  obtains k s where "k < length (po_slots p)" "po_slots p ! k = Some s" "sn = slot_snapshot_of opts rd p s"
proof -
  from assms obtain s where "Some s \<in> set (po_slots p)" "sn = slot_snapshot_of opts rd p s"
    by (auto simp: slotSnapshots_def map_option_case split: option.splits)
  then show ?thesis
    using that by (auto simp: in_set_conv_nth)
qed

lemma selectAvailableSlot_some:
  assumes "selectAvailableSlot opts rd job p = Inr (Some s, sns)"
  shows "Some s \<in> set (po_slots p)" and "aligned p \<Longrightarrow> \<not> so_busy (po_heap p ! s) \<and> runnableWorkerCapacity (slot_snapshot_of opts rd p s)"
proof -
  obtain i sn where f: "find_snapshot i (slotSnapshots opts rd p) = Inr (Some sn)"
    and ok: "\<not> sn_busy sn" "runnableWorkerCapacity sn" and at: "slot_at (po_slots p) i = Some s"
    using assms by (auto simp: selectAvailableSlot_def Let_def split: list.splits sum.splits option.splits if_splits)
  show "Some s \<in> set (po_slots p)"
    using at by (auto simp: slot_at_def split: if_splits) (metis nth_mem)
  assume al: "aligned p"
  from find_snapshot_found [OF f] obtain k s' where k: "k < length (po_slots p)" "po_slots p ! k = Some s'"
    "sn = slot_snapshot_of opts rd p s'" "sn_slotIndex sn = i"
    by (meson snapshot_slot)
  with al have "k = i" by (auto simp: aligned_def slot_snapshot_of_def)
  with at k have "s' = s" by (simp add: slot_at_def)
  with k ok show "\<not> so_busy (po_heap p ! s) \<and> runnableWorkerCapacity (slot_snapshot_of opts rd p s)"
    by (simp add: slot_snapshot_of_def)
qed

text \<open>In an aligned array no slot is refused while one is free and has capacity.\<close>

lemma selectAvailableSlot_none:
  assumes "selectAvailableSlot opts rd job p = Inr (None, sns)" "aligned p" "Some s \<in> set (po_slots p)"
  shows "so_busy (po_heap p ! s) \<or> \<not> runnableWorkerCapacity (slot_snapshot_of opts rd p s)"
proof (rule ccontr)
  assume n: "\<not> ?thesis"
  let ?av = "filter (\<lambda>sn. \<not> sn_busy sn \<and> runnableWorkerCapacity sn) (List.map_filter id (slotSnapshots opts rd p))"
  have "slot_snapshot_of opts rd p s \<in> set ?av"
    using n assms(3) by (force simp: slotSnapshots_def List.map_filter_def slot_snapshot_of_def image_iff)
  then obtain first rest where av: "?av = first # rest" by (cases ?av) auto
  from assms(1) av obtain i sn where f: "find_snapshot i (slotSnapshots opts rd p) = Inr (Some sn)"
    and at: "slot_at (po_slots p) i = None"
    by (auto simp: selectAvailableSlot_def Let_def split: sum.splits option.splits if_splits)
  from find_snapshot_found [OF f] obtain k s' where k: "k < length (po_slots p)" "po_slots p ! k = Some s'"
    "sn = slot_snapshot_of opts rd p s'" "sn_slotIndex sn = i"
    by (meson snapshot_slot)
  with assms(2) have "k = i" by (auto simp: aligned_def slot_snapshot_of_def)
  with at k show False by (simp add: slot_at_def)
qed

section \<open>Moves\<close>

text \<open>What a change of a run that leaves it where it is may do; what it never does is to settle it again.\<close>

definition same_place :: "('r, 'e) run_pc \<Rightarrow> ('r, 'e) run_pc \<Rightarrow> bool" where
  "same_place pc pc' = (on_slot pc' = on_slot pc \<and> attempt_of pc' = attempt_of pc \<and> (pc' = pc \<or> attempt_of pc \<noteq> None))"

definition kept :: "('j, 'r, 'e) pool_run \<Rightarrow> ('j, 'r, 'e) pool_run \<Rightarrow> bool" where
  "kept r r' = (ru_job r' = ru_job r \<and> ru_policy r' = ru_policy r \<and> (ru_outcome r \<noteq> None \<longrightarrow> ru_outcome r' = ru_outcome r))"

inductive run_move :: "'j pool_options \<Rightarrow> ('j, 'r, 'e) pool \<Rightarrow> ('j, 'r, 'e) pool \<Rightarrow> bool" for opts where
  rm_idle: "\<lbrakk>po_heap p' = po_heap p; po_slots p' = po_slots p; po_queue p' = po_queue p; po_inFlight p' = po_inFlight p;
      po_runs p' = po_runs p; po_starts p' = po_starts p; po_restarts p' = po_restarts p; po_idempotentRuns p' = po_idempotentRuns p\<rbrakk>
    \<Longrightarrow> run_move opts p p'"
| rm_take: "\<lbrakk>i < length (po_runs p); waits (ru_pc (po_runs p ! i)); Some s \<in> set (po_slots p);
      aligned p \<Longrightarrow> \<not> so_busy (po_heap p ! s); attempt_allowed opts (po_runs p ! i) a\<rbrakk>
    \<Longrightarrow> run_move opts p (set_run_pc i (RunOnSlot s a)
          ((set_busy s True (p\<lparr>po_queue := remove1 i (po_queue p)\<rparr>))\<lparr>po_inFlight := po_inFlight p + 1\<rparr>))"
| rm_begin: "\<lbrakk>Some s \<in> set (po_slots p); aligned p \<Longrightarrow> \<not> so_busy (po_heap p ! s); ru_pc r = RunOnSlot s 1; ru_outcome r = None\<rbrakk>
    \<Longrightarrow> run_move opts p ((set_busy s True (add_run r p))\<lparr>po_inFlight := po_inFlight p + 1\<rparr>)"
| rm_add: "\<lbrakk>ru_pc r = RunEnded \<and> ru_outcome r \<noteq> None \<or>
      (\<exists>t. ru_pc r = RunFollows t \<and> t < length (po_runs p) \<and> ru_outcome r = None)\<rbrakk> \<Longrightarrow> run_move opts p (add_run r p)"
| rm_enqueue: "\<lbrakk>ru_pc r = RunQueued; ru_outcome r = None; \<not> js_le (queue_limit opts) (Fin (of_nat (length (po_queue p))))\<rbrakk>
    \<Longrightarrow> run_move opts p ((add_run r p)\<lparr>po_queue := po_queue p @ [length (po_runs p)]\<rparr>)"
| rm_change: "\<lbrakk>i < length (po_runs p); same_place (ru_pc (po_runs p ! i)) (ru_pc r); kept (po_runs p ! i) r\<rbrakk>
    \<Longrightarrow> run_move opts p (set_run i r p)"
| rm_free: "\<lbrakk>i < length (po_runs p); ru_pc (po_runs p ! i) = RunCounted s a res\<rbrakk>
    \<Longrightarrow> run_move opts p (set_run_pc i (RunFreed s a res) ((set_busy s False p)\<lparr>po_inFlight := po_inFlight p - 1\<rparr>))"
| rm_end: "\<lbrakk>i < length (po_runs p); on_slot (ru_pc (po_runs p ! i)) = None; ru_pc r = RunEnded; ru_outcome r \<noteq> None;
      kept (po_runs p ! i) r\<rbrakk> \<Longrightarrow> run_move opts p (set_run i r (p\<lparr>po_queue := remove1 i (po_queue p)\<rparr>))"
| rm_key: "\<lbrakk>map_of (po_idempotentRuns p) key = None; i < length (po_runs p)\<rbrakk>
    \<Longrightarrow> run_move opts p (p\<lparr>po_idempotentRuns := AList.update key i (po_idempotentRuns p)\<rparr>)"
| rm_forget: "\<lbrakk>map_of (po_idempotentRuns p) key = Some i; ru_outcome (po_runs p ! i) \<noteq> None\<rbrakk>
    \<Longrightarrow> run_move opts p (p\<lparr>po_idempotentRuns := AList.delete key (po_idempotentRuns p)\<rparr>)"

abbreviation run_moves :: "'j pool_options \<Rightarrow> ('j, 'r, 'e) pool \<Rightarrow> ('j, 'r, 'e) pool \<Rightarrow> bool" where
  "run_moves opts \<equiv> (run_move opts)\<^sup>*\<^sup>*"

lemma set_run_pc_fields [simp]:
  "po_heap (set_run_pc i pc p) = po_heap p" "po_slots (set_run_pc i pc p) = po_slots p" "po_queue (set_run_pc i pc p) = po_queue p"
  "po_state (set_run_pc i pc p) = po_state p" "po_inFlight (set_run_pc i pc p) = po_inFlight p"
  "po_runs (set_run_pc i pc p) = (po_runs p)[i := (po_runs p ! i)\<lparr>ru_pc := pc\<rparr>]" "po_starts (set_run_pc i pc p) = po_starts p"
  "po_restarts (set_run_pc i pc p) = po_restarts p" "po_idempotentRuns (set_run_pc i pc p) = po_idempotentRuns p"
  by (simp_all add: set_run_pc_def)

text \<open>The moves of runs leave the array of slots and what starts and restarts wait for alone.\<close>

lemma run_move_slots:
  "run_move opts p p' \<Longrightarrow> po_slots p' = po_slots p \<and> po_starts p' = po_starts p \<and> po_restarts p' = po_restarts p \<and>
     length (po_heap p') = length (po_heap p) \<and> (\<forall>s. so_index (po_heap p' ! s) = so_index (po_heap p ! s)) \<and>
     length (po_runs p) \<le> length (po_runs p')"
  by (induction rule: run_move.induct) simp_all

lemma run_moves_slots:
  assumes "run_moves opts p p'"
  shows "po_slots p' = po_slots p" "po_starts p' = po_starts p" "po_restarts p' = po_restarts p"
    "length (po_heap p') = length (po_heap p)" "so_index (po_heap p' ! s) = so_index (po_heap p ! s)"
    "length (po_runs p) \<le> length (po_runs p')"
proof -
  from assms have "po_slots p' = po_slots p \<and> po_starts p' = po_starts p \<and> po_restarts p' = po_restarts p \<and>
      length (po_heap p') = length (po_heap p) \<and> (\<forall>s. so_index (po_heap p' ! s) = so_index (po_heap p ! s)) \<and>
      length (po_runs p) \<le> length (po_runs p')"
  proof (induction rule: rtranclp_induct)
    case (step q q')
    with run_move_slots [OF step(2)] show ?case by auto
  qed simp
  then show "po_slots p' = po_slots p" "po_starts p' = po_starts p" "po_restarts p' = po_restarts p"
    "length (po_heap p') = length (po_heap p)" "so_index (po_heap p' ! s) = so_index (po_heap p ! s)"
    "length (po_runs p) \<le> length (po_runs p')"
    by auto
qed

lemma run_moves_aligned: "run_moves opts p p' \<Longrightarrow> aligned p' = aligned p"
  by (rule aligned_cong) (simp_all add: run_moves_slots)

section \<open>Invariants of the runs\<close>

definition queue_ok :: "('j, 'r, 'e) pool \<Rightarrow> bool" where
  "queue_ok p = (distinct (po_queue p) \<and> set (po_queue p) = {i. i < length (po_runs p) \<and> ru_pc (po_runs p ! i) = RunQueued})"

definition in_flight :: "('j, 'r, 'e) pool_run \<Rightarrow> bool" where
  "in_flight r = (on_slot (ru_pc r) \<noteq> None)"

definition counts_ok :: "('j, 'r, 'e) pool \<Rightarrow> bool" where
  "counts_ok p = (po_inFlight p = int (length (filter in_flight (po_runs p))))"

definition run_ok :: "'j pool_options \<Rightarrow> nat \<Rightarrow> nat \<Rightarrow> ('j, 'r, 'e) pool_run \<Rightarrow> bool" where
  "run_ok opts heap i r =
     ((\<forall>s. on_slot (ru_pc r) = Some s \<longrightarrow> s < heap) \<and>
      (\<forall>a. attempt_of (ru_pc r) = Some a \<longrightarrow> attempt_allowed opts r a) \<and>
      (ru_pc r = RunEnded \<longrightarrow> ru_outcome r \<noteq> None) \<and>
      (\<forall>t. ru_pc r = RunFollows t \<longrightarrow> t < i))"

definition runs_ok :: "'j pool_options \<Rightarrow> ('j, 'r, 'e) pool \<Rightarrow> bool" where
  "runs_ok opts p = (\<forall>i < length (po_runs p). run_ok opts (length (po_heap p)) i (po_runs p ! i))"

definition slots_ok :: "('j, 'r, 'e) pool \<Rightarrow> bool" where
  "slots_ok p = (\<forall>s. Some s \<in> set (po_slots p) \<longrightarrow> s < length (po_heap p))"

text \<open>A run in flight has marked its slot busy, and has it for itself.\<close>

definition exclusive :: "('j, 'r, 'e) pool \<Rightarrow> bool" where
  "exclusive p =
     ((\<forall>i s. i < length (po_runs p) \<longrightarrow> on_slot (ru_pc (po_runs p ! i)) = Some s \<longrightarrow> so_busy (po_heap p ! s)) \<and>
      (\<forall>i j s. i < length (po_runs p) \<longrightarrow> j < length (po_runs p) \<longrightarrow> on_slot (ru_pc (po_runs p ! i)) = Some s \<longrightarrow>
         on_slot (ru_pc (po_runs p ! j)) = Some s \<longrightarrow> i = j))"

lemma length_filter_updated:
  "i < length xs \<Longrightarrow>
     int (length (filter f (xs[i := x]))) = int (length (filter f xs)) - (if f (xs ! i) then 1 else 0) + (if f x then 1 else 0)"
  using length_filter_update [of i xs f x] by (auto split: if_splits)

lemma indices_snoc:
  "{i. i < length (xs @ [x]) \<and> P ((xs @ [x]) ! i)} = {i. i < length xs \<and> P (xs ! i)} \<union> (if P x then {length xs} else {})"
  by (auto simp: nth_append less_Suc_eq)

lemma indices_update:
  "j < length xs \<Longrightarrow> {i. i < length (xs[j := x]) \<and> P (xs[j := x] ! i)} = ({i. i < length xs \<and> P (xs ! i)} - {j}) \<union> (if P x then {j} else {})"
  by (auto simp: nth_list_update)

lemmas queue_ok_simps = queue_ok_def indices_snoc [where P = "\<lambda>r. ru_pc r = RunQueued", simplified]
  indices_update [where P = "\<lambda>r. ru_pc r = RunQueued", simplified]

lemma queue_ok_move: "run_move opts p p' \<Longrightarrow> queue_ok p \<Longrightarrow> queue_ok p'"
proof (induction rule: run_move.induct)
  case (rm_add r p)
  then have "ru_pc r \<noteq> RunQueued" by auto
  with rm_add.prems show ?case by (simp add: queue_ok_simps)
next
  case (rm_change i p r)
  then have "ru_pc r = RunQueued \<longleftrightarrow> ru_pc (po_runs p ! i) = RunQueued" by (auto simp: same_place_def)
  with rm_change(1) rm_change.prems show ?case by (auto simp: queue_ok_simps)
next
  case (rm_free i p s a res)
  then show ?case by (auto simp: queue_ok_simps)
qed (simp_all add: queue_ok_simps)

lemma counts_ok_move: "run_move opts p p' \<Longrightarrow> counts_ok p \<Longrightarrow> counts_ok p'"
  by (induction rule: run_move.induct)
    (auto simp: counts_ok_def in_flight_def length_filter_updated same_place_def)

lemma attempt_allowed_policy: "ru_policy r' = ru_policy r \<Longrightarrow> attempt_allowed opts r' a = attempt_allowed opts r a"
  by (simp add: attempt_allowed_def)

lemma runs_ok_move: "run_move opts p p' \<Longrightarrow> slots_ok p \<Longrightarrow> runs_ok opts p \<Longrightarrow> runs_ok opts p'"
proof (induction rule: run_move.induct)
  case (rm_change i p r)
  then show ?case
    by (auto simp: runs_ok_def run_ok_def nth_list_update same_place_def kept_def attempt_allowed_policy [of r "po_runs p ! i"])
next
  case (rm_take i p s a)
  then show ?case by (auto simp: runs_ok_def run_ok_def nth_list_update slots_ok_def attempt_allowed_def)
next
  case (rm_free i p s a res)
  then have "attempt_allowed opts (po_runs p ! i) a" by (auto simp: runs_ok_def run_ok_def)
  with rm_free show ?case by (auto simp: runs_ok_def run_ok_def nth_list_update attempt_allowed_def)
qed (auto simp: runs_ok_def run_ok_def nth_list_update nth_append slots_ok_def attempt_allowed_def less_Suc_eq)

lemma exclusive_move: "run_move opts p p' \<Longrightarrow> slots_ok p \<Longrightarrow> runs_ok opts p \<Longrightarrow> aligned p \<Longrightarrow> exclusive p \<Longrightarrow> exclusive p'"
proof (induction rule: run_move.induct)
  case (rm_take i p s a)
  then have "s < length (po_heap p)" "\<And>j. j < length (po_runs p) \<Longrightarrow> on_slot (ru_pc (po_runs p ! j)) \<noteq> Some s"
    by (auto simp: slots_ok_def exclusive_def)
  with rm_take show ?case by (auto simp: exclusive_def nth_list_update busy_of_update)
next
  case (rm_begin s p r)
  then have "s < length (po_heap p)" "\<And>j. j < length (po_runs p) \<Longrightarrow> on_slot (ru_pc (po_runs p ! j)) \<noteq> Some s"
    by (auto simp: slots_ok_def exclusive_def)
  with rm_begin show ?case by (auto simp: exclusive_def nth_append busy_of_update less_Suc_eq)
next
  case (rm_free i p s a res)
  have other: "j \<noteq> i" "s' \<noteq> s" "on_slot (ru_pc (po_runs p ! j)) = Some s'"
    if "j < length (po_runs p)" "on_slot (ru_pc (((po_runs p)[i := (po_runs p ! i)\<lparr>ru_pc := RunFreed s a res\<rparr>]) ! j)) = Some s'" for j s'
  proof -
    show "j \<noteq> i" using that rm_free(1) by auto
    then show on: "on_slot (ru_pc (po_runs p ! j)) = Some s'" using that by simp
    show "s' \<noteq> s"
    proof
      assume "s' = s"
      with on that(1) rm_free(1,2) rm_free.prems(4) have "j = i" by (simp add: exclusive_def)
      with \<open>j \<noteq> i\<close> show False ..
    qed
  qed
  show ?case
    unfolding exclusive_def
  proof (intro conjI allI impI, goal_cases)
    case (1 j s')
    with other [of j s'] rm_free.prems(4) show ?case by (simp add: exclusive_def busy_of_update)
  next
    case (2 j k s')
    with other [of j s'] other [of k s'] rm_free.prems(4) show ?case by (simp add: exclusive_def)
  qed
next
  case (rm_change i p r)
  then show ?case by (auto simp: exclusive_def nth_list_update same_place_def)
qed (auto simp: exclusive_def nth_list_update nth_append less_Suc_eq)

definition bounded :: "'j pool_options \<Rightarrow> ('j, 'r, 'e) pool \<Rightarrow> bool" where
  "bounded opts p = (\<forall>n. queue_limit opts = Fin (of_nat n) \<longrightarrow> length (po_queue p) \<le> n)"

lemma bounded_move: "run_move opts p p' \<Longrightarrow> bounded opts p \<Longrightarrow> bounded opts p'"
  by (induction rule: run_move.induct) (auto simp: bounded_def length_remove1 intro: order_trans [OF diff_le_self])

text \<open>Runs are never forgotten, keep their job and policy, and settle once.\<close>

definition keeps_runs :: "('j, 'r, 'e) pool \<Rightarrow> ('j, 'r, 'e) pool \<Rightarrow> bool" where
  "keeps_runs p p' = (length (po_runs p) \<le> length (po_runs p') \<and> (\<forall>i < length (po_runs p). kept (po_runs p ! i) (po_runs p' ! i)))"

lemma kept_refl [simp]: "kept r r"
  by (simp add: kept_def)

lemma kept_trans: "kept r r' \<Longrightarrow> kept r' r'' \<Longrightarrow> kept r r''"
  by (auto simp: kept_def)

lemma keeps_runs_refl [simp]: "keeps_runs p p"
  by (simp add: keeps_runs_def)

lemma keeps_runs_trans: "keeps_runs p q \<Longrightarrow> keeps_runs q p' \<Longrightarrow> keeps_runs p p'"
  by (auto simp: keeps_runs_def intro: kept_trans)

lemma kept_pc [simp]: "kept r (r\<lparr>ru_pc := pc\<rparr>)"
  by (simp add: kept_def)

lemma keeps_runs_move: "run_move opts p p' \<Longrightarrow> keeps_runs p p'"
  by (induction rule: run_move.induct) (auto simp: keeps_runs_def nth_list_update nth_append)

lemma keeps_runs_moves: "run_moves opts p p' \<Longrightarrow> keeps_runs p p'"
  by (induction rule: rtranclp_induct) (auto intro: keeps_runs_trans keeps_runs_move)

definition pool_ok :: "'j pool_options \<Rightarrow> ('j, 'r, 'e) pool \<Rightarrow> bool" where
  "pool_ok opts p = (slots_ok p \<and> queue_ok p \<and> counts_ok p \<and> runs_ok opts p \<and> bounded opts p)"

lemma slots_ok_move: "run_move opts p p' \<Longrightarrow> slots_ok p \<Longrightarrow> slots_ok p'"
  using run_move_slots by (fastforce simp: slots_ok_def)

lemma pool_ok_moves: "run_moves opts p p' \<Longrightarrow> pool_ok opts p \<Longrightarrow> pool_ok opts p'"
  by (induction rule: rtranclp_induct)
    (auto simp: pool_ok_def intro: slots_ok_move queue_ok_move counts_ok_move runs_ok_move bounded_move)

lemma exclusive_moves: "run_moves opts p p' \<Longrightarrow> pool_ok opts p \<Longrightarrow> aligned p \<Longrightarrow> exclusive p \<Longrightarrow> exclusive p'"
proof (induction rule: rtranclp_induct)
  case (step q q')
  then have "pool_ok opts q" "aligned q" by (auto intro: pool_ok_moves simp: run_moves_aligned)
  with step show ?case by (auto intro: exclusive_move simp: pool_ok_def)
qed

section \<open>Every step is made of moves\<close>

lemma idle_moves:
  "\<lbrakk>po_heap p' = po_heap p; po_slots p' = po_slots p; po_queue p' = po_queue p; po_inFlight p' = po_inFlight p;
    po_runs p' = po_runs p; po_starts p' = po_starts p; po_restarts p' = po_restarts p; po_idempotentRuns p' = po_idempotentRuns p\<rbrakk>
   \<Longrightarrow> run_moves opts p p'"
  by (rule r_into_rtranclp, rule rm_idle)

lemma po_queue_self [simp]: "p\<lparr>po_queue := po_queue p\<rparr> = p"
  by simp

lemma runOnSlot_move:
  assumes "i < length (po_runs p)" "waits (ru_pc (po_runs p ! i))" "\<not> ru_aborted (po_runs p ! i)"
    "selectAvailableSlot opts rd job p = Inr (Some s, sns)" "attempt_allowed opts (po_runs p ! i) a" "q = remove1 i (po_queue p)"
  shows "run_moves opts p (runOnSlot i s a (p\<lparr>po_queue := q\<rparr>))"
proof (rule r_into_rtranclp)
  have "run_move opts p (set_run_pc i (RunOnSlot s a)
      ((set_busy s True (p\<lparr>po_queue := remove1 i (po_queue p)\<rparr>))\<lparr>po_inFlight := po_inFlight p + 1\<rparr>))"
    using assms selectAvailableSlot_some [OF assms(4)] by (auto intro: rm_take)
  with assms(3,6) show "run_move opts p (runOnSlot i s a (p\<lparr>po_queue := q\<rparr>))"
    by (simp add: runOnSlot_def)
qed

lemma end_run_move:
  assumes "i < length (po_runs p)" "on_slot (ru_pc (po_runs p ! i)) = None" "q = remove1 i (po_queue p)"
  shows "run_moves opts p (end_run i out (p\<lparr>po_queue := q\<rparr>))"
proof (rule r_into_rtranclp)
  let ?r = "(po_runs p ! i)\<lparr>ru_outcome := nullish (ru_outcome (po_runs p ! i)) (Some out), ru_listens := False, ru_pc := RunEnded\<rparr>"
  have "run_move opts p (set_run i ?r (p\<lparr>po_queue := remove1 i (po_queue p)\<rparr>))"
    using assms by (intro rm_end) (auto simp: kept_def nullish_def split: option.splits)
  moreover have "end_run i out (p\<lparr>po_queue := q\<rparr>) = set_run i ?r (p\<lparr>po_queue := remove1 i (po_queue p)\<rparr>)"
    using assms by (simp add: end_run_def settle_def set_run_pc_def set_run_def)
  ultimately show "run_move opts p (end_run i out (p\<lparr>po_queue := q\<rparr>))" by simp
qed

lemma end_run_queue: "(end_run i out p)\<lparr>po_queue := q\<rparr> = end_run i out (p\<lparr>po_queue := q\<rparr>)"
  by (simp add: end_run_def settle_def set_run_pc_def set_run_def)

lemma end_run_fields [simp]:
  "po_queue (end_run i out p) = po_queue p" "po_slots (end_run i out p) = po_slots p" "po_heap (end_run i out p) = po_heap p"
  "po_state (end_run i out p) = po_state p" "po_starts (end_run i out p) = po_starts p" "po_restarts (end_run i out p) = po_restarts p"
  "length (po_runs (end_run i out p)) = length (po_runs p)" "po_idempotentRuns (end_run i out p) = po_idempotentRuns p"
  by (simp_all add: end_run_def settle_def)

lemma queue_ok_moves: "run_moves opts p p' \<Longrightarrow> queue_ok p \<Longrightarrow> queue_ok p'"
  by (induction rule: rtranclp_induct) (auto intro: queue_ok_move)

lemma reject_moves:
  "queue_ok p \<Longrightarrow> po_queue p = q \<Longrightarrow> run_moves opts p (fold (\<lambda>i. end_run i out) q (p\<lparr>po_queue := []\<rparr>))"
proof (induction q arbitrary: p)
  case (Cons i q)
  let ?p = "end_run i out (p\<lparr>po_queue := q\<rparr>)"
  from Cons.prems have i: "i < length (po_runs p)" "ru_pc (po_runs p ! i) = RunQueued"
    by (auto simp: queue_ok_def)
  then have m: "run_moves opts p ?p" using Cons.prems by (intro end_run_move) auto
  then have "queue_ok ?p" using Cons.prems(1) by (rule queue_ok_moves)
  from Cons.IH [OF this] have "run_moves opts ?p (fold (\<lambda>i. end_run i out) q (?p\<lparr>po_queue := []\<rparr>))" by simp
  with m show ?case by (simp add: end_run_queue)
qed (simp add: idle_moves)

lemma rejectQueued_moves: "queue_ok p \<Longrightarrow> run_moves opts p (rejectQueued err p)"
  by (simp add: rejectQueued_def reject_moves)

lemma scheduleCapacityDrain_fields [simp]:
  "po_heap (scheduleCapacityDrain rd sns pol p) = po_heap p" "po_slots (scheduleCapacityDrain rd sns pol p) = po_slots p"
  "po_queue (scheduleCapacityDrain rd sns pol p) = po_queue p" "po_inFlight (scheduleCapacityDrain rd sns pol p) = po_inFlight p"
  "po_runs (scheduleCapacityDrain rd sns pol p) = po_runs p" "po_starts (scheduleCapacityDrain rd sns pol p) = po_starts p"
  "po_restarts (scheduleCapacityDrain rd sns pol p) = po_restarts p" "po_state (scheduleCapacityDrain rd sns pol p) = po_state p"
  "po_idempotentRuns (scheduleCapacityDrain rd sns pol p) = po_idempotentRuns p"
  by (auto simp: scheduleCapacityDrain_def clearCooldownDrainTimer_def split: option.splits)

lemma schedule_moves: "run_moves opts p (scheduleCapacityDrain rd sns pol p)"
  by (rule idle_moves) simp_all

lemma attempt_one [simp]: "attempt_allowed opts r 1" "attempt_allowed opts r (Suc 0)"
  by (simp_all add: attempt_allowed_def)

lemma drain_moves: "queue_ok p \<Longrightarrow> po_queue p = q \<Longrightarrow> run_moves opts p (snd (drain_loop opts rd q p))"
proof (induction q arbitrary: p)
  case (Cons i q)
  from Cons.prems have i: "i < length (po_runs p)" "ru_pc (po_runs p ! i) = RunQueued" and q: "q = remove1 i (po_queue p)"
    by (auto simp: queue_ok_def)
  have rest: "run_moves opts p (snd (drain_loop opts rd q p1))" if "run_moves opts p p1" "po_queue p1 = q" for p1
    using Cons.IH [of p1] queue_ok_moves [OF that(1) Cons.prems(1)] that by (meson rtranclp_trans)
  show ?case
  proof (cases "selectAvailableSlot opts rd (ru_job (po_runs p ! i)) p")
    case (Inr res)
    obtain so sns where res: "res = (so, sns)" by (cases res)
    show ?thesis
    proof (cases so)
      case None
      let ?pol = "retryPolicy (ru_policy (po_runs p ! i)) (px_retryPolicy opts)"
      let ?p = "scheduleCapacityDrain rd sns ?pol p"
      have "queue_ok ?p" using Cons.prems(1) by (rule queue_ok_moves [OF schedule_moves])
      then have "run_moves opts p (rejectQueued err ?p)" for err
        by (rule rtranclp_trans [OF schedule_moves rejectQueued_moves])
      with None Inr res schedule_moves [of opts p rd sns ?pol] show ?thesis
        by (auto simp: Let_def split: option.splits)
    next
      case (Some s)
      show ?thesis
      proof (cases "ru_aborted (po_runs p ! i)")
        case True
        have "run_moves opts p (end_run i (Inl runAbortedError) (p\<lparr>po_queue := q\<rparr>))"
          using i q by (intro end_run_move) auto
        from rest [OF this] show ?thesis using Some Inr res True by (simp add: Let_def)
      next
        case False
        have "run_moves opts p (runOnSlot i s 1 (p\<lparr>po_queue := q\<rparr>))"
          using i q False Inr res Some by (intro runOnSlot_move) auto
        from rest [OF this] show ?thesis using Some Inr res False by (simp add: Let_def runOnSlot_def)
      qed
    qed
  qed simp
qed simp

lemma drainQueue_moves: "queue_ok p \<Longrightarrow> run_moves opts p (snd (drainQueue opts rd p))"
  by (simp add: drainQueue_def drain_moves)

text \<open>A change of a run that waits for the result of a drain.\<close>

lemma change_moves:
  "\<lbrakk>i < length (po_runs p); same_place (ru_pc (po_runs p ! i)) (ru_pc r); kept (po_runs p ! i) r\<rbrakk> \<Longrightarrow> run_moves opts p (set_run i r p)"
  by (rule r_into_rtranclp, rule rm_change)

lemma rejected_run_moves: "run_moves opts p (rejected_run req err p)"
  unfolding rejected_run_def by (rule r_into_rtranclp, rule rm_add) (simp add: new_run_def)

lemma settle_promise_moves: "i < length (po_runs p) \<Longrightarrow> run_moves opts p (settle_promise i out p)"
  unfolding settle_promise_def
  by (rule change_moves) (auto simp: same_place_def kept_def nullish_def split: option.splits)

lemma startRun_moves:
  assumes "queue_ok p" "\<not> (rr_signal req \<and> rr_aborted req)" "startRun opts rd req p = Inr p'"
  shows "run_moves opts p p'"
proof -
  let ?i = "length (po_runs p)" and ?pol = "retryPolicy (rr_retryPolicy req) (px_retryPolicy opts)"
  from assms(3) obtain so sns where sel: "selectAvailableSlot opts rd (rr_job req) p = Inr (so, sns)"
    by (auto simp: startRun_def Let_def split: sum.splits)
  show ?thesis
  proof (cases so)
    case (Some s)
    let ?r = "new_run req False (RunOnSlot s 1) None"
    have "run_move opts p ((set_busy s True (add_run ?r p))\<lparr>po_inFlight := po_inFlight p + 1\<rparr>)"
      using selectAvailableSlot_some [OF sel [unfolded Some]] by (intro rm_begin) (auto simp: new_run_def)
    moreover have "p' = (set_busy s True (add_run ?r p))\<lparr>po_inFlight := po_inFlight p + 1\<rparr>"
      using assms(2,3) sel Some by (auto simp: startRun_def Let_def runOnSlot_def new_run_def set_run_pc_def set_run_def add_run_def
          set_busy_def)
    ultimately show ?thesis by auto
  next
    case None
    let ?p1 = "scheduleCapacityDrain rd sns ?pol p" and ?r = "new_run req True RunQueued None"
    let ?p2 = "(add_run ?r ?p1)\<lparr>po_queue := po_queue ?p1 @ [?i]\<rparr>"
    have p1: "run_moves opts p ?p1" by (rule schedule_moves)
    have rej: "run_moves opts p (rejected_run req err ?p1)" for err by (rule rtranclp_trans [OF p1 rejected_run_moves])
    have p2: "run_moves opts p ?p2" if "\<not> js_le (queue_limit opts) (Fin (of_nat (length (po_queue p))))"
    proof -
      have "run_move opts ?p1 ((add_run ?r ?p1)\<lparr>po_queue := po_queue ?p1 @ [length (po_runs ?p1)]\<rparr>)"
        using that by (intro rm_enqueue) (simp_all add: new_run_def)
      with p1 show ?thesis by auto
    qed
    then have p3: "run_moves opts p (snd (drainQueue opts rd ?p2))" if "\<not> js_le (queue_limit opts) (Fin (of_nat (length (po_queue p))))"
      using drainQueue_moves [OF queue_ok_moves [OF p2 [OF that] assms(1)]] that by (meson rtranclp_trans)
    have len: "?i < length (po_runs (snd (drainQueue opts rd ?p2)))" if "\<not> js_le (queue_limit opts) (Fin (of_nat (length (po_queue p))))"
      using run_moves_slots(6) [OF drainQueue_moves [OF queue_ok_moves [OF p2 [OF that] assms(1)], of opts rd]] by simp
    from assms(3) None sel consider (rejected) err where "p' = rejected_run req err ?p1"
      | (drained) "\<not> js_le (queue_limit opts) (Fin (of_nat (length (po_queue p))))"
        "p' = snd (drainQueue opts rd ?p2) \<or> (\<exists>e. p' = settle_promise ?i (Inl e) (snd (drainQueue opts rd ?p2)))"
      by (auto simp: startRun_def Let_def queue_limit_def split: option.splits if_splits prod.splits)
    then show ?thesis
    proof cases
      case drained
      with p3 len show ?thesis by (auto intro: rtranclp_trans settle_promise_moves)
    qed (simp add: rej)
  qed
qed

text \<open>A drain changes neither the keys nor the number of runs.\<close>

lemma rejectQueued_keys [simp]:
  "po_idempotentRuns (rejectQueued err p) = po_idempotentRuns p" "length (po_runs (rejectQueued err p)) = length (po_runs p)"
proof -
  have "po_idempotentRuns (fold (\<lambda>i. end_run i out) q p) = po_idempotentRuns p \<and>
      length (po_runs (fold (\<lambda>i. end_run i out) q p)) = length (po_runs p)" for q and p :: "('a, 'b, 'c) pool" and out
    by (induction q arbitrary: p) simp_all
  then show "po_idempotentRuns (rejectQueued err p) = po_idempotentRuns p" "length (po_runs (rejectQueued err p)) = length (po_runs p)"
    by (simp_all add: rejectQueued_def)
qed

lemma runOnSlot_keys [simp]:
  "po_idempotentRuns (runOnSlot i s a p) = po_idempotentRuns p" "length (po_runs (runOnSlot i s a p)) = length (po_runs p)"
  by (simp_all add: runOnSlot_def)

lemma drain_keys:
  "po_idempotentRuns (snd (drain_loop opts rd q p)) = po_idempotentRuns p \<and>
   length (po_runs (snd (drain_loop opts rd q p))) = length (po_runs p)"
  by (induction q arbitrary: p) (auto simp: Let_def split: sum.splits option.splits prod.splits)

lemma drainQueue_keys:
  "drainQueue opts rd p = (e, p') \<Longrightarrow> po_idempotentRuns p' = po_idempotentRuns p \<and> length (po_runs p') = length (po_runs p)"
  using drain_keys [of opts rd "po_queue p" p] by (auto simp: drainQueue_def split: if_splits)

lemma startRun_keys:
  "startRun opts rd req p = Inr p' \<Longrightarrow> po_idempotentRuns p' = po_idempotentRuns p \<and> length (po_runs p') = Suc (length (po_runs p))"
  by (auto simp: startRun_def Let_def rejected_run_def settle_promise_def split: sum.splits option.splits if_splits prod.splits
      dest!: drainQueue_keys)

definition keys_ok :: "('j, 'r, 'e) pool \<Rightarrow> bool" where
  "keys_ok p = (\<forall>key i. map_of (po_idempotentRuns p) key = Some i \<longrightarrow> i < length (po_runs p))"

lemma pool_run_call_moves:
  assumes "queue_ok p" "keys_ok p"
  shows "run_moves opts p (snd (pool_run_call opts rd req p))"
proof (cases "rr_signal req \<and> rr_aborted req \<or> po_state p = PsDraining \<or> pool_assertRunnable p \<noteq> Inr ()")
  case True
  then show ?thesis
    by (auto simp: pool_run_call_def Let_def intro: rejected_run_moves split: sum.splits)
next
  case False
  have started: "run_moves opts p p1" if "startRun opts rd req p = Inr p1" for p1
    using False that by (intro startRun_moves [OF assms(1)]) auto
  show ?thesis
  proof (cases "normalizeIdempotencyKey (rr_idempotencyKey req)")
    case None
    with False show ?thesis by (auto simp: pool_run_call_def Let_def started split: sum.splits)
  next
    case (Some key)
    show ?thesis
    proof (cases "map_of (po_idempotentRuns p) key")
      case None
      have "run_moves opts p (p1\<lparr>po_idempotentRuns := AList.update key (length (po_runs p)) (po_idempotentRuns p1)\<rparr>)"
        if "startRun opts rd req p = Inr p1" for p1
        by (rule rtranclp.rtrancl_into_rtrancl [OF started [OF that]], rule rm_key)
          (use None startRun_keys [OF that] in simp_all)
      with False Some None show ?thesis by (auto simp: pool_run_call_def Let_def split: sum.splits)
    next
      case (Some i)
      with assms(2) have "run_move opts p (add_run (new_run req True (RunFollows i) None) p)"
        by (intro rm_add) (auto simp: new_run_def keys_ok_def)
      with False Some \<open>normalizeIdempotencyKey (rr_idempotencyKey req) = Some key\<close> show ?thesis
        by (auto simp: pool_run_call_def Let_def split: sum.splits)
    qed
  qed
qed

lemma run_counted_moves: "i < length (po_runs p) \<Longrightarrow> run_moves opts p (run_counted opts i result p)"
proof -
  assume i: "i < length (po_runs p)"
  have "run_moves opts p ((set_run_pc i (RunCounted s a res) p)\<lparr>po_completed := c, po_failed := f\<rparr>)"
    if "ru_pc (po_runs p ! i) = RunOnSlot s a" for s a res c f
  proof (rule rtranclp.rtrancl_into_rtrancl)
    show "run_moves opts p (set_run_pc i (RunCounted s a res) p)"
      unfolding set_run_pc_def using i that by (intro change_moves) (simp_all add: same_place_def)
  qed (simp add: rm_idle)
  from this [where c = "po_completed p + 1" and f = "po_failed p"] this [where c = "po_completed p" and f = "po_failed p + 1"]
  show ?thesis
    by (auto simp: run_counted_def set_run_pc_def set_run_def split: run_pc.splits sum.splits)
qed

text \<open>A drain touches only the runs of the queue.\<close>

lemma rejectQueued_other: "j \<notin> set (po_queue p) \<Longrightarrow> po_runs (rejectQueued err p) ! j = po_runs p ! j"
proof -
  have "j \<notin> set q \<Longrightarrow> po_runs (fold (\<lambda>i. end_run i out) q p) ! j = po_runs p ! j" for q and p :: "('a, 'b, 'c) pool" and out
    by (induction q arbitrary: p) (auto simp: end_run_def settle_def)
  then show "j \<notin> set (po_queue p) \<Longrightarrow> po_runs (rejectQueued err p) ! j = po_runs p ! j" by (simp add: rejectQueued_def)
qed

lemma drain_other:
  "po_queue p = q \<Longrightarrow> j \<notin> set q \<Longrightarrow> po_runs (snd (drain_loop opts rd q p)) ! j = po_runs p ! j"
proof (induction q arbitrary: p)
  case (Cons i q)
  then show ?case
    by (auto simp: Let_def runOnSlot_def rejectQueued_other end_run_def settle_def split: sum.splits option.splits prod.splits)
qed simp

lemma drainQueue_other: "drainQueue opts rd p = (e, p') \<Longrightarrow> j \<notin> set (po_queue p) \<Longrightarrow> po_runs p' ! j = po_runs p ! j"
  using drain_other [of p "po_queue p" j opts rd] by (auto simp: drainQueue_def split: if_splits)

lemma run_finally_moves:
  assumes "i < length (po_runs p)" "queue_ok p"
  shows "run_moves opts p (run_finally opts rd i p)"
proof (cases "\<exists>s a res. ru_pc (po_runs p ! i) = RunCounted s a res")
  case True
  then obtain s a res where pc: "ru_pc (po_runs p ! i) = RunCounted s a res" by blast
  let ?q = "set_run_pc i (RunFreed s a res) ((set_busy s False p)\<lparr>po_inFlight := po_inFlight p - 1\<rparr>)"
  have m: "run_moves opts p ?q" using assms(1) pc by (auto intro: rm_free)
  have q: "queue_ok ?q" by (rule queue_ok_moves [OF m assms(2)])
  obtain e p1 where d: "drainQueue opts rd ?q = (e, p1)" by fastforce
  from drainQueue_moves [OF q, of opts rd] d have "run_moves opts ?q p1" by simp
  with m have m1: "run_moves opts p p1" by (rule rtranclp_trans)
  have "po_runs p1 ! i = po_runs ?q ! i"
    using assms(1) q by (intro drainQueue_other [OF d]) (auto simp: queue_ok_def)
  then have "ru_pc (po_runs p1 ! i) = RunFreed s a res" using assms(1) by simp
  moreover have "i < length (po_runs p1)" using drainQueue_keys [OF d] assms(1) by simp
  ultimately have "run_moves opts p1 (set_run_pc i (RunFreed s a (Inl x)) p1)" for x
    unfolding set_run_pc_def by (intro change_moves) (simp_all add: same_place_def)
  with m1 have "run_moves opts p (set_run_pc i (RunFreed s a (Inl x)) p1)" for x by (rule rtranclp_trans)
  with m1 pc d show ?thesis by (auto simp: run_finally_def split: option.splits)
qed (auto simp: run_finally_def split: run_pc.splits)

lemma end_run_here: "i < length (po_runs p) \<Longrightarrow> on_slot (ru_pc (po_runs p ! i)) = None \<Longrightarrow> i \<notin> set (po_queue p) \<Longrightarrow> run_moves opts p (end_run i out p)"
  using end_run_move [of i p "po_queue p" opts out] by (simp add: remove1_idem)

lemma run_resume_moves:
  assumes "i < length (po_runs p)" "queue_ok p"
  shows "run_moves opts p (run_resume opts rd i p)"
proof (cases "\<exists>s a res. ru_pc (po_runs p ! i) = RunFreed s a res")
  case True
  then obtain s a res where pc: "ru_pc (po_runs p ! i) = RunFreed s a res" by blast
  with assms have nq: "i \<notin> set (po_queue p)" by (auto simp: queue_ok_def)
  have ended: "run_moves opts p (end_run i out p)" for out using assms(1) pc nq by (intro end_run_here) auto
  have scheduled: "run_moves opts p (end_run i out (scheduleCapacityDrain rd sns pol p))" for out sns pol
    using assms(1) pc nq by (intro rtranclp_trans [OF schedule_moves end_run_here]) auto
  have retried: "run_moves opts p (runOnSlot i s' (a + 1) p)"
    if "selectAvailableSlot opts rd (ru_job (po_runs p ! i)) p = Inr (Some s', sns)"
      "shouldRetryOnAnotherSlot opts rd (po_runs p ! i) s a p" for s' sns
  proof -
    have "run_moves opts p (runOnSlot i s' (a + 1) (p\<lparr>po_queue := po_queue p\<rparr>))"
      using assms(1) pc nq that
      by (intro runOnSlot_move) (auto simp: shouldRetryOnAnotherSlot_def attempt_allowed_def Let_def remove1_idem split: if_splits)
    then show ?thesis by simp
  qed
  then show ?thesis
    using pc ended scheduled by (auto simp: run_resume_def Let_def split: sum.splits option.splits)
qed (auto simp: run_resume_def Let_def split: run_pc.splits)

lemma run_follow_moves:
  assumes "i < length (po_runs p)" "queue_ok p"
  shows "run_moves opts p (run_follow i p)"
proof (cases "\<exists>t. ru_pc (po_runs p ! i) = RunFollows t")
  case True
  then obtain t where pc: "ru_pc (po_runs p ! i) = RunFollows t" by blast
  with assms have "i \<notin> set (po_queue p)" by (auto simp: queue_ok_def)
  with assms(1) pc have "run_moves opts p (end_run i out p)" for out by (intro end_run_here) auto
  with pc show ?thesis by (simp add: run_follow_def split: option.splits)
qed (auto simp: run_follow_def split: run_pc.splits)

lemma run_cleanup_moves: "run_moves opts p (run_cleanup key p)"
  by (auto simp: run_cleanup_def intro: rm_forget split: option.splits)

lemma pool_timer_moves: "queue_ok p \<Longrightarrow> run_moves opts p (pool_timer opts rd p)"
proof -
  assume q: "queue_ok p"
  have m: "run_moves opts p (p\<lparr>po_cooldownDrainAt := None, po_cooldownDrainTimer := False\<rparr>)" by (rule idle_moves) simp_all
  from rtranclp_trans [OF m drainQueue_moves [OF queue_ok_moves [OF m q], of opts rd]] show ?thesis
    by (simp add: pool_timer_def)
qed

lemma run_abort_moves:
  assumes "i < length (po_runs p)" "queue_ok p"
  shows "run_moves opts p (run_abort i p)"
proof -
  let ?r = "po_runs p ! i"
  let ?r1 = "?r\<lparr>ru_aborted := True\<rparr>"
  let ?r2 = "?r1\<lparr>ru_outcome := nullish (ru_outcome ?r) (Some (Inl runAbortedError)), ru_listens := False\<rparr>"
  have marked: "run_moves opts p (set_run i ?r1 p)"
    using assms(1) by (intro change_moves) (simp_all add: same_place_def kept_def)
  have settled: "run_moves opts p (set_run i ?r2 p)"
    using assms(1) by (intro change_moves) (auto simp: same_place_def kept_def nullish_def split: option.splits)
  have ended: "run_moves opts p (set_run i (?r2\<lparr>ru_pc := RunEnded\<rparr>) (p\<lparr>po_queue := remove1 i (po_queue p)\<rparr>))"
    if "on_slot (ru_pc ?r) = None"
    using assms(1) that by (intro r_into_rtranclp rm_end) (auto simp: kept_def nullish_def split: option.splits)
  have out: "remove1 i (po_queue p) = po_queue p" if "ru_pc ?r \<noteq> RunQueued"
    using that assms by (intro remove1_idem) (auto simp: queue_ok_def)
  have q: "(i \<in> set (po_queue p)) = (ru_pc ?r = RunQueued)" using assms by (auto simp: queue_ok_def)
  show ?thesis
    using marked settled ended out assms(1)
    by (cases "ru_pc ?r") (auto simp: run_abort_def Let_def settle_def set_run_pc_def set_run_def q)
qed

section \<open>Changes of the slots\<close>

fun start_ref :: "'e start_pc \<Rightarrow> nat option" where
  "start_ref (StWorker i s) = Some s"
| "start_ref _ = None"

fun restart_ref :: "'e restart_pc \<Rightarrow> (nat \<times> nat) option" where
  "restart_ref (RsDispose i s prewarm) = Some (i, s)"
| "restart_ref (RsStart i s prewarm) = Some (i, s)"
| "restart_ref (RsPrewarm i s) = Some (i, s)"
| "restart_ref _ = None"

text \<open>The slots a pending start or restart is about to put into the array exist.\<close>

definition refs_ok :: "('j, 'r, 'e) pool \<Rightarrow> bool" where
  "refs_ok p =
     (slots_ok p \<and> (\<forall>pc \<in> set (po_starts p). \<forall>s. start_ref pc = Some s \<longrightarrow> s < length (po_heap p)) \<and>
      (\<forall>pc \<in> set (po_restarts p). \<forall>i s. restart_ref pc = Some (i, s) \<longrightarrow> s < length (po_heap p)))"

definition slot_move :: "('j, 'r, 'e) pool \<Rightarrow> ('j, 'r, 'e) pool \<Rightarrow> bool" where
  "slot_move p p' =
     (po_runs p' = po_runs p \<and> po_queue p' = po_queue p \<and> po_inFlight p' = po_inFlight p \<and>
      po_idempotentRuns p' = po_idempotentRuns p \<and> length (po_heap p) \<le> length (po_heap p') \<and>
      (\<forall>s < length (po_heap p). so_index (po_heap p' ! s) = so_index (po_heap p ! s) \<and>
         (so_busy (po_heap p ! s) \<longrightarrow> so_busy (po_heap p' ! s))) \<and>
      (refs_ok p \<longrightarrow> refs_ok p'))"

definition step_shape :: "'j pool_options \<Rightarrow> ('j, 'r, 'e) pool \<Rightarrow> ('j, 'r, 'e) pool \<Rightarrow> bool" where
  "step_shape opts p p' =
     (\<exists>q q'. slot_move p q \<and> run_moves opts q q' \<and> slot_move q' p' \<and> (po_slots q = po_slots p \<or> po_slots p' = po_slots q'))"

lemma slot_move_refl [simp]: "slot_move p p"
  by (simp add: slot_move_def)

lemma refs_ok_moves: "run_moves opts p p' \<Longrightarrow> refs_ok p \<Longrightarrow> refs_ok p'"
  by (simp add: refs_ok_def slots_ok_def run_moves_slots)

lemma moves_shape: "run_moves opts p p' \<Longrightarrow> step_shape opts p p'"
  unfolding step_shape_def by (rule exI [of _ p], rule exI [of _ p']) simp

lemma slot_move_shape: "slot_move p p' \<Longrightarrow> step_shape opts p p'"
  unfolding step_shape_def by (rule exI [of _ p'], rule exI [of _ p']) simp

lemma slot_move_trans: "slot_move p q \<Longrightarrow> slot_move q p' \<Longrightarrow> slot_move p p'"
  by (auto simp: slot_move_def)

lemma set_restart_move:
  "restart_ref pc = None \<or> k < length (po_restarts p) \<and> restart_ref pc = restart_ref (po_restarts p ! k) \<Longrightarrow> slot_move p (set_restart k pc p)"
  by (auto simp: slot_move_def set_restart_def refs_ok_def slots_ok_def dest!: set_update_subset_insert [THEN subsetD])
    (metis nth_mem)

lemma set_start_move: "start_ref pc = None \<Longrightarrow> slot_move p (set_start k pc p)"
  by (auto simp: slot_move_def set_start_def refs_ok_def slots_ok_def dest!: set_update_subset_insert [THEN subsetD])

lemma slots_move:
  "set xs \<subseteq> set (po_slots p) \<union> {None} \<union> Some ` {s. (\<exists>pc \<in> set (po_starts p). start_ref pc = Some s) \<or>
     (\<exists>pc \<in> set (po_restarts p). \<exists>i. restart_ref pc = Some (i, s))} \<Longrightarrow> slot_move p (p\<lparr>po_slots := xs\<rparr>)"
  by (fastforce simp: slot_move_def refs_ok_def slots_ok_def)

lemma idle_slot_move:
  "\<lbrakk>po_heap p' = po_heap p; po_slots p' = po_slots p; po_queue p' = po_queue p; po_inFlight p' = po_inFlight p;
    po_runs p' = po_runs p; po_starts p' = po_starts p; po_restarts p' = po_restarts p; po_idempotentRuns p' = po_idempotentRuns p\<rbrakk>
   \<Longrightarrow> slot_move p p'"
  by (simp add: slot_move_def refs_ok_def slots_ok_def)

lemma restartSlot_move: "slot_move p (restartSlot i prewarm p)"
proof -
  have fin: "slot_move p (p\<lparr>po_restarts := po_restarts p @ [RsDone r]\<rparr>)" for r
    by (auto simp: slot_move_def refs_ok_def slots_ok_def)
  have "slot_move p ((set_busy s True p)\<lparr>po_heap := po_heap (set_busy s True p) @ [\<lparr>so_index = i, so_busy = False\<rparr>],
      po_restarts := po_restarts p @ [RsDispose i (length (po_heap p)) prewarm]\<rparr>)" for s
    by (auto simp: slot_move_def refs_ok_def slots_ok_def nth_append busy_of_update less_Suc_eq)
  with fin show ?thesis
    by (auto simp: restartSlot_def createSlot_def Let_def split: sum.splits option.splits)
qed

lemma pool_start_move: "slot_move p (pool_start p)"
  by (auto simp: pool_start_def createSlot_def Let_def slot_move_def refs_ok_def slots_ok_def nth_append less_Suc_eq)

lemma start_catch_move: "slot_move p (start_catch k e p)"
proof -
  have "slot_move p (p\<lparr>po_state := PsFailed, po_slots := []\<rparr>)" by (simp add: slot_move_def refs_ok_def slots_ok_def)
  then show ?thesis unfolding start_catch_def by (rule slot_move_trans) (rule set_start_move, simp)
qed

lemma start_resume_move:
  assumes "k < length (po_starts p)"
  shows "slot_move p (start_resume opts k result p)"
proof (cases "po_starts p ! k")
  case (StWorker i s)
  let ?p1 = "p\<lparr>po_slots := po_slots p @ [Some s]\<rparr>"
  have "StWorker i s \<in> set (po_starts p)" using assms StWorker by (metis nth_mem)
  then have pushed: "slot_move p ?p1" by (intro slots_move) force
  have state: "slot_move ?p1 (?p1\<lparr>po_state := st\<rparr>)" for st by (rule idle_slot_move) simp_all
  have fin: "slot_move p (set_start k pc (?p1\<lparr>po_state := st\<rparr>))" if "start_ref pc = None" for pc st
    by (rule slot_move_trans [OF slot_move_trans [OF pushed state] set_start_move [OF that]])
  have "slot_move ?p1 (set_start k (StWorker (i + 1) (length (po_heap ?p1)))
      (?p1\<lparr>po_heap := po_heap ?p1 @ [\<lparr>so_index = i + 1, so_busy = False\<rparr>]\<rparr>))"
    by (auto simp: set_start_def slot_move_def refs_ok_def slots_ok_def nth_append less_Suc_eq dest!: set_update_subset_insert [THEN subsetD])
  with slot_move_trans [OF pushed this] fin StWorker show ?thesis
    by (auto simp: start_resume_def Let_def createSlot_def start_catch_move set_start_move split: sum.splits)
qed (auto simp: start_resume_def start_catch_move split: sum.splits
      intro!: slot_move_trans [OF idle_slot_move set_start_move] set_start_move)

lemma queue_ok_slot_move: "slot_move p q \<Longrightarrow> queue_ok q = queue_ok p"
  by (simp add: slot_move_def queue_ok_def)

lemma set_restart_slots [simp]: "po_slots (set_restart k pc p) = po_slots p"
  by (simp add: set_restart_def)

lemma drain_restart_shape:
  assumes "slot_move p q" "queue_ok p" "drainQueue opts rd q = (e, p1)"
  shows "step_shape opts p (set_restart k (RsDone r) p1)"
  unfolding step_shape_def
proof (intro exI conjI)
  show "slot_move p q" by (rule assms(1))
  show "run_moves opts q p1"
    using drainQueue_moves [of q opts rd] assms by (simp add: queue_ok_slot_move)
  show "slot_move p1 (set_restart k (RsDone r) p1)" by (rule set_restart_move) simp
qed simp

lemma restart_failed_move: "k < length (po_restarts p) \<Longrightarrow> slot_move p (restart_failed opts k i e p)"
proof -
  have "set (take i (po_slots p) @ drop (i + 1) (po_slots p)) \<subseteq> set (po_slots p)"
    by (auto dest: in_set_takeD in_set_dropD)
  then have "slot_move p (p\<lparr>po_slots := take i (po_slots p) @ drop (i + 1) (po_slots p)\<rparr>)" by (intro slots_move) auto
  then have "slot_move p (p\<lparr>po_slots := take i (po_slots p) @ drop (i + 1) (po_slots p), po_state := PsFailed\<rparr>)"
    by (rule slot_move_trans) (simp add: idle_slot_move)
  then show ?thesis unfolding restart_failed_def by (rule slot_move_trans) (rule set_restart_move, simp)
qed

lemma set_slots_put: "set (slots_put i s xs) \<subseteq> set xs \<union> {None} \<union> {Some s}"
  by (auto simp: slots_put_def dest: set_update_subset_insert [THEN subsetD])

lemma restart_done_shape:
  assumes "k < length (po_restarts p)" "restart_ref (po_restarts p ! k) = Some (i, next)" "queue_ok p"
  shows "step_shape opts p (restart_done opts rd k i next p)"
proof -
  let ?q = "p\<lparr>po_slots := slots_put i next (po_slots p), po_restarted := po_restarted p + 1\<rparr>"
  have "slot_move p (p\<lparr>po_slots := slots_put i next (po_slots p)\<rparr>)"
  proof (rule slots_move)
    have "po_restarts p ! k \<in> set (po_restarts p)" using assms(1) by simp
    with assms(2) show "set (slots_put i next (po_slots p)) \<subseteq> set (po_slots p) \<union> {None} \<union> Some ` {s. (\<exists>pc \<in> set (po_starts p). start_ref pc = Some s) \<or>
        (\<exists>pc \<in> set (po_restarts p). \<exists>i. restart_ref pc = Some (i, s))}"
      using set_slots_put [of i "next" "po_slots p"] by fastforce
  qed
  then have "slot_move p ?q" by (rule slot_move_trans) (simp add: idle_slot_move)
  from drain_restart_shape [OF this assms(3)] show ?thesis
    by (auto simp: restart_done_def split: prod.splits option.splits)
qed

lemma restart_resume_shape:
  assumes "k < length (po_restarts p)" "queue_ok p"
  shows "step_shape opts p (restart_resume opts rd k result p)"
proof (cases "po_restarts p ! k")
  case (RsCleanup i err)
  show ?thesis
  proof (cases "po_slots p = []")
    case True
    have "step_shape opts p (set_restart k (RsDone (Inl err)) (rejectQueued err p))"
      unfolding step_shape_def
      by (intro exI conjI, rule slot_move_refl, rule rejectQueued_moves [OF assms(2)], rule set_restart_move) simp_all
    with True RsCleanup show ?thesis by (simp add: restart_resume_def)
  next
    case False
    with RsCleanup drain_restart_shape [OF slot_move_refl assms(2)] show ?thesis
      by (auto simp: restart_resume_def split: prod.splits option.splits)
  qed
qed (auto simp: restart_resume_def split: sum.splits
    intro!: slot_move_shape [OF restart_failed_move] slot_move_shape [OF set_restart_move] slot_move_shape [OF slot_move_refl]
      restart_done_shape assms)

lemma prewarm_moves: "run_moves opts p (pool_prewarm p)" "run_moves opts p (prewarm_resume k result p)"
  by (auto simp: pool_prewarm_def prewarm_resume_def split: sum.splits prewarm_pc.splits intro!: idle_moves)

lemma close_slots_move: "slot_move q (set_dispose k DsClosing (q\<lparr>po_slots := []\<rparr>))"
  by (simp add: slot_move_def set_dispose_def refs_ok_def slots_ok_def)

lemma dispose_check_shape:
  assumes "queue_ok p"
  shows "step_shape opts p (dispose_check k deadline now p)"
proof -
  have "step_shape opts p (set_dispose k DsClosing ((rejectQueued err p)\<lparr>po_slots := []\<rparr>))" for err
    unfolding step_shape_def
    by (intro exI conjI, rule slot_move_refl, rule rejectQueued_moves [OF assms], rule close_slots_move) simp
  then show ?thesis by (simp add: dispose_check_def moves_shape)
qed

lemma step_shape_after: "\<lbrakk>slot_move p q; po_slots q = po_slots p; step_shape opts q p'\<rbrakk> \<Longrightarrow> step_shape opts p p'"
  unfolding step_shape_def by (metis slot_move_trans)

lemma pool_dispose_shape: "queue_ok p \<Longrightarrow> step_shape opts p (pool_dispose opts now now' p)"
proof -
  assume q: "queue_ok p"
  let ?q = "\<lambda>d. (clearCooldownDrainTimer (p\<lparr>po_state := PsDraining\<rparr>))\<lparr>po_disposals := po_disposals p @ [DsWait d]\<rparr>"
  have i: "slot_move p (?q d)" "po_slots (?q d) = po_slots p" for d
    by (auto simp: clearCooldownDrainTimer_def intro!: idle_slot_move)
  have "queue_ok (?q d)" for d using q by (simp add: queue_ok_def clearCooldownDrainTimer_def)
  then have "step_shape opts (?q d) (dispose_check k d now' (?q d))" for k d by (rule dispose_check_shape)
  with i have "step_shape opts p (dispose_check k d now' (?q d))" for k d by (rule step_shape_after)
  moreover have "step_shape opts p (p\<lparr>po_disposals := xs\<rparr>)" for xs by (intro moves_shape idle_moves) simp_all
  ultimately show ?thesis
    by (simp add: pool_dispose_def Let_def clearCooldownDrainTimer_def)
qed

lemma dispose_resume_shape:
  assumes "queue_ok p"
  shows "step_shape opts p (dispose_resume k now result p)"
proof (cases "po_disposals p ! k")
  case (DsWait d)
  with dispose_check_shape [OF assms] show ?thesis by (simp add: dispose_resume_def)
qed (auto simp: dispose_resume_def set_dispose_def split: sum.splits intro!: moves_shape idle_moves)

lemma pool_step_shape:
  assumes "queue_ok p" "keys_ok p"
  shows "step_shape opts p (pool_step opts e p)"
  using assms
  by (cases e)
    (auto intro: moves_shape pool_run_call_moves run_abort_moves run_counted_moves run_finally_moves run_resume_moves run_follow_moves
      run_cleanup_moves pool_timer_moves prewarm_moves slot_move_shape restartSlot_move restart_resume_shape pool_start_move
      start_resume_move pool_dispose_shape dispose_resume_shape)

section \<open>Reachable pools\<close>

lemma keys_ok_move: "run_move opts p p' \<Longrightarrow> keys_ok p \<Longrightarrow> keys_ok p'"
  by (induction rule: run_move.induct)
    (fastforce simp: keys_ok_def map_of_AList_update map_of_AList_delete split: if_splits)+

lemma keys_ok_moves: "run_moves opts p p' \<Longrightarrow> keys_ok p \<Longrightarrow> keys_ok p'"
  by (induction rule: rtranclp_induct) (auto intro: keys_ok_move)

definition pool_inv :: "'j pool_options \<Rightarrow> ('j, 'r, 'e) pool \<Rightarrow> bool" where
  "pool_inv opts p = (pool_ok opts p \<and> refs_ok p \<and> keys_ok p)"

lemma pool_inv_slot_move: "slot_move p p' \<Longrightarrow> pool_inv opts p \<Longrightarrow> pool_inv opts p'"
  by (auto simp: slot_move_def pool_inv_def pool_ok_def queue_ok_def counts_ok_def runs_ok_def run_ok_def bounded_def keys_ok_def refs_ok_def
      intro: less_le_trans)

lemma pool_inv_moves: "run_moves opts p p' \<Longrightarrow> pool_inv opts p \<Longrightarrow> pool_inv opts p'"
  by (simp add: pool_inv_def pool_ok_moves refs_ok_moves keys_ok_moves)

lemma pool_inv_step: "pool_inv opts p \<Longrightarrow> pool_inv opts (pool_step opts e p)"
proof -
  assume inv: "pool_inv opts p"
  then have "queue_ok p" "keys_ok p" by (simp_all add: pool_inv_def pool_ok_def)
  from pool_step_shape [OF this, of opts e] inv show ?thesis
    unfolding step_shape_def by (blast intro: pool_inv_slot_move pool_inv_moves)
qed

lemma pool_inv_steps: "pool_inv opts p \<Longrightarrow> pool_inv opts (pool_steps opts es p)"
  by (induction es arbitrary: p) (simp_all add: pool_inv_step)

lemma pool_inv_new: "pool_new opts = Inr p \<Longrightarrow> pool_inv opts p"
  by (auto simp: pool_new_def pool_inv_def pool_ok_def slots_ok_def queue_ok_def counts_ok_def runs_ok_def bounded_def refs_ok_def
      keys_ok_def split: if_splits)

end
