(* ===== verification/Pool_Histories.thy ===== *)
theory Pool_Histories
  imports Pool_Laws
begin

text \<open>
  What holds of every history of a worker pool, and what holds of the orderly ones: the pool is
  started once, disposed only when its start is over, and no restart of a slot fails. In an orderly
  history every slot stands at its own index, so a run in flight has its slot for itself. The last
  section shows what a failed restart does.
\<close>

section \<open>Orderly histories\<close>

fun orderly_event :: "('j, 'r, 'e) pool \<Rightarrow> ('j, 'r, 'e) pool_event \<Rightarrow> bool" where
  "orderly_event p PvStart = (po_starts p = [])"
| "orderly_event p (PvRestarted k rd (Inl e)) = False"
| "orderly_event p (PvDispose now now') = list_all (\<lambda>pc. start_ref pc = None) (po_starts p)"
| "orderly_event p (PvDisposed k now result) = list_all (\<lambda>pc. start_ref pc = None) (po_starts p)"
| "orderly_event p _ = True"

fun orderly :: "'j pool_options \<Rightarrow> ('j, 'r, 'e) pool_event list \<Rightarrow> ('j, 'r, 'e) pool \<Rightarrow> bool" where
  "orderly opts [] p = True"
| "orderly opts (x # xs) p = (orderly_event p x \<and> orderly opts xs (pool_step opts x p))"

definition starting :: "('j, 'r, 'e) pool \<Rightarrow> bool" where
  "starting p = (\<exists>pc \<in> set (po_starts p). start_ref pc \<noteq> None)"

text \<open>Every slot stands at its index, and so will those that a pending start or restart puts there.\<close>

definition placed :: "('j, 'r, 'e) pool \<Rightarrow> bool" where
  "placed p =
     (aligned p \<and> length (po_starts p) \<le> 1 \<and> (po_starts p = [] \<longrightarrow> po_slots p = [] \<and> (\<forall>pc \<in> set (po_restarts p). restart_ref pc = None)) \<and>
      (\<forall>pc \<in> set (po_starts p). \<forall>i s. pc = StWorker i s \<longrightarrow> length (po_slots p) = i \<and> so_index (po_heap p ! s) = i) \<and>
      (\<forall>pc \<in> set (po_restarts p). \<forall>i s. restart_ref pc = Some (i, s) \<longrightarrow>
         so_index (po_heap p ! s) = i \<and> (starting p \<longrightarrow> i < length (po_slots p))))"

lemma placed_cong:
  "\<lbrakk>po_slots p' = po_slots p; po_starts p' = po_starts p; po_restarts p' = po_restarts p;
    \<And>s. so_index (po_heap p' ! s) = so_index (po_heap p ! s)\<rbrakk> \<Longrightarrow> placed p' = placed p"
  by (simp add: placed_def aligned_def starting_def)

lemma placed_moves: "run_moves opts p p' \<Longrightarrow> placed p' = placed p"
  by (rule placed_cong) (simp_all add: run_moves_slots)

lemma nth_slots_put: "k < length (slots_put i s xs) \<Longrightarrow> slots_put i s xs ! k = Some t \<Longrightarrow> k = i \<and> t = s \<or> k < length xs \<and> xs ! k = Some t"
  by (auto simp: slots_put_def nth_append nth_list_update split: if_splits)

lemma length_slots_put: "i < length xs \<Longrightarrow> length (slots_put i s xs) = length xs"
  by (simp add: slots_put_def)

lemma placed_put:
  assumes "placed p" "k < length (po_restarts p)" "restart_ref (po_restarts p ! k) = Some (i, next)"
  shows "placed (p\<lparr>po_slots := slots_put i next (po_slots p), po_restarted := n\<rparr>)"
proof -
  have "po_restarts p ! k \<in> set (po_restarts p)" using assms(2) by simp
  with assms(1,3) have idx: "so_index (po_heap p ! next) = i" "starting p \<Longrightarrow> i < length (po_slots p)" "po_starts p \<noteq> []"
    unfolding placed_def by auto
  have "aligned (p\<lparr>po_slots := slots_put i next (po_slots p), po_restarted := n\<rparr>)"
    using assms(1) idx(1) by (auto simp: placed_def aligned_def dest!: nth_slots_put)
  moreover have "pc = StWorker j t \<Longrightarrow> pc \<in> set (po_starts p) \<Longrightarrow> starting p" for pc j t
    by (force simp: starting_def)
  ultimately show ?thesis
    using assms(1) idx length_slots_put [of i "po_slots p" "next"] by (auto simp: placed_def starting_def)
qed

text \<open>A new slot in the heap leaves the indices of the others alone.\<close>

lemma placed_grow:
  assumes "placed p" "refs_ok p" "po_slots p' = po_slots p" "po_starts p' = po_starts p" "po_restarts p' = po_restarts p"
    "\<And>s. s < length (po_heap p) \<Longrightarrow> so_index (po_heap p' ! s) = so_index (po_heap p ! s)"
  shows "placed p'"
proof -
  have "aligned p'"
    unfolding aligned_def
  proof (intro allI impI)
    fix k s
    assume k: "k < length (po_slots p')" "po_slots p' ! k = Some s"
    then have "Some s \<in> set (po_slots p)" using assms(3) by (metis nth_mem)
    then have "s < length (po_heap p)" using assms(2) by (simp add: refs_ok_def slots_ok_def)
    with k assms(1,3,6) show "so_index (po_heap p' ! s) = k" by (simp add: placed_def aligned_def)
  qed
  moreover have "so_index (po_heap p' ! s) = so_index (po_heap p ! s)" if "StWorker i s \<in> set (po_starts p)" for i s
    using assms(2,6) that by (force simp: refs_ok_def)
  moreover have "so_index (po_heap p' ! s) = so_index (po_heap p ! s)" if "pc \<in> set (po_restarts p)" "restart_ref pc = Some (i, s)" for pc i s
    using assms(2,6) that by (force simp: refs_ok_def)
  ultimately show ?thesis using assms(1,3,4,5) unfolding placed_def starting_def by auto
qed

text \<open>Another record for a restart: it waits for nothing, or for a slot that is placed.\<close>

lemma placed_restarts:
  assumes "placed p"
    "\<And>pc. pc \<in> set xs \<Longrightarrow> pc \<in> set (po_restarts p) \<or> restart_ref pc = None \<or>
       (\<exists>i s. restart_ref pc = Some (i, s) \<and> so_index (po_heap p ! s) = i \<and> i < length (po_slots p))"
  shows "placed (p\<lparr>po_restarts := xs\<rparr>)"
proof -
  have "po_starts p = [] \<Longrightarrow> pc \<in> set xs \<Longrightarrow> restart_ref pc = None" for pc
    using assms(1) assms(2) [of pc] by (auto simp: placed_def)
  moreover have "so_index (po_heap p ! s) = i \<and> (starting p \<longrightarrow> i < length (po_slots p))"
    if "pc \<in> set xs" "restart_ref pc = Some (i, s)" for pc i s
    using assms(1) assms(2) [OF that(1)] that(2) by (auto simp: placed_def)
  ultimately show ?thesis using assms(1) by (simp add: placed_def aligned_def starting_def)
qed

lemma placed_restart_add:
  assumes "placed p" "restart_ref pc = None \<or>
      (\<exists>i s. restart_ref pc = Some (i, s) \<and> so_index (po_heap p ! s) = i \<and> i < length (po_slots p))"
  shows "placed (p\<lparr>po_restarts := po_restarts p @ [pc]\<rparr>)"
  by (rule placed_restarts [OF assms(1)]) (use assms(2) in auto)

lemma placed_set_restart:
  assumes "placed p" "restart_ref pc = None \<or> k < length (po_restarts p) \<and> restart_ref pc = restart_ref (po_restarts p ! k)"
  shows "placed (set_restart k pc p)"
proof (cases "restart_ref pc = None")
  case True
  with assms(1) show ?thesis
    unfolding set_restart_def by (intro placed_restarts) (auto dest!: set_update_subset_insert [THEN subsetD])
next
  case False
  have sub: "map restart_ref ((po_restarts p)[k := pc]) = map restart_ref (po_restarts p)"
    using assms(2) False by (simp add: map_update list_update_same_conv)
  have "restart_ref ` set ((po_restarts p)[k := pc]) = restart_ref ` set (po_restarts p)"
    using arg_cong [OF sub, of set] by simp
  then have "(\<forall>pc' \<in> set ((po_restarts p)[k := pc]). P (restart_ref pc')) = (\<forall>pc' \<in> set (po_restarts p). P (restart_ref pc'))" for P
    by (metis (no_types, lifting) imageE image_eqI)
  from this [of "\<lambda>r. r = None"] this [of "\<lambda>r. \<forall>i s. r = Some (i, s) \<longrightarrow> so_index (po_heap p ! s) = i \<and> (starting p \<longrightarrow> i < length (po_slots p))"]
    assms(1)
  show ?thesis by (simp add: placed_def set_restart_def aligned_def starting_def)
qed

lemma placed_restartSlot:
  assumes "placed p" "refs_ok p"
  shows "placed (restartSlot i prewarm p)"
proof -
  have fin: "placed (p\<lparr>po_restarts := po_restarts p @ [RsDone r]\<rparr>)" for r
    using assms(1) by (intro placed_restarts) auto
  have "placed ((set_busy s True p)\<lparr>po_heap := po_heap (set_busy s True p) @ [\<lparr>so_index = i, so_busy = False\<rparr>],
      po_restarts := po_restarts p @ [RsDispose i (length (po_heap p)) prewarm]\<rparr>)" if "slot_at (po_slots p) i = Some s" for s
  proof -
    let ?p = "(set_busy s True p)\<lparr>po_heap := po_heap (set_busy s True p) @ [\<lparr>so_index = i, so_busy = False\<rparr>]\<rparr>"
    have pl: "placed ?p" by (rule placed_grow [OF assms]) (simp_all add: nth_append)
    have "i < length (po_slots ?p)" using that by (simp add: slot_at_def split: if_splits)
    moreover have "so_index (po_heap ?p ! length (po_heap p)) = i" by (simp add: nth_append)
    ultimately show ?thesis
      using placed_restart_add [OF pl, of "RsDispose i (length (po_heap p)) prewarm"] by simp
  qed
  with fin show ?thesis
    by (auto simp: restartSlot_def createSlot_def Let_def split: sum.splits option.splits)
qed

lemma placed_drain_restart:
  assumes "placed q" "queue_ok q" "drainQueue opts rd q = (e, p1)"
  shows "placed (set_restart k (RsDone r) p1)"
proof -
  have "run_moves opts q p1" using drainQueue_moves [OF assms(2), of opts rd] assms(3) by simp
  with assms(1) show ?thesis by (intro placed_set_restart) (simp_all add: placed_moves)
qed

lemma placed_restart_done:
  assumes "placed p" "queue_ok p" "k < length (po_restarts p)" "restart_ref (po_restarts p ! k) = Some (i, next)"
  shows "placed (restart_done opts rd k i next p)"
proof -
  have "placed (p\<lparr>po_slots := slots_put i next (po_slots p), po_restarted := po_restarted p + 1\<rparr>)"
    by (rule placed_put [OF assms(1,3,4)])
  from placed_drain_restart [OF this] assms(2) show ?thesis
    by (auto simp: restart_done_def queue_ok_def split: prod.splits option.splits)
qed

lemma placed_restart_resume:
  assumes "placed p" "queue_ok p" "k < length (po_restarts p)"
  shows "placed (restart_resume opts rd k (Inr ()) p)"
proof (cases "po_restarts p ! k")
  case (RsCleanup i err)
  have "placed (set_restart k (RsDone (Inl err)) (rejectQueued err p))"
    using assms(1,2) rejectQueued_moves [OF assms(2), of undefined err] by (intro placed_set_restart) (simp_all add: placed_moves)
  with RsCleanup placed_drain_restart [OF assms(1,2)] show ?thesis
    by (auto simp: restart_resume_def split: prod.splits option.splits)
qed (use assms in \<open>auto simp: restart_resume_def intro!: placed_set_restart placed_restart_done\<close>)

lemma placed_idle:
  "\<lbrakk>placed p; po_slots p' = po_slots p; po_starts p' = po_starts p; po_restarts p' = po_restarts p; po_heap p' = po_heap p\<rbrakk> \<Longrightarrow> placed p'"
  by (simp add: placed_cong [of p' p])

lemma placed_pool_start:
  assumes "placed p" "po_starts p = []"
  shows "placed (pool_start p)"
  using assms by (auto simp: pool_start_def createSlot_def Let_def placed_def aligned_def starting_def)

text \<open>With no slot in the array and no start under way there is nothing to misplace.\<close>

lemma placed_empty:
  assumes "placed p" "length (po_starts p') \<le> 1" "po_starts p' \<noteq> [] \<or> po_starts p = []" "\<forall>pc \<in> set (po_starts p'). start_ref pc = None"
    "po_slots p' = []" "po_restarts p' = po_restarts p" "po_heap p' = po_heap p"
  shows "placed p'"
proof -
  have "\<not> starting p'" using assms(4) by (auto simp: starting_def)
  moreover have "StWorker i s \<notin> set (po_starts p')" for i s using assms(4) by force
  ultimately show ?thesis
    using assms(1,2,3,5,6,7) unfolding placed_def by (auto simp: aligned_def)
qed

lemma starts_single:
  assumes "placed p" "k < length (po_starts p)"
  obtains pc where "po_starts p = [pc]" "k = 0"
proof -
  have "length (po_starts p) = 1" "k = 0" using assms by (auto simp: placed_def)
  then show ?thesis using that by (auto simp: length_Suc_conv)
qed

lemma placed_push:
  assumes "placed q" "po_starts q = [StWorker i s]"
    "start_ref pc = None \<or> (\<exists>t. pc = StWorker (i + 1) t \<and> so_index (po_heap q ! t) = i + 1)"
  shows "placed (q\<lparr>po_slots := po_slots q @ [Some s], po_starts := [pc], po_state := st\<rparr>)"
proof -
  have st: "starting q" using assms(2) by (simp add: starting_def)
  have i: "length (po_slots q) = i" "so_index (po_heap q ! s) = i" using assms(1,2) by (auto simp: placed_def)
  then have "aligned (q\<lparr>po_slots := po_slots q @ [Some s], po_starts := [pc], po_state := st\<rparr>)"
    using assms(1) by (auto simp: placed_def aligned_def nth_append less_Suc_eq)
  moreover have "\<forall>pc \<in> set (po_restarts q). \<forall>j t. restart_ref pc = Some (j, t) \<longrightarrow> so_index (po_heap q ! t) = j \<and> j < length (po_slots q)"
    using assms(1) st by (simp add: placed_def)
  ultimately show ?thesis using i assms(3) unfolding placed_def by fastforce
qed

lemma placed_start_resume:
  assumes "placed p" "refs_ok p" "k < length (po_starts p)"
  shows "placed (start_resume opts k result p)"
proof -
  obtain pc where pc: "po_starts p = [pc]" "k = 0" by (rule starts_single [OF assms(1,3)])
  have catch: "placed (start_catch 0 e p)" for e
    using pc assms(1) by (intro placed_empty [OF assms(1)]) (auto simp: start_catch_def set_start_def)
  have over: "placed (p\<lparr>po_state := st, po_starts := [pc']\<rparr>)" if "start_ref pc' = None" for pc' st
    using assms(1) pc that by (cases pc') (auto simp: placed_def aligned_def starting_def)
  have stays: "placed (p\<lparr>po_starts := [pc']\<rparr>)" if "start_ref pc' = None" for pc'
    using over [OF that, of "po_state p"] by simp
  show ?thesis
  proof (cases pc)
    case (StWorker i s)
    let ?q = "p\<lparr>po_heap := po_heap p @ [\<lparr>so_index = i + 1, so_busy = False\<rparr>]\<rparr>"
    have fin: "placed (p\<lparr>po_slots := po_slots p @ [Some s], po_state := st, po_starts := [pc']\<rparr>)" if "start_ref pc' = None" for pc' st
      using that pc StWorker by (intro placed_idle [OF placed_push [OF assms(1), of i s pc' st]]) auto
    have "placed ?q" by (rule placed_grow [OF assms(1,2)]) (simp_all add: nth_append)
    then have "placed (?q\<lparr>po_slots := po_slots ?q @ [Some s], po_starts := [StWorker (i + 1) (length (po_heap p))], po_state := po_state p\<rparr>)"
      using pc StWorker by (intro placed_push) (auto simp: nth_append)
    then have "placed (p\<lparr>po_slots := po_slots p @ [Some s], po_heap := po_heap p @ [\<lparr>so_index = i + 1, so_busy = False\<rparr>],
        po_starts := [StWorker (i + 1) (length (po_heap p))]\<rparr>)" by (rule placed_idle) simp_all
    with fin pc StWorker catch stays show ?thesis
      by (auto simp: start_resume_def set_start_def createSlot_def Let_def split: sum.splits)
  qed (use assms(1) pc catch over stays in \<open>auto simp: start_resume_def set_start_def split: sum.splits\<close>)
qed

lemma placed_dispose:
  assumes "placed p" "queue_ok p" "list_all (\<lambda>pc. start_ref pc = None) (po_starts p)"
  shows "placed (dispose_check k deadline now p)"
proof -
  have "placed (set_dispose k DsClosing ((rejectQueued err p)\<lparr>po_slots := []\<rparr>))" for err
  proof (rule placed_empty [where p = "rejectQueued err p"])
    have m: "run_moves undefined p (rejectQueued err p)" by (rule rejectQueued_moves [OF assms(2)])
    then show "placed (rejectQueued err p)" using assms(1) by (simp add: placed_moves)
    then show "length (po_starts (set_dispose k DsClosing ((rejectQueued err p)\<lparr>po_slots := []\<rparr>))) \<le> 1"
      by (simp add: set_dispose_def placed_def)
    show "\<forall>pc \<in> set (po_starts (set_dispose k DsClosing ((rejectQueued err p)\<lparr>po_slots := []\<rparr>))). start_ref pc = None"
      using assms(3) run_moves_slots(2) [OF m] by (simp add: set_dispose_def list_all_iff)
  qed (simp_all add: set_dispose_def)
  with assms(1) show ?thesis by (simp add: dispose_check_def)
qed

lemma placed_step:
  assumes "placed p" "pool_inv opts p" "orderly_event p e"
  shows "placed (pool_step opts e p)"
proof -
  have q: "queue_ok p" "keys_ok p" "refs_ok p" using assms(2) by (auto simp: pool_inv_def pool_ok_def)
  have moved: "placed p'" if "run_moves opts p p'" for p' using assms(1) that by (simp add: placed_moves)
  show ?thesis
  proof (cases e)
    case (PvRestarted k rd result)
    with assms(3) have "result = Inr ()" by (cases result) auto
    with PvRestarted assms(1) q show ?thesis by (simp add: placed_restart_resume)
  next
    case (PvDispose now now')
    have "placed (dispose_check k d now' ((clearCooldownDrainTimer (p\<lparr>po_state := PsDraining\<rparr>))\<lparr>po_disposals := ds\<rparr>))" for k d ds
      using assms(1,3) q PvDispose
      by (intro placed_dispose) (auto simp: clearCooldownDrainTimer_def queue_ok_def intro: placed_idle)
    moreover have "placed (p\<lparr>po_disposals := ds\<rparr>)" for ds using assms(1) by (rule placed_idle) simp_all
    ultimately show ?thesis using PvDispose by (simp add: pool_dispose_def Let_def clearCooldownDrainTimer_def)
  next
    case (PvDisposed k now result)
    have "placed (p\<lparr>po_disposals := ds, po_state := st\<rparr>)" for ds st using assms(1) by (rule placed_idle) simp_all
    moreover have "placed (p\<lparr>po_state := st, po_disposals := ds\<rparr>)" for ds st using assms(1) by (rule placed_idle) simp_all
    moreover have "placed (p\<lparr>po_disposals := ds\<rparr>)" for ds using assms(1) by (rule placed_idle) simp_all
    moreover have "placed (dispose_check k d now p)" for d using assms(1,3) q PvDisposed by (intro placed_dispose) auto
    ultimately show ?thesis using PvDisposed assms(1) by (auto simp: dispose_resume_def set_dispose_def split: dispose_pc.splits sum.splits)
  qed (use assms q moved in \<open>auto intro: placed_restartSlot placed_pool_start placed_start_resume pool_run_call_moves run_abort_moves
      run_counted_moves run_finally_moves run_resume_moves run_follow_moves run_cleanup_moves pool_timer_moves prewarm_moves\<close>)
qed

lemma exclusive_slot_move: "slot_move p p' \<Longrightarrow> runs_ok opts p \<Longrightarrow> exclusive p \<Longrightarrow> exclusive p'"
  unfolding slot_move_def exclusive_def runs_ok_def run_ok_def by auto

lemma aligned_slot_move:
  assumes "slot_move p q" "po_slots q = po_slots p" "slots_ok p"
  shows "aligned q = aligned p"
proof -
  have "so_index (po_heap q ! s) = so_index (po_heap p ! s)" if "k < length (po_slots p)" "po_slots p ! k = Some s" for k s
  proof -
    have "Some s \<in> set (po_slots p)" using that by (metis nth_mem)
    with assms(1,3) show ?thesis by (simp add: slot_move_def slots_ok_def)
  qed
  with assms(2) show ?thesis by (auto simp: aligned_def)
qed

lemma exclusive_shape:
  assumes "step_shape opts p p'" "pool_inv opts p" "exclusive p" "aligned p" "aligned p'"
  shows "exclusive p'"
proof -
  from assms(1) obtain q q' where m: "slot_move p q" "run_moves opts q q'" "slot_move q' p'"
    and same: "po_slots q = po_slots p \<or> po_slots p' = po_slots q'"
    by (auto simp: step_shape_def)
  have inv: "pool_inv opts q" "pool_inv opts q'"
    using m assms(2) by (auto intro: pool_inv_slot_move pool_inv_moves)
  then have ok: "slots_ok p" "slots_ok q'" "runs_ok opts p" "runs_ok opts q'" "pool_ok opts q"
    using assms(2) by (auto simp: pool_inv_def pool_ok_def)
  have "aligned q"
    using same aligned_slot_move [OF m(1) _ ok(1)] aligned_slot_move [OF m(3) _ ok(2)] run_moves_aligned [OF m(2)] assms(4,5)
    by auto
  moreover have "exclusive q" by (rule exclusive_slot_move [OF m(1) ok(3) assms(3)])
  ultimately have "exclusive q'" using m(2) ok(5) by (auto intro: exclusive_moves)
  then show ?thesis by (rule exclusive_slot_move [OF m(3) ok(4)])
qed

lemma orderly_steps:
  "\<lbrakk>orderly opts es p; pool_inv opts p; placed p; exclusive p\<rbrakk> \<Longrightarrow> placed (pool_steps opts es p) \<and> exclusive (pool_steps opts es p)"
proof (induction es arbitrary: p)
  case (Cons e es)
  let ?p = "pool_step opts e p"
  have "placed ?p" using Cons.prems by (auto intro: placed_step)
  moreover have "exclusive ?p"
    using Cons.prems \<open>placed ?p\<close>
    by (intro exclusive_shape [OF pool_step_shape]) (auto simp: pool_inv_def pool_ok_def placed_def)
  ultimately show ?case using Cons by (auto simp: pool_inv_step)
qed simp

lemma pool_new_placed: "pool_new opts = Inr p \<Longrightarrow> placed p \<and> exclusive p"
  by (auto simp: pool_new_def placed_def aligned_def exclusive_def split: if_splits)

definition slots_in_use :: "('j, 'r, 'e) pool \<Rightarrow> nat list" where
  "slots_in_use p = List.map_filter (\<lambda>r. on_slot (ru_pc r)) (po_runs p)"

lemma distinct_map_filter:
  "(\<And>i j s. i < length xs \<Longrightarrow> j < length xs \<Longrightarrow> f (xs ! i) = Some s \<Longrightarrow> f (xs ! j) = Some s \<Longrightarrow> i = j) \<Longrightarrow>
   distinct (List.map_filter f xs)"
proof (induction xs)
  case (Cons x xs)
  have "i = j" if "i < length xs" "j < length xs" "f (xs ! i) = Some s" "f (xs ! j) = Some s" for i j s
    using Cons.prems [of "Suc i" "Suc j" s] that by simp
  then have "distinct (List.map_filter f xs)" by (rule Cons.IH)
  moreover have "y \<notin> set (List.map_filter f xs)" if "f x = Some y" for y
    using Cons.prems [of 0 "Suc j" y for j] that by (auto simp: List.map_filter_def in_set_conv_nth)
  ultimately show ?case by (simp add: List.map_filter_simps split: option.split)
qed (simp add: List.map_filter_simps)

lemma length_slots_in_use: "length (slots_in_use p) = length (filter in_flight (po_runs p))"
  by (simp add: slots_in_use_def List.map_filter_def in_flight_def [abs_def])

section \<open>Properties\<close>

text \<open>A pool of two slots, started, and runs for it.\<close>

definition demo_pool_options :: "nat pool_options" where
  "demo_pool_options = \<lparr>px_poolId = ''p'', px_slots = Fin 2, px_slotSelector = None, px_retryPolicy = None, px_maxQueueSize = Some (Fin 1),
     px_shutdownTimeoutMs = None, px_prewarmOnStart = False, px_localeLe = (\<lambda>a b. True)\<rparr>"

definition demo_view :: pool_reading where
  "demo_view = \<lparr>pv_now = Instant 0, pv_capacity = (\<lambda>s. None)\<rparr>"

definition demo_run :: "nat \<Rightarrow> nat run_request" where
  "demo_run j = \<lparr>rr_job = j, rr_idempotencyKey = Some ''k'', rr_signal = False, rr_aborted = False, rr_retryPolicy = None\<rparr>"

definition demo_job :: "nat \<Rightarrow> nat run_request" where
  "demo_job j = (demo_run j)\<lparr>rr_idempotencyKey := None\<rparr>"

definition demo_started :: "(nat, nat, nat) pool_event list" where
  "demo_started = [PvStart, PvStarted 0 (Inr ()), PvStarted 0 (Inr ())]"

definition demo_pool :: "(nat, nat, nat) pool" where
  "demo_pool = \<lparr>po_heap = [], po_slots = [], po_queue = [], po_state = PsCreated, po_completed = 0, po_failed = 0,
     po_restarted = 0, po_inFlight = 0, po_cooldownDrainAt = None, po_cooldownDrainTimer = False,
     po_idempotentRuns = [], po_runs = [], po_starts = [], po_restarts = [], po_prewarms = [], po_disposals = []\<rparr>"

lemma demo_pool_new: "pool_new demo_pool_options = Inr demo_pool"
  by (simp add: pool_new_def demo_pool_options_def demo_pool_def js_trim_def js_ws_def)

definition demo_ready :: "(nat, nat, nat) pool" where
  "demo_ready = demo_pool\<lparr>po_heap := [\<lparr>so_index = 0, so_busy = False\<rparr>, \<lparr>so_index = 1, so_busy = False\<rparr>], po_slots := [Some 0, Some 1],
     po_state := PsStarted, po_starts := [StDone (Inr ())]\<rparr>"

lemmas demo_pool_defs = demo_pool_options_def demo_view_def demo_run_def demo_job_def demo_started_def demo_pool_def demo_ready_def

lemma demo_started_ready:
  "pool_steps demo_pool_options demo_started demo_pool = demo_ready" "orderly demo_pool_options demo_started demo_pool"
  by (simp_all add: demo_pool_defs pool_start_def createSlot_def start_resume_def set_start_def)

text \<open>
  C25. In every orderly history no two runs in flight share a slot, every slot in use is marked busy,
  and the pool's counter of runs in flight is the number of slots in use.
\<close>

theorem pool_slots_exclusive:
  assumes "pool_new opts = Inr p0" "orderly opts es p0" "p = pool_steps opts es p0"
  shows "distinct (slots_in_use p) \<and> list_all (\<lambda>s. so_busy (po_heap p ! s)) (slots_in_use p) \<and>
    po_inFlight p = int (length (slots_in_use p))"
proof -
  have "pool_inv opts p0" "placed p0" "exclusive p0" using assms(1) pool_inv_new pool_new_placed by auto
  then have ex: "exclusive p" and "counts_ok p"
    using orderly_steps [OF assms(2)] pool_inv_steps [of opts p0 es] assms(3) by (auto simp: pool_inv_def pool_ok_def)
  moreover have "distinct (slots_in_use p)"
    unfolding slots_in_use_def using ex by (intro distinct_map_filter) (auto simp: exclusive_def)
  moreover have "list_all (\<lambda>s. so_busy (po_heap p ! s)) (slots_in_use p)"
    using ex by (auto simp: slots_in_use_def List.map_filter_def list_all_iff in_set_conv_nth exclusive_def)
  ultimately show ?thesis by (simp add: counts_ok_def length_slots_in_use)
qed

lemma demo_two_runs:
  "orderly demo_pool_options (demo_started @ [PvRun demo_view (demo_job 7), PvRun demo_view (demo_job 8)]) demo_pool"
  "slots_in_use (pool_steps demo_pool_options (demo_started @ [PvRun demo_view (demo_job 7), PvRun demo_view (demo_job 8)]) demo_pool) = [0, 1]"
  by code_simp+

theorem pool_slots_exclusive_witness:
  "let p = pool_steps demo_pool_options (demo_started @ [PvRun demo_view (demo_job 7), PvRun demo_view (demo_job 8)]) demo_pool in
   slots_in_use p = [0, 1] \<and> distinct (slots_in_use p) \<and> po_inFlight p = int (length (slots_in_use p))"
  using pool_slots_exclusive [OF demo_pool_new demo_two_runs(1) refl] demo_two_runs(2) by (simp only: Let_def simp_thms)

lemma rejectQueued_fields [simp]:
  "po_queue (rejectQueued err p) = []" "po_slots (rejectQueued err p) = po_slots p" "po_heap (rejectQueued err p) = po_heap p"
  "po_state (rejectQueued err p) = po_state p"
proof -
  have "po_queue (fold (\<lambda>i. end_run i out) q p) = po_queue p \<and> po_slots (fold (\<lambda>i. end_run i out) q p) = po_slots p \<and>
      po_heap (fold (\<lambda>i. end_run i out) q p) = po_heap p \<and> po_state (fold (\<lambda>i. end_run i out) q p) = po_state p"
    for q and p :: "('a, 'b, 'c) pool" and out
    by (induction q arbitrary: p) simp_all
  then show "po_queue (rejectQueued err p) = []" "po_slots (rejectQueued err p) = po_slots p" "po_heap (rejectQueued err p) = po_heap p"
    "po_state (rejectQueued err p) = po_state p"
    by (simp_all add: rejectQueued_def)
qed

lemma snapshot_cong: "po_heap p' = po_heap p \<Longrightarrow> slot_snapshot_of opts rd p' s = slot_snapshot_of opts rd p s"
  by (simp add: slot_snapshot_of_def slotCapacity_def)

lemma runOnSlot_slots [simp]: "po_slots (runOnSlot i s a p) = po_slots p" "po_queue (runOnSlot i s a p) = po_queue p"
  by (simp_all add: runOnSlot_def)

lemma runOnSlot_aligned: "aligned (runOnSlot i s a p) = aligned p"
  by (rule aligned_cong) (simp_all add: runOnSlot_def)

definition none_free :: "'j pool_options \<Rightarrow> pool_reading \<Rightarrow> ('j, 'r, 'e) pool \<Rightarrow> bool" where
  "none_free opts rd p = (\<forall>s. Some s \<in> set (po_slots p) \<longrightarrow> so_busy (po_heap p ! s) \<or> \<not> runnableWorkerCapacity (slot_snapshot_of opts rd p s))"

lemma drain_conserving:
  "\<lbrakk>aligned p; po_queue p = q; drain_loop opts rd q p = (None, p')\<rbrakk> \<Longrightarrow>
   (\<exists>k. po_queue p' = drop k q) \<and> (po_queue p' = [] \<or> none_free opts rd p')"
proof (induction q arbitrary: p)
  case (Cons i q)
  obtain so sns where sel: "selectAvailableSlot opts rd (ru_job (po_runs p ! i)) p = Inr (so, sns)"
    using Cons.prems(3) by (auto split: sum.splits)
  have rest: ?case if "drain_loop opts rd q p1 = (None, p')" "po_queue p1 = q" "aligned p1" for p1
    using Cons.IH [OF that(3,2,1)] by (metis drop_Suc_Cons)
  show ?case
  proof (cases so)
    case None
    let ?p1 = "scheduleCapacityDrain rd sns (retryPolicy (ru_policy (po_runs p ! i)) (px_retryPolicy opts)) p"
    have "none_free opts rd ?p1"
      using selectAvailableSlot_none [OF sel [unfolded None] Cons.prems(1)] by (simp add: none_free_def snapshot_cong [of ?p1 p])
    moreover have "p' = ?p1 \<or> (\<exists>e. p' = rejectQueued e ?p1)"
      using Cons.prems(3) sel None by (auto simp: Let_def split: option.splits)
    moreover have "po_queue ?p1 = drop 0 (i # q)" "[] = drop (length (i # q)) (i # q)" using Cons.prems(2) by simp_all
    ultimately show ?thesis by (metis rejectQueued_fields(1))
  next
    case (Some s)
    have "aligned (p\<lparr>po_queue := q\<rparr>)" using Cons.prems(1) by (simp add: aligned_def)
    then have "aligned (runOnSlot i s 1 (p\<lparr>po_queue := q\<rparr>))" "aligned (end_run i out (p\<lparr>po_queue := q\<rparr>))" for out
      by (simp add: runOnSlot_aligned, simp add: aligned_def)
    with Some sel Cons.prems(3) rest [of "runOnSlot i s 1 (p\<lparr>po_queue := q\<rparr>)"] rest [of "end_run i (Inl runAbortedError) (p\<lparr>po_queue := q\<rparr>)"]
    show ?thesis by (auto simp: Let_def split: if_splits)
  qed
qed simp


lemma demo_queued_run:
  "let p = pool_steps demo_pool_options (demo_started @ map (\<lambda>j. PvRun demo_view (demo_job j)) [7, 8, 9]) demo_pool in
   orderly demo_pool_options (demo_started @ map (\<lambda>j. PvRun demo_view (demo_job j)) [7, 8, 9]) demo_pool \<and>
   po_queue p = [2] \<and> po_state p = PsStarted \<and> fst (drainQueue demo_pool_options demo_view p) = None \<and>
   po_queue (snd (drainQueue demo_pool_options demo_view p)) = [2]"
  by code_simp


text \<open>
  C29. In every history the queue of the pool holds exactly the runs that wait for a slot, each of
  them once, and never more than its limit.
\<close>

theorem pool_queue_exact:
  assumes "pool_new opts = Inr p0" "p = pool_steps opts es p0"
  shows "distinct (po_queue p) \<and> set (po_queue p) = {i. i < length (po_runs p) \<and> ru_pc (po_runs p ! i) = RunQueued} \<and>
    (queue_limit opts = Fin (of_nat n) \<longrightarrow> length (po_queue p) \<le> n)"
  using pool_inv_steps [OF pool_inv_new [OF assms(1)], of es] assms(2)
  by (simp add: pool_inv_def pool_ok_def queue_ok_def bounded_def)

theorem pool_queue_exact_witness:
  "let p = pool_steps demo_pool_options (demo_started @ map (\<lambda>j. PvRun demo_view (demo_job j)) [7, 8, 9]) demo_pool in
   po_queue p = [2] \<and> length (po_queue p) \<le> 1"
  using pool_queue_exact [OF demo_pool_new refl, of "demo_started @ map (\<lambda>j. PvRun demo_view (demo_job j)) [7, 8, 9]" 1] demo_queued_run
  by (simp add: Let_def queue_limit_def demo_pool_options_def)

lemma keeps_runs_steps: "pool_inv opts p \<Longrightarrow> keeps_runs p (pool_steps opts es p)"
proof (induction es arbitrary: p)
  case (Cons e es)
  have "queue_ok p" "keys_ok p" using Cons.prems by (auto simp: pool_inv_def pool_ok_def)
  then have "keeps_runs p (pool_step opts e p)"
    using pool_step_shape [of p opts e] unfolding step_shape_def
    by (metis (no_types, lifting) keeps_runs_def keeps_runs_moves slot_move_def)
  with Cons show ?case by (auto intro: keeps_runs_trans simp: pool_inv_step)
qed simp


definition demo_done :: "(nat, nat, nat) pool_event list" where
  "demo_done = demo_started @ [PvRun demo_view (demo_job 7), PvWorker 0 (Inr 5), PvFinally 0 demo_view, PvResume 0 demo_view]"

lemma demo_done_outcome:
  "0 < length (po_runs (pool_steps demo_pool_options demo_done demo_pool))"
  "ru_outcome (po_runs (pool_steps demo_pool_options demo_done demo_pool) ! 0) = Some (Inr 5)"
proof -
  have "case po_runs (pool_steps demo_pool_options demo_done demo_pool) of [] \<Rightarrow> False
      | r # rs \<Rightarrow> (case ru_outcome r of Some (Inr n) \<Rightarrow> n = 5 | _ \<Rightarrow> False)"
    by code_simp
  then show "0 < length (po_runs (pool_steps demo_pool_options demo_done demo_pool))"
    "ru_outcome (po_runs (pool_steps demo_pool_options demo_done demo_pool) ! 0) = Some (Inr 5)"
    by (auto split: list.splits option.splits sum.splits)
qed


text \<open>
  C30. In every history a run makes at most as many attempts as its retry policy allows, the policy of
  the run before that of the pool.
\<close>

theorem pool_attempts_bounded:
  assumes "pool_new opts = Inr p0" "p = pool_steps opts es p0" "i < length (po_runs p)"
    "attempt_of (ru_pc (po_runs p ! i)) = Some a"
    "rq_maxAttempts (retryPolicy (ru_policy (po_runs p ! i)) (px_retryPolicy opts)) = Fin (of_nat n)"
  shows "1 \<le> a \<and> a \<le> n"
proof -
  have "runs_ok opts p"
    using pool_inv_steps [OF pool_inv_new [OF assms(1)]] assms(2) by (simp add: pool_inv_def pool_ok_def)
  then have "attempt_allowed opts (po_runs p ! i) a" using assms(3,4) by (simp add: runs_ok_def run_ok_def)
  moreover have "1 \<le> n"
    using assms(5) by (cases "policy_field pp_maxAttempts (ru_policy (po_runs p ! i)) (px_retryPolicy opts) (Fin 1)")
      (auto simp: retryPolicy_def max_def js_max_def split: if_splits)
  ultimately show ?thesis using assms(5) by (auto simp: attempt_allowed_def)
qed

definition demo_retry_options :: "nat pool_options" where
  "demo_retry_options = demo_pool_options\<lparr>px_retryPolicy := Some \<lparr>pp_maxAttempts = Some (Fin 2),
     pp_retryOnSlotCapacityUnavailable = Some True, pp_capacityPollMs = None\<rparr>\<rparr>"

definition demo_limited :: pool_reading where
  "demo_limited = demo_view\<lparr>pv_capacity := (\<lambda>s. if s = 0 then Some (available_capacity\<lparr>ca_availability := QuotaExhausted\<rparr>, False) else None)\<rparr>"

definition demo_retried :: "(nat, nat, nat) pool_event list" where
  "demo_retried = demo_started @ [PvRun demo_view (demo_job 7), PvWorker 0 (Inl 3), PvFinally 0 demo_limited, PvResume 0 demo_limited]"

lemma demo_attempt:
  "pool_new demo_retry_options = Inr demo_pool"
  "0 < length (po_runs (pool_steps demo_retry_options demo_retried demo_pool))"
  "attempt_of (ru_pc (po_runs (pool_steps demo_retry_options demo_retried demo_pool) ! 0)) = Some 2"
  "rq_maxAttempts (retryPolicy (ru_policy (po_runs (pool_steps demo_retry_options demo_retried demo_pool) ! 0)) (px_retryPolicy demo_retry_options))
   = Fin (of_nat 2)"
  subgoal by (simp add: pool_new_def demo_retry_options_def demo_pool_options_def demo_pool_def js_trim_def js_ws_def)
  by code_simp+

theorem pool_attempts_bounded_witness:
  "\<exists>a. attempt_of (ru_pc (po_runs (pool_steps demo_retry_options demo_retried demo_pool) ! 0)) = Some a \<and> a \<le> 2"
  using pool_attempts_bounded [OF demo_attempt(1) refl demo_attempt(2,3,4)] demo_attempt(3) by blast

section \<open>Runs that share a key\<close>

definition key_held :: "string \<Rightarrow> nat \<Rightarrow> ('j, 'r, 'e) pool \<Rightarrow> bool" where
  "key_held key i p = (i < length (po_runs p) \<and> (map_of (po_idempotentRuns p) key = Some i \<or> ru_outcome (po_runs p ! i) \<noteq> None))"

lemma key_held_move: "run_move opts p p' \<Longrightarrow> key_held key i p \<Longrightarrow> key_held key i p'"
proof -
  assume m: "run_move opts p p'" and k: "key_held key i p"
  have "keeps_runs p p'" by (rule keeps_runs_move [OF m])
  then have o: "i < length (po_runs p')" "ru_outcome (po_runs p ! i) \<noteq> None \<Longrightarrow> ru_outcome (po_runs p' ! i) \<noteq> None"
    using k by (auto simp: keeps_runs_def kept_def key_held_def)
  have "map_of (po_idempotentRuns p') key = Some i \<or> ru_outcome (po_runs p' ! i) \<noteq> None"
    if "map_of (po_idempotentRuns p) key = Some i"
    using m that by (induction rule: run_move.induct) (auto simp: map_of_AList_update map_of_AList_delete)
  with k o show "key_held key i p'" by (auto simp: key_held_def)
qed

lemma key_held_moves: "run_moves opts p p' \<Longrightarrow> key_held key i p \<Longrightarrow> key_held key i p'"
  by (induction rule: rtranclp_induct) (auto intro: key_held_move)

lemma key_held_slot_move: "slot_move p p' \<Longrightarrow> key_held key i p = key_held key i p'"
  by (simp add: slot_move_def key_held_def)

lemma key_held_steps: "pool_inv opts p \<Longrightarrow> key_held key i p \<Longrightarrow> key_held key i (pool_steps opts es p)"
proof (induction es arbitrary: p)
  case (Cons e es)
  have "queue_ok p" "keys_ok p" using Cons.prems by (auto simp: pool_inv_def pool_ok_def)
  from pool_step_shape [OF this, of opts e] Cons.prems(2) have "key_held key i (pool_step opts e p)"
    unfolding step_shape_def using key_held_moves key_held_slot_move by blast
  with Cons show ?case by (simp add: pool_inv_step)
qed simp


definition demo_shared :: "(nat, nat, nat) pool" where
  "demo_shared = snd (pool_run_call demo_pool_options demo_view (demo_run 7) demo_ready)"

lemma demo_keyed:
  "po_idempotentRuns demo_ready = []" "pool_assertRunnable demo_ready = Inr ()" "po_state demo_ready = PsStarted"
  "normalizeIdempotencyKey (Some ''k'') = Some ''k''" "normalizeIdempotencyKey (Some '' k'') = Some ''k''"
  "pool_run_call demo_pool_options demo_view (demo_run 7) demo_ready = (Inr 0, demo_shared)"
  "ru_outcome (po_runs demo_shared ! 0) = None" "po_slots demo_shared \<noteq> []" "po_state demo_shared = PsStarted" "length (po_runs demo_shared) = 1"
proof -
  have "case pool_run_call demo_pool_options demo_view (demo_run 7) demo_ready of (Inr n, q) \<Rightarrow> n = 0 | _ \<Rightarrow> False" by code_simp
  then show "pool_run_call demo_pool_options demo_view (demo_run 7) demo_ready = (Inr 0, demo_shared)"
    by (auto simp: demo_shared_def split: prod.splits sum.splits)
  have r: "case po_runs demo_shared of [r] \<Rightarrow> (case ru_outcome r of None \<Rightarrow> True | Some x \<Rightarrow> False) | _ \<Rightarrow> False" by code_simp
  then show "ru_outcome (po_runs demo_shared ! 0) = None" by (auto split: list.splits option.splits)
  from r show "length (po_runs demo_shared) = 1" by (auto split: list.splits)
  show "po_slots demo_shared \<noteq> []" "po_state demo_shared = PsStarted" by code_simp+
qed (simp_all add: demo_pool_defs pool_assertRunnable_def normalizeIdempotencyKey_def trimmed_def js_trim_def js_ws_def)


section \<open>Disposing\<close>

definition run_over :: "nat \<Rightarrow> ('j, 'r, 'e) pool \<Rightarrow> bool" where
  "run_over i p = (i < length (po_runs p) \<and> ru_pc (po_runs p ! i) = RunEnded \<and> ru_outcome (po_runs p ! i) \<noteq> None)"

lemma run_over_end: "run_over i p \<or> j = i \<and> i < length (po_runs p) \<Longrightarrow> run_over i (end_run j out p)"
  by (cases "j = i") (auto simp: run_over_def end_run_def settle_def nullish_def split: option.splits)

lemma run_over_fold: "run_over i p \<or> i \<in> set q \<and> i < length (po_runs p) \<Longrightarrow> run_over i (fold (\<lambda>j. end_run j out) q p)"
proof (induction q arbitrary: p)
  case (Cons j q)
  then have "run_over i (end_run j out p) \<or> i \<in> set q \<and> i < length (po_runs (end_run j out p))"
    using run_over_end [of i p j out] by auto
  from Cons.IH [OF this] show ?case by simp
qed simp

lemma rejectQueued_ends: "i \<in> set (po_queue p) \<Longrightarrow> i < length (po_runs p) \<Longrightarrow> run_over i (rejectQueued err p)"
  by (simp add: rejectQueued_def run_over_fold)


lemma demo_queued_state:
  "po_state (pool_steps demo_pool_options (demo_started @ map (\<lambda>j. PvRun demo_view (demo_job j)) [7, 8, 9]) demo_pool) \<noteq> PsDisposed"
  using demo_queued_run by (simp add: Let_def)


section \<open>After a failed restart\<close>

lemma misplaced_slot:
  assumes "po_slots p = [Some s]" "0 < so_index (po_heap p ! s)" "\<not> so_busy (po_heap p ! s)" "pv_capacity rd s = None" "px_slotSelector opts = None"
  shows "\<exists>sn. selectAvailableSlot opts rd job p = Inr (None, [sn]) \<and> sn_capacity sn = available_capacity \<and> \<not> sn_busy sn"
  using assms
  by (auto simp: selectAvailableSlot_def slotSnapshots_def List.map_filter_def slot_snapshot_of_def slotCapacity_def runnableWorkerCapacity_def
      available_capacity_def slot_at_def Let_def)

definition demo_broken :: "(nat, nat, nat) pool_event list" where
  "demo_broken = demo_started @ [PvRestart 0 False, PvRestarted 0 demo_view (Inl 3), PvRestarted 0 demo_view (Inr ()), PvRun demo_view (demo_job 7)]"



end
