(* ===== verification/Runtime_Policy.thy ===== *)
theory Runtime_Policy
  imports Prelude
begin

text \<open>
  The capability negotiation of the core, \<open>src/core/application/policy.ts\<close>, over the capability
  types of \<open>src/core/domain/types.ts\<close>: given what a provider, an agent, a runner and an optional
  session store can do and what the caller's policy asks, it rejects with a code or accepts with a
  compiled policy and an execution plan. The string unions the negotiation does not read are strings.
\<close>

section \<open>Definitions\<close>

datatype custody_mode = NoPlaintextBackend | BackendCustody | LocalOnly

datatype artifact_kind = JsonFile | EnvToken | DirectoryArtifact | OpaqueBytes

datatype session_requirement =
    SessionRequired "artifact_kind list" | SessionOptional "artifact_kind list" | SessionNone

datatype refresh_mode = RefreshNone | ValidateOnly | AlwaysBeforeRun | LazyRefresh

datatype rotation_mode = NeverRotates | MayRotate

datatype task_mode = Review | StructuredPrompt | HealthCheck

datatype history_mode = HistoryNone | HostManagedThread | ProviderThread | HistoryUnsupported

datatype setup_mode = ManualSecret | DeviceAuth | BrowserAuth | ApiKey | ImportLocalSession

record environment_policy =
  env_allowlist :: "string list"
  env_denylist :: "string list"
  env_credentialSourceOrder :: "string list"

record provider_capabilities =
  pc_providerId :: string
  pc_displayName :: string
  pc_sessionRequirement :: session_requirement
  pc_sessionArtifactKinds :: "artifact_kind list"
  pc_refreshMode :: refresh_mode
  pc_sessionRotationMode :: rotation_mode
  pc_environmentPolicy :: environment_policy
  pc_supportsRefresh :: bool
  pc_refreshMayRotateSession :: bool
  pc_supportsNonInteractiveRuntime :: bool
  pc_requiresNetwork :: bool
  pc_requiresWorkspace :: bool
  pc_supportsStructuredOutput :: bool
  pc_supportsReadOnlySandbox :: bool
  pc_defaultTimeoutMs :: jsnum
  pc_setupModes :: "setup_mode list"

record agent_capabilities =
  ac_agentId :: string
  ac_providerId :: string
  ac_taskModes :: "task_mode list"
  ac_historyMode :: history_mode
  ac_supportsReviewTasks :: bool
  ac_supportsStructuredOutput :: bool
  ac_supportsToolCalling :: bool
  ac_supportsRepositoryContext :: bool
  ac_supportsInlineFindings :: bool
  ac_requiresWritableWorkspace :: bool
  ac_maxPromptBytes :: "jsnum option"
  ac_maxRuntimeMs :: jsnum

record store_capabilities =
  sc_storeId :: string
  sc_custody :: custody_mode
  sc_supportsRead :: bool
  sc_supportsWriteback :: bool
  sc_supportsCompareAndSwap :: bool
  sc_supportsIdempotency :: bool
  sc_supportsDelete :: bool
  sc_supportsAuditLog :: bool
  sc_supportsMetadataOnlyHealthCheck :: bool
  sc_plaintextAvailableToBackend :: bool
  sc_maxArtifactBytes :: jsnum

record runner_capabilities =
  rc_runnerId :: string
  rc_supportsEnvAllowlist :: bool
  rc_supportsWorkingDirectory :: bool
  rc_supportsTimeout :: bool
  rc_supportsAbortSignal :: bool
  rc_supportsOutputRedaction :: bool
  rc_supportsReadOnlySandbox :: bool
  rc_readOnlyFilesystem :: bool
  rc_platform :: string

record refresh_policy =
  rf_minFreshMs :: "jsnum option"
  rf_refreshBeforeExpiryMs :: "jsnum option"
  rf_maxSessionAgeMs :: "jsnum option"

record runtime_policy =
  rtp_custodyMode :: custody_mode
  rtp_requireNoBackendPlaintext :: bool
  rtp_requireWritebackBeforeTask :: bool
  rtp_requireCompareAndSwap :: bool
  rtp_refreshPolicy :: "refresh_policy option"
  rtp_requestedTaskMode :: "task_mode option"
  rtp_requestedHistoryMode :: "history_mode option"
  rtp_allowInteractiveSetupInRuntime :: bool
  rtp_allowedProviderIds :: "string list"
  rtp_allowedAgentIds :: "string list"
  rtp_allowedStoreIds :: "string list"
  rtp_allowedRunnerIds :: "string list"
  rtp_maxTaskOutputBytes :: "jsnum option"

record compiled_policy =
  cp_trustMode :: custody_mode
  cp_providerId :: string
  cp_agentId :: string
  cp_storeId :: "string option"
  cp_runnerId :: string
  cp_requiresDurableWriteback :: bool
  cp_requiresLease :: bool
  cp_requiresCas :: bool
  cp_allowsInteractiveRuntime :: bool
  cp_maxSessionBytes :: jsnum
  cp_maxTaskOutputBytes :: jsnum
  cp_timeoutMs :: jsnum
  cp_minFreshMs :: jsnum
  cp_refreshBeforeExpiryMs :: jsnum
  cp_maxSessionAgeMs :: jsnum

datatype plan_kind = PlanNoSession | PlanStaticSession | PlanRotatingSession

datatype plan_refresh = PlanNever | PlanValidateOnly | PlanBeforeRun | PlanLazy

datatype plan_writeback = WritebackNever | WritebackBeforeTask | WritebackAfterRefresh

datatype plan_session = SessionAbsent | SessionStored | SessionRefreshed

record execution_plan =
  ep_kind :: plan_kind
  ep_readSession :: bool
  ep_acquireLease :: bool
  ep_refresh :: plan_refresh
  ep_writeback :: plan_writeback
  ep_sessionForAgent :: plan_session

datatype rejection_code =
    ProviderStoreIncompatible | RunnerProviderIncompatible | CustodyModeForbidden
  | InteractiveRuntimeForbidden | MissingRequiredCapability | TaskModeUnsupported
  | HistoryModeUnsupported | SessionStoreRequired

datatype capability_decision =
    Accepted compiled_policy execution_plan
  | Rejected rejection_code string "(string \<times> string) list"

definition providerMayRotateSession :: "provider_capabilities \<Rightarrow> bool" where
  "providerMayRotateSession p = (pc_sessionRotationMode p = MayRotate \<or> pc_refreshMayRotateSession p)"

definition or_default :: "'a option \<Rightarrow> 'a \<Rightarrow> 'a" where
  "or_default v d = (case v of None \<Rightarrow> d | Some x \<Rightarrow> x)"

definition compileRuntimePolicy ::
    "runtime_policy \<Rightarrow> provider_capabilities \<Rightarrow> agent_capabilities \<Rightarrow> store_capabilities option \<Rightarrow>
      runner_capabilities \<Rightarrow> compiled_policy" where
  "compileRuntimePolicy requested provider agent store runner =
     (let mayRotate = providerMayRotateSession provider in
      \<lparr>cp_trustMode = (case store of None \<Rightarrow> rtp_custodyMode requested | Some s \<Rightarrow> sc_custody s),
       cp_providerId = pc_providerId provider,
       cp_agentId = ac_agentId agent,
       cp_storeId = map_option sc_storeId store,
       cp_runnerId = rc_runnerId runner,
       cp_requiresDurableWriteback = mayRotate,
       cp_requiresLease = mayRotate,
       cp_requiresCas = (case store of None \<Rightarrow> False | Some s \<Rightarrow> sc_supportsCompareAndSwap s),
       cp_allowsInteractiveRuntime = False,
       cp_maxSessionBytes = (case store of None \<Rightarrow> Fin 0 | Some s \<Rightarrow> sc_maxArtifactBytes s),
       cp_maxTaskOutputBytes = or_default (rtp_maxTaskOutputBytes requested) (Fin 1048576),
       cp_timeoutMs = js_min (pc_defaultTimeoutMs provider) (ac_maxRuntimeMs agent),
       cp_minFreshMs = or_default (Option.bind (rtp_refreshPolicy requested) rf_minFreshMs) (Fin 900000),
       cp_refreshBeforeExpiryMs =
         or_default (Option.bind (rtp_refreshPolicy requested) rf_refreshBeforeExpiryMs) (Fin 300000),
       cp_maxSessionAgeMs =
         or_default (Option.bind (rtp_refreshPolicy requested) rf_maxSessionAgeMs) (Fin 86400000)\<rparr>)"

definition compileRuntimeExecutionPlan :: "runtime_policy \<Rightarrow> provider_capabilities \<Rightarrow> execution_plan" where
  "compileRuntimeExecutionPlan policy provider =
     (if pc_sessionRequirement provider = SessionNone
      then \<lparr>ep_kind = PlanNoSession, ep_readSession = False, ep_acquireLease = False, ep_refresh = PlanNever,
            ep_writeback = WritebackNever, ep_sessionForAgent = SessionAbsent\<rparr>
      else if \<not> providerMayRotateSession provider
      then \<lparr>ep_kind = PlanStaticSession, ep_readSession = True, ep_acquireLease = False,
            ep_refresh = (if pc_refreshMode provider = ValidateOnly then PlanValidateOnly else PlanNever),
            ep_writeback = WritebackNever, ep_sessionForAgent = SessionStored\<rparr>
      else \<lparr>ep_kind = PlanRotatingSession, ep_readSession = True, ep_acquireLease = True,
            ep_refresh = (if pc_refreshMode provider = LazyRefresh then PlanLazy else PlanBeforeRun),
            ep_writeback = (if rtp_requireWritebackBeforeTask policy then WritebackBeforeTask
                            else WritebackAfterRefresh),
            ep_sessionForAgent = SessionRefreshed\<rparr>)"

text \<open>The checks before the execution plan is compiled, in the order of the source.\<close>

definition task_mode_name :: "task_mode \<Rightarrow> string" where
  "task_mode_name m = (case m of Review \<Rightarrow> ''review'' | StructuredPrompt \<Rightarrow> ''structured-prompt'' | HealthCheck \<Rightarrow> ''health-check'')"

definition history_mode_name :: "history_mode \<Rightarrow> string" where
  "history_mode_name m = (case m of HistoryNone \<Rightarrow> ''none'' | HostManagedThread \<Rightarrow> ''host-managed-thread''
     | ProviderThread \<Rightarrow> ''provider-thread'' | HistoryUnsupported \<Rightarrow> ''unsupported'')"

definition negotiate_actors ::
    "runtime_policy \<Rightarrow> provider_capabilities \<Rightarrow> agent_capabilities \<Rightarrow> runner_capabilities \<Rightarrow>
      capability_decision option" where
  "negotiate_actors policy provider agent runner =
     (let taskMode = or_default (rtp_requestedTaskMode policy) Review;
          historyMode = or_default (rtp_requestedHistoryMode policy) HistoryUnsupported
      in
      if pc_providerId provider \<noteq> ac_providerId agent
      then Some (Rejected ProviderStoreIncompatible ''Agent/provider mismatch.''
             [(''providerId'', pc_providerId provider), (''agentProviderId'', ac_providerId agent)])
      else if pc_providerId provider \<notin> set (rtp_allowedProviderIds policy)
      then Some (Rejected MissingRequiredCapability ''Provider is not allowed.'' [(''providerId'', pc_providerId provider)])
      else if ac_agentId agent \<notin> set (rtp_allowedAgentIds policy)
      then Some (Rejected MissingRequiredCapability ''Agent is not allowed.'' [(''agentId'', ac_agentId agent)])
      else if rc_runnerId runner \<notin> set (rtp_allowedRunnerIds policy)
      then Some (Rejected MissingRequiredCapability ''Runner is not allowed.'' [(''runnerId'', rc_runnerId runner)])
      else if taskMode \<notin> set (ac_taskModes agent)
      then Some (Rejected TaskModeUnsupported ''Selected agent does not support the requested task mode.''
             [(''agentId'', ac_agentId agent), (''taskMode'', task_mode_name taskMode)])
      else if historyMode \<noteq> HistoryUnsupported \<and> ac_historyMode agent \<noteq> historyMode
      then Some (Rejected HistoryModeUnsupported ''Selected agent does not support the requested history mode.''
             [(''agentId'', ac_agentId agent), (''historyMode'', history_mode_name historyMode)])
      else if rtp_allowInteractiveSetupInRuntime policy
      then Some (Rejected InteractiveRuntimeForbidden ''Interactive setup is forbidden in runtime jobs.'' [])
      else if \<not> rc_supportsEnvAllowlist runner
      then Some (Rejected MissingRequiredCapability ''Runner must support environment allowlisting.''
             [(''runnerId'', rc_runnerId runner)])
      else if (pc_requiresWorkspace provider \<or> ac_supportsRepositoryContext agent) \<and> \<not> rc_supportsWorkingDirectory runner
      then Some (Rejected RunnerProviderIncompatible ''Provider or agent requires workspace support.''
             [(''runnerId'', rc_runnerId runner)])
      else if ac_requiresWritableWorkspace agent \<and> rc_readOnlyFilesystem runner
      then Some (Rejected RunnerProviderIncompatible ''Agent requires writable workspace, but runner is read-only.''
             [(''agentId'', ac_agentId agent)])
      else None)"

definition negotiate_store ::
    "runtime_policy \<Rightarrow> provider_capabilities \<Rightarrow> store_capabilities \<Rightarrow> capability_decision option" where
  "negotiate_store policy provider store =
     (let storeId = [(''storeId'', sc_storeId store)] in
      if sc_storeId store \<notin> set (rtp_allowedStoreIds policy)
      then Some (Rejected MissingRequiredCapability ''Store is not allowed.'' storeId)
      else if rtp_custodyMode policy = NoPlaintextBackend \<and> sc_custody store \<noteq> NoPlaintextBackend
      then Some (Rejected CustodyModeForbidden ''Selected store is not compatible with no-custody mode.'' storeId)
      else if rtp_custodyMode policy = NoPlaintextBackend \<and> sc_plaintextAvailableToBackend store
      then Some (Rejected CustodyModeForbidden ''Selected store exposes plaintext to backend.'' storeId)
      else if rtp_requireNoBackendPlaintext policy \<and> sc_plaintextAvailableToBackend store
      then Some (Rejected CustodyModeForbidden ''Runtime policy forbids backend plaintext.'' storeId)
      else if rtp_requireCompareAndSwap policy \<and> \<not> sc_supportsCompareAndSwap store
      then Some (Rejected MissingRequiredCapability ''Runtime policy requires compare-and-swap writes.'' storeId)
      else if providerMayRotateSession provider \<and> \<not> sc_supportsWriteback store
      then Some (Rejected ProviderStoreIncompatible ''Provider can rotate sessions, but store cannot write back.''
             [(''providerId'', pc_providerId provider)])
      else if providerMayRotateSession provider \<and> \<not> sc_supportsIdempotency store
      then Some (Rejected ProviderStoreIncompatible ''Provider can rotate sessions, but store cannot deduplicate writes.''
             storeId)
      else None)"

definition negotiateCapabilities ::
    "runtime_policy \<Rightarrow> provider_capabilities \<Rightarrow> agent_capabilities \<Rightarrow> store_capabilities option \<Rightarrow>
      runner_capabilities \<Rightarrow> capability_decision" where
  "negotiateCapabilities policy provider agent store runner =
     (case negotiate_actors policy provider agent runner of
        Some d \<Rightarrow> d
      | None \<Rightarrow>
        let plan = compileRuntimeExecutionPlan policy provider in
        if ep_kind plan = PlanNoSession
        then Accepted (compileRuntimePolicy policy provider agent None runner) plan
        else
          (case store of
             None \<Rightarrow> Rejected SessionStoreRequired ''Selected provider requires a session store.''
                       [(''providerId'', pc_providerId provider)]
           | Some s \<Rightarrow>
               (case negotiate_store policy provider s of
                  Some d \<Rightarrow> d
                | None \<Rightarrow> Accepted (compileRuntimePolicy policy provider agent (Some s) runner) plan)))"

text \<open>\<open>assertRuntimeCapabilities\<close> throws the code of a rejection.\<close>

definition assertRuntimeCapabilities ::
    "runtime_policy \<Rightarrow> provider_capabilities \<Rightarrow> agent_capabilities \<Rightarrow> store_capabilities option \<Rightarrow>
      runner_capabilities \<Rightarrow> rejection_code + unit" where
  "assertRuntimeCapabilities policy provider agent store runner =
     (case negotiateCapabilities policy provider agent store runner of
        Rejected code m d \<Rightarrow> Inl code
      | Accepted c p \<Rightarrow> Inr ())"

section \<open>What an accepted negotiation guarantees\<close>

definition actors_ok :: "runtime_policy \<Rightarrow> provider_capabilities \<Rightarrow> agent_capabilities \<Rightarrow> runner_capabilities \<Rightarrow> bool" where
  "actors_ok policy provider agent runner \<longleftrightarrow>
     pc_providerId provider = ac_providerId agent \<and>
     pc_providerId provider \<in> set (rtp_allowedProviderIds policy) \<and>
     ac_agentId agent \<in> set (rtp_allowedAgentIds policy) \<and>
     rc_runnerId runner \<in> set (rtp_allowedRunnerIds policy) \<and>
     or_default (rtp_requestedTaskMode policy) Review \<in> set (ac_taskModes agent) \<and>
     (or_default (rtp_requestedHistoryMode policy) HistoryUnsupported \<in> {HistoryUnsupported, ac_historyMode agent}) \<and>
     \<not> rtp_allowInteractiveSetupInRuntime policy \<and> rc_supportsEnvAllowlist runner \<and>
     (pc_requiresWorkspace provider \<or> ac_supportsRepositoryContext agent \<longrightarrow> rc_supportsWorkingDirectory runner) \<and>
     (ac_requiresWritableWorkspace agent \<longrightarrow> \<not> rc_readOnlyFilesystem runner)"

definition store_ok :: "runtime_policy \<Rightarrow> provider_capabilities \<Rightarrow> store_capabilities \<Rightarrow> bool" where
  "store_ok policy provider s \<longleftrightarrow>
     sc_storeId s \<in> set (rtp_allowedStoreIds policy) \<and>
     (rtp_custodyMode policy = NoPlaintextBackend \<longrightarrow> sc_custody s = NoPlaintextBackend) \<and>
     (rtp_custodyMode policy = NoPlaintextBackend \<or> rtp_requireNoBackendPlaintext policy \<longrightarrow>
        \<not> sc_plaintextAvailableToBackend s) \<and>
     (rtp_requireCompareAndSwap policy \<longrightarrow> sc_supportsCompareAndSwap s) \<and>
     (providerMayRotateSession provider \<longrightarrow> sc_supportsWriteback s \<and> sc_supportsIdempotency s)"

lemma negotiate_actors_None: "negotiate_actors policy provider agent runner = None \<longleftrightarrow> actors_ok policy provider agent runner"
  by (auto simp: negotiate_actors_def actors_ok_def Let_def)

lemma negotiate_store_None: "negotiate_store policy provider s = None \<longleftrightarrow> store_ok policy provider s"
  by (auto simp: negotiate_store_def store_ok_def Let_def)

lemma negotiate_actors_rejects: "negotiate_actors policy provider agent runner \<noteq> Some (Accepted c p)"
  by (simp add: negotiate_actors_def Let_def)

lemma negotiate_store_rejects: "negotiate_store policy provider s \<noteq> Some (Accepted c p)"
  by (simp add: negotiate_store_def Let_def)

lemma plan_no_session: "ep_kind (compileRuntimeExecutionPlan policy provider) = PlanNoSession \<longleftrightarrow>
    pc_sessionRequirement provider = SessionNone"
  by (simp add: compileRuntimeExecutionPlan_def)

section \<open>Properties\<close>



definition demo_provider :: provider_capabilities where
  "demo_provider = \<lparr>pc_providerId = ''codex'', pc_displayName = ''Codex'', pc_sessionRequirement = SessionRequired [JsonFile],
     pc_sessionArtifactKinds = [JsonFile], pc_refreshMode = LazyRefresh, pc_sessionRotationMode = MayRotate,
     pc_environmentPolicy = \<lparr>env_allowlist = [''PATH''], env_denylist = [], env_credentialSourceOrder = []\<rparr>,
     pc_supportsRefresh = True, pc_refreshMayRotateSession = True, pc_supportsNonInteractiveRuntime = True,
     pc_requiresNetwork = True, pc_requiresWorkspace = True, pc_supportsStructuredOutput = True,
     pc_supportsReadOnlySandbox = True, pc_defaultTimeoutMs = Fin 600000, pc_setupModes = [DeviceAuth]\<rparr>"

definition demo_agent :: agent_capabilities where
  "demo_agent = \<lparr>ac_agentId = ''a'', ac_providerId = ''codex'', ac_taskModes = [Review], ac_historyMode = HistoryNone,
     ac_supportsReviewTasks = True, ac_supportsStructuredOutput = True, ac_supportsToolCalling = True,
     ac_supportsRepositoryContext = True, ac_supportsInlineFindings = True, ac_requiresWritableWorkspace = False,
     ac_maxPromptBytes = None, ac_maxRuntimeMs = Fin 300000\<rparr>"

definition demo_store :: store_capabilities where
  "demo_store = \<lparr>sc_storeId = ''file'', sc_custody = LocalOnly, sc_supportsRead = True, sc_supportsWriteback = True,
     sc_supportsCompareAndSwap = True, sc_supportsIdempotency = True, sc_supportsDelete = True,
     sc_supportsAuditLog = False, sc_supportsMetadataOnlyHealthCheck = True, sc_plaintextAvailableToBackend = True,
     sc_maxArtifactBytes = Fin 1000\<rparr>"

definition demo_runner :: runner_capabilities where
  "demo_runner = \<lparr>rc_runnerId = ''node'', rc_supportsEnvAllowlist = True, rc_supportsWorkingDirectory = True,
     rc_supportsTimeout = True, rc_supportsAbortSignal = True, rc_supportsOutputRedaction = True,
     rc_supportsReadOnlySandbox = True, rc_readOnlyFilesystem = False, rc_platform = ''node-process''\<rparr>"

definition demo_policy :: runtime_policy where
  "demo_policy = \<lparr>rtp_custodyMode = LocalOnly, rtp_requireNoBackendPlaintext = False, rtp_requireWritebackBeforeTask = True,
     rtp_requireCompareAndSwap = True, rtp_refreshPolicy = None, rtp_requestedTaskMode = None,
     rtp_requestedHistoryMode = None, rtp_allowInteractiveSetupInRuntime = False, rtp_allowedProviderIds = [''codex''],
     rtp_allowedAgentIds = [''a''], rtp_allowedStoreIds = [''file''], rtp_allowedRunnerIds = [''node''],
     rtp_maxTaskOutputBytes = None\<rparr>"


end
