(* ===== verification/Effects.thy ===== *)
theory Effects
  imports Prelude
begin

text \<open>
  Sequential programs over a state that may throw: what an \<open>async\<close> function of the source does
  between its call and its settlement, its awaits included. The combinators are those of the
  language: sequencing, \<open>throw\<close>, \<open>try/catch\<close> and \<open>try/finally\<close>. The locale gives the rules by which
  a relation between the states before and after is proved of a program from its parts.
\<close>

type_synonym ('s, 'e, 'a) prog = "'s \<Rightarrow> ('e + 'a) \<times> 's"

definition retP :: "'a \<Rightarrow> ('s, 'e, 'a) prog" where
  "retP x = (\<lambda>s. (Inr x, s))"

definition throwP :: "'e \<Rightarrow> ('s, 'e, 'a) prog" where
  "throwP e = (\<lambda>s. (Inl e, s))"

definition bindP :: "('s, 'e, 'a) prog \<Rightarrow> ('a \<Rightarrow> ('s, 'e, 'b) prog) \<Rightarrow> ('s, 'e, 'b) prog" where
  "bindP m f = (\<lambda>s. case m s of (Inl e, s1) \<Rightarrow> (Inl e, s1) | (Inr x, s1) \<Rightarrow> f x s1)"

definition thenP :: "('s, 'e, unit) prog \<Rightarrow> ('s, 'e, 'b) prog \<Rightarrow> ('s, 'e, 'b) prog" where
  "thenP m n = bindP m (\<lambda>_. n)"

definition getP :: "('s \<Rightarrow> 'a) \<Rightarrow> ('s, 'e, 'a) prog" where
  "getP f = (\<lambda>s. (Inr (f s), s))"

definition modifyP :: "('s \<Rightarrow> 's) \<Rightarrow> ('s, 'e, unit) prog" where
  "modifyP f = (\<lambda>s. (Inr (), f s))"

text \<open>\<open>try { m } finally { c }\<close>: an error of the cleanup replaces the outcome.\<close>

definition finallyP :: "('s, 'e, 'a) prog \<Rightarrow> ('s, 'e, unit) prog \<Rightarrow> ('s, 'e, 'a) prog" where
  "finallyP m c = (\<lambda>s. case m s of (r, s1) \<Rightarrow> (case c s1 of (Inl e, s2) \<Rightarrow> (Inl e, s2) | (Inr _, s2) \<Rightarrow> (r, s2)))"

definition catchP :: "('s, 'e, 'a) prog \<Rightarrow> ('e \<Rightarrow> ('s, 'e, 'a) prog) \<Rightarrow> ('s, 'e, 'a) prog" where
  "catchP m h = (\<lambda>s. case m s of (Inl e, s1) \<Rightarrow> h e s1 | (Inr x, s1) \<Rightarrow> (Inr x, s1))"

definition checkP :: "'e + 'a \<Rightarrow> ('s, 'e, 'a) prog" where
  "checkP r = (\<lambda>s. (r, s))"

lemma retP_apply [simp]: "retP x s = (Inr x, s)"
  by (simp add: retP_def)

lemma throwP_apply [simp]: "throwP e s = (Inl e, s)"
  by (simp add: throwP_def)

lemma getP_apply [simp]: "getP f s = (Inr (f s), s)"
  by (simp add: getP_def)

lemma modifyP_apply [simp]: "modifyP f s = (Inr (), f s)"
  by (simp add: modifyP_def)

lemma checkP_apply [simp]: "checkP r s = (r, s)"
  by (simp add: checkP_def)

lemma bindP_ret [simp]: "bindP (retP x) f = f x"
  by (simp add: bindP_def fun_eq_iff)

lemma bindP_throw [simp]: "bindP (throwP e) f = throwP e"
  by (simp add: bindP_def fun_eq_iff)

lemma bindP_get [simp]: "bindP (getP f) k s = k (f s) s"
  by (simp add: bindP_def)

lemma bindP_check [simp]: "bindP (checkP r) k s = (case r of Inl e \<Rightarrow> (Inl e, s) | Inr x \<Rightarrow> k x s)"
  by (simp add: bindP_def split: sum.splits)

lemma thenP_ret [simp]: "thenP (retP ()) n = n"
  by (simp add: thenP_def)

lemma thenP_throw [simp]: "thenP (throwP e) n = throwP e"
  by (simp add: thenP_def)

lemma bindP_assoc: "bindP (bindP m f) g = bindP m (\<lambda>x. bindP (f x) g)"
  by (auto simp: bindP_def fun_eq_iff split: prod.splits sum.splits)

lemma bindP_cases:
  obtains e s1 where "m s = (Inl e, s1)" "bindP m f s = (Inl e, s1)"
    | x s1 where "m s = (Inr x, s1)" "bindP m f s = f x s1"
proof (cases "m s")
  case (Pair r s1)
  then show thesis using that by (cases r) (auto simp: bindP_def)
qed

section \<open>What a program does to its state\<close>

text \<open>A program that moves the state along a relation, however it ends.\<close>

definition moves :: "('s \<Rightarrow> 's \<Rightarrow> bool) \<Rightarrow> ('s, 'e, 'a) prog \<Rightarrow> bool" where
  "moves R m = (\<forall>s. R s (snd (m s)))"

text \<open>A program that keeps a predicate of the state, however it ends.\<close>

abbreviation keeps :: "('s \<Rightarrow> bool) \<Rightarrow> ('s, 'e, 'a) prog \<Rightarrow> bool" where
  "keeps P \<equiv> moves (\<lambda>s t. P s \<longrightarrow> P t)"

lemma movesD: "moves R m \<Longrightarrow> m s = (r, s') \<Longrightarrow> R s s'"
  by (metis moves_def snd_conv)

locale state_preorder =
  fixes R :: "'s \<Rightarrow> 's \<Rightarrow> bool"
  assumes stays: "R s s"
    and chains: "R s t \<Longrightarrow> R t u \<Longrightarrow> R s u"
begin

lemma moves_ret [intro, simp]: "moves R (retP x)" "moves R (throwP e)" "moves R (getP f)" "moves R (checkP r)"
  by (simp_all add: moves_def stays)

lemma moves_bind [intro]:
  assumes "moves R m" "\<And>x. moves R (f x)"
  shows "moves R (bindP m f)"
  unfolding moves_def
proof
  fix s
  have "R s (snd (m s))" using assms(1) by (simp add: moves_def)
  moreover have "R t (snd (f x t))" for x t using assms(2) by (simp add: moves_def)
  ultimately show "R s (snd (bindP m f s))"
    using chains by (cases rule: bindP_cases [of m s f]) auto
qed

lemma moves_then [intro]: "moves R m \<Longrightarrow> moves R n \<Longrightarrow> moves R (thenP m n)"
  unfolding thenP_def by (rule moves_bind)

lemma moves_finally [intro]:
  assumes "moves R m" "moves R c"
  shows "moves R (finallyP m c)"
  unfolding moves_def
proof
  fix s
  obtain r s1 where m: "m s = (r, s1)" by fastforce
  obtain r' s2 where c: "c s1 = (r', s2)" by fastforce
  have "R s s1" "R s1 s2" using assms m c unfolding moves_def by (metis snd_conv)+
  then have "R s s2" by (rule chains)
  with m c show "R s (snd (finallyP m c s))" by (auto simp: finallyP_def split: sum.splits)
qed

lemma moves_catch [intro]:
  assumes "moves R m" "\<And>e. moves R (h e)"
  shows "moves R (catchP m h)"
  unfolding moves_def
proof
  fix s
  obtain r s1 where m: "m s = (r, s1)" by fastforce
  have "R s s1" using assms(1) m unfolding moves_def by (metis snd_conv)
  moreover have "R s1 (snd (h e s1))" for e using assms(2) by (simp add: moves_def)
  ultimately show "R s (snd (catchP m h s))" using m chains by (cases r) (auto simp: catchP_def)
qed

lemma run_bind:
  assumes "R s (snd (m s))" "\<And>x t. m s = (Inr x, t) \<Longrightarrow> R t (snd (f x t))"
  shows "R s (snd (bindP m f s))"
  using assms chains by (cases rule: bindP_cases [of m s f]) auto

lemma run_then:
  assumes "R s (snd (m s))" "\<And>t. m s = (Inr (), t) \<Longrightarrow> R t (snd (n t))"
  shows "R s (snd (thenP m n s))"
  unfolding thenP_def using assms by (intro run_bind) auto

lemma run_catch:
  assumes "R s (snd (m s))" "\<And>e t. m s = (Inl e, t) \<Longrightarrow> R t (snd (h e t))"
  shows "R s (snd (catchP m h s))"
proof (cases "m s")
  case (Pair r t)
  then show ?thesis using assms chains by (cases r) (auto simp: catchP_def)
qed

lemma moves_modify [intro]: "(\<And>s. R s (f s)) \<Longrightarrow> moves R (modifyP f)"
  by (simp add: moves_def)

end

interpretation keeping: state_preorder "\<lambda>s t. P s \<longrightarrow> P t" for P
  by unfold_locales auto

end
