(* ===== verification/Session_Domain.thy ===== *)
theory Session_Domain
  imports Runtime_Policy Core_States Effects
begin

text \<open>
  The data of a session in custody: artifacts, envelopes, the answers of the session store and of
  the lease store (\<open>src/core/domain/types.ts\<close>, \<open>src/core/ports/index.ts\<close>), the hash that names a
  generation (\<open>src/core/domain/generation-hash.ts\<close>) and the keys of the id generator
  (\<open>src/core/application/redactor.ts\<close>). Bytes are a list of characters; SHA-256 is a parameter. A
  generation is an integer: it counts writes and stays far below the precision of a number.
\<close>

section \<open>Definitions\<close>

record session_artifact =
  sa_kind :: artifact_kind
  sa_providerId :: string
  sa_formatVersion :: string
  sa_bytes :: string
  sa_contentType :: string

text \<open>The optional dates of an artifact are never read by the runtime and are left out.\<close>

type_synonym metadata = "(string \<times> string) list"

record session_envelope =
  se_providerInstanceId :: string
  se_providerId :: string
  se_artifact :: session_artifact
  se_generation :: int
  se_generationHash :: string
  se_storageVersion :: string
  se_custody :: custody_mode
  se_metadata :: metadata

datatype write_result =
    WriteAccepted int string
  | WriteReplay int string
  | WriteStale int string

datatype lease_answer = LeaseGranted string date | LeaseStale string | LeaseDenied string

datatype commit_result = Committed | CommitReplay | CommitStale string

record write_request =
  wq_providerInstanceId :: string
  wq_expectedGeneration :: int
  wq_nextArtifact :: session_artifact
  wq_idempotencyKey :: string
  wq_leaseId :: string
  wq_metadata :: "metadata option"

record acquire_input =
  aq_providerInstanceId :: string
  aq_runId :: string
  aq_attempt :: nat
  aq_ttlMs :: jsnum
  aq_restoredGenerationHash :: string

fun artifact_kind_name :: "artifact_kind \<Rightarrow> string" where
  "artifact_kind_name JsonFile = ''json-file''"
| "artifact_kind_name EnvToken = ''env-token''"
| "artifact_kind_name DirectoryArtifact = ''directory''"
| "artifact_kind_name OpaqueBytes = ''opaque-bytes''"

abbreviation nul_char :: char where
  "nul_char \<equiv> CHR 0x00"

text \<open>What \<open>computeSessionGenerationHash\<close> feeds the digest, without a salt.\<close>

definition generation_text :: "session_artifact \<Rightarrow> string" where
  "generation_text a =
     ''subscription-runtime-session-v1'' @ nul_char # sa_providerId a @ nul_char # artifact_kind_name (sa_kind a) @
     nul_char # sa_formatVersion a @ nul_char # sa_bytes a"

definition computeSessionGenerationHash :: "(string \<Rightarrow> string) \<Rightarrow> session_artifact \<Rightarrow> string" where
  "computeSessionGenerationHash digest a = digest (generation_text a)"

definition idempotencyKey :: "string \<Rightarrow> string \<Rightarrow> nat \<Rightarrow> string \<Rightarrow> string" where
  "idempotencyKey providerInstanceId runId attempt purpose =
     providerInstanceId @ '':'' @ runId @ '':'' @ nat_digits attempt @ '':'' @ purpose"

section \<open>Lemmas\<close>

definition nul_free :: "string \<Rightarrow> bool" where
  "nul_free s = (nul_char \<notin> set s)"

lemma split_at_nul: "nul_free a \<Longrightarrow> nul_free b \<Longrightarrow> a @ nul_char # x = b @ nul_char # y \<longleftrightarrow> a = b \<and> x = y"
  by (induction a arbitrary: b; case_tac b) (auto simp: nul_free_def)

lemma artifact_kind_name_inj: "artifact_kind_name k = artifact_kind_name k' \<longleftrightarrow> k = k'"
  by (cases k; cases k') simp_all

lemma artifact_kind_name_nul: "nul_free (artifact_kind_name k)"
  by (cases k) (simp_all add: nul_free_def)

lemma generation_text_inj:
  assumes "nul_free (sa_providerId a)" "nul_free (sa_formatVersion a)" "nul_free (sa_providerId b)" "nul_free (sa_formatVersion b)"
  shows "generation_text a = generation_text b \<longleftrightarrow>
    sa_providerId a = sa_providerId b \<and> sa_kind a = sa_kind b \<and> sa_formatVersion a = sa_formatVersion b \<and> sa_bytes a = sa_bytes b"
  using assms artifact_kind_name_nul
  by (simp add: generation_text_def split_at_nul artifact_kind_name_inj)

end
