(* ===== verification/Lease_Files.thy ===== *)
theory Lease_Files
  imports Session_Domain
begin

text \<open>
  The file-backed lease store, \<open>src/store-local-file/session-leases/adapters/local-file-lease-store.ts\<close>.

  Its files are two maps: the lease records by lease id, and one active record per provider
  instance. Every operation runs under the provider's lock and is one program over the files; the
  record it reads before it takes the lock only tells it which lock to take, and a failure to take
  the lock leaves the files as they are. Each write and each
  removal of a file draws its outcome from a list: it may succeed, fail before or after its effect
  (the rename has happened, the sync of the directory fails), or the process may die there, which
  no handler of the source sees. Reads of files do not fail. A file holds what was written to it:
  the parser's refusal of foreign content is left out. Dates are kept as dates where the files have
  their ISO text. File names are hashes of the ids; the maps are keyed by the ids themselves.
\<close>

section \<open>Definitions\<close>

datatype lease_file_state = LsActive | LsFinalized | LsWritebackStarted | LsCommitted | LsReleased

record persisted_write =
  pw_generationHash :: string
  pw_idempotencyKey :: string

record persisted_lease =
  pl_leaseId :: string
  pl_providerInstanceId :: string
  pl_runId :: string
  pl_attempt :: nat
  pl_restoredGenerationHash :: string
  pl_state :: lease_file_state
  pl_acquiredAt :: date
  pl_expiresAt :: date
  pl_finalizedAt :: "date option"
  pl_writebackStartedAt :: "date option"
  pl_committedAt :: "date option"
  pl_releasedAt :: "date option"
  pl_releaseReason :: "string option"
  pl_keyId :: "string option"
  pl_nextGenerationHash :: "string option"
  pl_idempotencyKey :: "string option"
  pl_persistedWrite :: "persisted_write option"

datatype io_outcome = IoDone | IoFailed | IoFailedAfter | CrashBefore | CrashAfter

datatype file_error = Thrown string | AlreadyExists | IoError | Crashed

record lease_files =
  lf_records :: "(string \<times> persisted_lease) list"
  lf_active :: "(string \<times> persisted_lease) list"
  lf_outcomes :: "io_outcome list"

type_synonym ('z, 'a) file_prog = "('z lease_files_scheme, file_error, 'a) prog"

definition do_io :: "('z lease_files_scheme \<Rightarrow> 'z lease_files_scheme) \<Rightarrow> ('z, unit) file_prog" where
  "do_io eff = (\<lambda>s.
     case lf_outcomes s of
       [] \<Rightarrow> (Inr (), eff s)
     | outcome # rest \<Rightarrow>
         let s1 = s\<lparr>lf_outcomes := rest\<rparr> in
         (case outcome of
            IoDone \<Rightarrow> (Inr (), eff s1)
          | IoFailed \<Rightarrow> (Inl IoError, s1)
          | IoFailedAfter \<Rightarrow> (Inl IoError, eff s1)
          | CrashBefore \<Rightarrow> (Inl Crashed, s1)
          | CrashAfter \<Rightarrow> (Inl Crashed, eff s1)))"

text \<open>A dead process handles nothing.\<close>

definition tryP :: "('z, 'a) file_prog \<Rightarrow> (file_error \<Rightarrow> ('z, 'a) file_prog) \<Rightarrow> ('z, 'a) file_prog" where
  "tryP m h = catchP m (\<lambda>e. if e = Crashed then throwP Crashed else h e)"

definition throwE :: "string \<Rightarrow> ('z, 'a) file_prog" where
  "throwE message = throwP (Thrown message)"

text \<open>\<open>toISOString\<close> throws a \<open>RangeError\<close> on an invalid date.\<close>

definition iso_date :: "date \<Rightarrow> file_error + date" where
  "iso_date d = (if valid_date d then Inr d else Inl (Thrown ''Invalid time value''))"

definition isExpired :: "persisted_lease \<Rightarrow> date \<Rightarrow> bool" where
  "isExpired r now = (case pl_expiresAt r of InvalidDate \<Rightarrow> True | Instant e \<Rightarrow> date_le (Instant e) now)"

subsection \<open>Files\<close>

definition readActive :: "string \<Rightarrow> ('z, persisted_lease option) file_prog" where
  "readActive providerInstanceId = getP (\<lambda>s. map_of (lf_active s) providerInstanceId)"

definition readLeaseRecord :: "string \<Rightarrow> ('z, persisted_lease option) file_prog" where
  "readLeaseRecord leaseId = getP (\<lambda>s. map_of (lf_records s) leaseId)"

definition requireLeaseRecord :: "string \<Rightarrow> ('z, persisted_lease) file_prog" where
  "requireLeaseRecord leaseId = bindP (readLeaseRecord leaseId) (\<lambda>r.
     case r of None \<Rightarrow> throwE ''local_file_lease_not_found'' | Some record \<Rightarrow> retP record)"

definition writeLeaseRecord :: "bool \<Rightarrow> persisted_lease \<Rightarrow> ('z, unit) file_prog" where
  "writeLeaseRecord exclusive record = bindP (readLeaseRecord (pl_leaseId record)) (\<lambda>r.
     if exclusive \<and> r \<noteq> None then thenP (do_io (\<lambda>s. s)) (throwP AlreadyExists)
     else do_io (\<lambda>s. s\<lparr>lf_records := AList.update (pl_leaseId record) record (lf_records s)\<rparr>))"

definition writeActiveRecord :: "bool \<Rightarrow> persisted_lease \<Rightarrow> ('z, unit) file_prog" where
  "writeActiveRecord exclusive record = bindP (readActive (pl_providerInstanceId record)) (\<lambda>r.
     if exclusive \<and> r \<noteq> None then thenP (do_io (\<lambda>s. s)) (throwP AlreadyExists)
     else do_io (\<lambda>s. s\<lparr>lf_active := AList.update (pl_providerInstanceId record) record (lf_active s)\<rparr>))"

definition removeLeaseRecord :: "string \<Rightarrow> ('z, unit) file_prog" where
  "removeLeaseRecord leaseId = do_io (\<lambda>s. s\<lparr>lf_records := AList.delete leaseId (lf_records s)\<rparr>)"

definition removeActiveIfMatchesLocked :: "persisted_lease \<Rightarrow> ('z, unit) file_prog" where
  "removeActiveIfMatchesLocked record = bindP (readActive (pl_providerInstanceId record)) (\<lambda>active.
     if (case active of None \<Rightarrow> False | Some a \<Rightarrow> pl_leaseId a = pl_leaseId record)
     then do_io (\<lambda>s. s\<lparr>lf_active := AList.delete (pl_providerInstanceId record) (lf_active s)\<rparr>)
     else retP ())"

definition persistLeaseTransitionLocked :: "persisted_lease \<Rightarrow> ('z, unit) file_prog" where
  "persistLeaseTransitionLocked record =
     thenP (writeLeaseRecord False record) (bindP (readActive (pl_providerInstanceId record)) (\<lambda>active.
       if (case active of None \<Rightarrow> False | Some a \<Rightarrow> pl_leaseId a = pl_leaseId record)
       then writeActiveRecord False record else retP ()))"

definition assertCurrentLeaseLocked :: "date \<Rightarrow> persisted_lease \<Rightarrow> ('z, unit) file_prog" where
  "assertCurrentLeaseLocked now record =
     (if pl_state record = LsReleased \<or> pl_state record = LsCommitted \<or> isExpired record now
      then throwE ''local_file_lease_expired_or_released''
      else bindP (readActive (pl_providerInstanceId record)) (\<lambda>active.
        if (case active of None \<Rightarrow> False | Some a \<Rightarrow> pl_leaseId a = pl_leaseId record) then retP ()
        else throwE ''local_file_lease_superseded''))"

subsection \<open>Operations\<close>

text \<open>The hash that ends a lease id, over random bytes among others, is an argument.\<close>

definition makeLeaseRecord :: "string \<Rightarrow> acquire_input \<Rightarrow> date \<Rightarrow> date \<Rightarrow> file_error + persisted_lease" where
  "makeLeaseRecord random inp now expiresAt =
     (case iso_date now of
        Inl e \<Rightarrow> Inl e
      | Inr acquired \<Rightarrow>
          (case iso_date expiresAt of
             Inl e \<Rightarrow> Inl e
           | Inr expires \<Rightarrow> Inr
               \<lparr>pl_leaseId = ''local-file-lease:'' @ random, pl_providerInstanceId = aq_providerInstanceId inp, pl_runId = aq_runId inp,
                pl_attempt = aq_attempt inp, pl_restoredGenerationHash = aq_restoredGenerationHash inp, pl_state = LsActive,
                pl_acquiredAt = acquired, pl_expiresAt = expires, pl_finalizedAt = None, pl_writebackStartedAt = None,
                pl_committedAt = None, pl_releasedAt = None, pl_releaseReason = None, pl_keyId = None, pl_nextGenerationHash = None,
                pl_idempotencyKey = None, pl_persistedWrite = None\<rparr>))"

definition leased_message :: string where
  "leased_message = ''Provider session refresh is already leased.''"

definition lease_grant :: "string \<Rightarrow> acquire_input \<Rightarrow> date \<Rightarrow> ('z, lease_answer) file_prog" where
  "lease_grant random inp now =
     bindP (checkP (makeLeaseRecord random inp now (newDate (js_add (getTime now) (aq_ttlMs inp))))) (\<lambda>record.
       thenP (writeLeaseRecord True record)
         (tryP (thenP (writeActiveRecord True record) (retP (LeaseGranted (pl_leaseId record) (pl_expiresAt record))))
            (\<lambda>e. thenP (removeLeaseRecord (pl_leaseId record))
               (if e = AlreadyExists then retP (LeaseDenied leased_message) else throwP e))))"

definition lf_acquire :: "string \<Rightarrow> acquire_input \<Rightarrow> date \<Rightarrow> ('z, lease_answer) file_prog" where
  "lf_acquire random inp now =
     (if \<not> js_isFinite (aq_ttlMs inp) \<or> js_le (aq_ttlMs inp) (Fin 0) then throwE ''local_file_lease_invalid_ttl''
      else bindP (readActive (aq_providerInstanceId inp)) (\<lambda>active.
        case active of
          None \<Rightarrow> lease_grant random inp now
        | Some a \<Rightarrow>
            if \<not> isExpired a now
            then retP (if pl_restoredGenerationHash a \<noteq> aq_restoredGenerationHash inp
                       then LeaseStale ''A newer provider session generation is already leased.'' else LeaseDenied leased_message)
            else thenP (removeActiveIfMatchesLocked a) (lease_grant random inp now)))"

definition lf_finalize :: "string \<Rightarrow> string \<Rightarrow> date \<Rightarrow> date \<Rightarrow> ('z, string \<times> string) file_prog" where
  "lf_finalize leaseId restoredGenerationHash now stamp =
     bindP (requireLeaseRecord leaseId) (\<lambda>record.
       let finalized = retP (pl_leaseId record, pl_restoredGenerationHash record) in
       if pl_restoredGenerationHash record \<noteq> restoredGenerationHash then throwE ''local_file_lease_generation_hash_mismatch''
       else if pl_state record = LsCommitted \<or> pl_persistedWrite record \<noteq> None then finalized
       else thenP (assertCurrentLeaseLocked now record)
         (if pl_state record = LsFinalized \<or> pl_state record = LsWritebackStarted then finalized
          else bindP (checkP (iso_date stamp)) (\<lambda>d.
            thenP (persistLeaseTransitionLocked (record\<lparr>pl_state := LsFinalized, pl_finalizedAt := Some d\<rparr>)) finalized)))"

definition lf_markWritebackStarted :: "string \<Rightarrow> string option \<Rightarrow> date \<Rightarrow> date \<Rightarrow> ('z, unit) file_prog" where
  "lf_markWritebackStarted leaseId keyId now stamp =
     bindP (requireLeaseRecord leaseId) (\<lambda>record.
       if pl_state record = LsCommitted \<or> pl_persistedWrite record \<noteq> None then retP ()
       else thenP (assertCurrentLeaseLocked now record)
         (if pl_state record \<noteq> LsFinalized \<and> pl_state record \<noteq> LsWritebackStarted then throwE ''local_file_lease_not_finalized''
          else if pl_state record = LsWritebackStarted then retP ()
          else bindP (checkP (iso_date stamp)) (\<lambda>d.
            persistLeaseTransitionLocked (record\<lparr>pl_state := LsWritebackStarted, pl_writebackStartedAt := Some d,
              pl_keyId := nullish (truthy keyId) (pl_keyId record)\<rparr>))))"

definition lease_commit :: "persisted_lease \<Rightarrow> string \<Rightarrow> string \<Rightarrow> date \<Rightarrow> ('z, commit_result) file_prog" where
  "lease_commit record nextGenerationHash key stamp =
     bindP (checkP (iso_date stamp)) (\<lambda>d.
       let committed = record\<lparr>pl_state := LsCommitted, pl_committedAt := Some d, pl_nextGenerationHash := Some nextGenerationHash,
             pl_idempotencyKey := Some key\<rparr>
       in thenP (persistLeaseTransitionLocked committed) (thenP (removeActiveIfMatchesLocked committed) (retP Committed)))"

definition lf_markWritebackCommitted :: "bool \<Rightarrow> string \<Rightarrow> string \<Rightarrow> string \<Rightarrow> date \<Rightarrow> date \<Rightarrow> ('z, commit_result) file_prog" where
  "lf_markWritebackCommitted requireSessionReceipt leaseId nextGenerationHash key now stamp =
     bindP (requireLeaseRecord leaseId) (\<lambda>record.
       if pl_state record = LsCommitted
       then if pl_nextGenerationHash record = Some nextGenerationHash \<and> pl_idempotencyKey record = Some key
            then thenP (removeActiveIfMatchesLocked record) (retP CommitReplay)
            else retP (CommitStale ''Lease was already committed with different writeback metadata.'')
       else
         (case pl_persistedWrite record of
            Some w \<Rightarrow>
              if pw_generationHash w \<noteq> nextGenerationHash \<or> pw_idempotencyKey w \<noteq> key
              then retP (CommitStale ''Lease writeback receipt did not match.'')
              else lease_commit record nextGenerationHash key stamp
          | None \<Rightarrow>
              let unchanged = (pl_state record = LsFinalized \<and> nextGenerationHash = pl_restoredGenerationHash record) in
              if requireSessionReceipt \<and> \<not> unchanged then retP (CommitStale ''Lease has no persisted writeback receipt.'')
              else thenP (assertCurrentLeaseLocked now record)
                (if pl_state record \<noteq> LsWritebackStarted \<and> \<not> unchanged then throwE ''local_file_lease_writeback_not_started''
                 else lease_commit record nextGenerationHash key stamp)))"

definition lf_release :: "string \<Rightarrow> string \<Rightarrow> date \<Rightarrow> ('z, unit) file_prog" where
  "lf_release leaseId reason stamp =
     bindP (readLeaseRecord leaseId) (\<lambda>r.
       case r of
         None \<Rightarrow> retP ()
       | Some record \<Rightarrow>
           if pl_state record = LsCommitted then retP ()
           else bindP (checkP (iso_date stamp)) (\<lambda>d.
             let released = record\<lparr>pl_state := LsReleased, pl_releasedAt := Some d, pl_releaseReason := Some reason\<rparr>
             in thenP (persistLeaseTransitionLocked released) (removeActiveIfMatchesLocked released)))"

subsection \<open>The guard of a session write\<close>

definition is_lease_id :: "string \<Rightarrow> bool" where
  "is_lease_id leaseId = (take (length ''local-file-lease:'') leaseId = ''local-file-lease:'')"

definition guard_authorize :: "string \<Rightarrow> string \<Rightarrow> string \<Rightarrow> bool \<Rightarrow> bool \<Rightarrow> date \<Rightarrow> ('z, unit) file_prog" where
  "guard_authorize providerInstanceId leaseId restoredGenerationHash bootstrap requireLease now =
     (if is_lease_id leaseId
      then bindP (requireLeaseRecord leaseId) (\<lambda>record.
        if pl_providerInstanceId record \<noteq> providerInstanceId then throwE ''local_file_lease_provider_mismatch''
        else thenP (assertCurrentLeaseLocked now record)
          (if pl_state record \<noteq> LsWritebackStarted then throwE ''local_file_lease_writeback_not_started''
           else if pl_persistedWrite record \<noteq> None then throwE ''local_file_lease_already_written''
           else if pl_restoredGenerationHash record \<noteq> restoredGenerationHash then throwE ''local_file_lease_generation_hash_mismatch''
           else retP ()))
      else bindP (readActive providerInstanceId) (\<lambda>active.
        if (case active of None \<Rightarrow> False | Some a \<Rightarrow> \<not> isExpired a now) then throwE ''local_file_lease_unavailable''
        else if requireLease \<and> \<not> bootstrap \<and> leaseId \<noteq> ''seed-local-file-backend'' then throwE ''local_file_lease_not_found''
        else retP ()))"

definition guard_recordReceipt :: "string \<Rightarrow> string \<Rightarrow> string \<Rightarrow> string \<Rightarrow> ('z, unit) file_prog" where
  "guard_recordReceipt providerInstanceId leaseId generationHash key =
     (if \<not> is_lease_id leaseId then retP ()
      else bindP (requireLeaseRecord leaseId) (\<lambda>record.
        if pl_providerInstanceId record \<noteq> providerInstanceId then throwE ''local_file_lease_provider_mismatch''
        else
          (case pl_persistedWrite record of
             Some w \<Rightarrow>
               if pw_generationHash w \<noteq> generationHash \<or> pw_idempotencyKey w \<noteq> key then throwE ''local_file_lease_receipt_conflict''
               else retP ()
           | None \<Rightarrow> persistLeaseTransitionLocked
               (record\<lparr>pl_persistedWrite := Some \<lparr>pw_generationHash = generationHash, pw_idempotencyKey = key\<rparr>\<rparr>))))"

end
