(* ===== verification/Session_Custody.thy ===== *)
theory Session_Custody
  imports Lease_Files
begin

text \<open>
  The encrypted session store over the files of the lease store,
  \<open>src/store-local-file/session-custody/adapters/local-encrypted-file-store.ts\<close>, and the policy of
  \<open>session-custody/domain/local-encrypted-file-store-policy.ts\<close>.

  AES-GCM and SHA-256, once as hexadecimal and once as base64url text, are parameters; the random nonce of a write is an argument. A record holds
  the bytes of the ciphertext, the nonce and the tag where the file has their base64url text. A record always carries the
  version the parser insists on. The text that is hashed to identify a write request is written out, \<open>JSON.stringify\<close> included.
\<close>

section \<open>Definitions\<close>

record persisted_artifact =
  pa_kind :: artifact_kind
  pa_formatVersion :: string
  pa_contentType :: string
  pa_encryptedBytes :: string
  pa_nonce :: string
  pa_authTag :: string
  pa_algorithm :: string

record idempotency_record =
  ir_generation :: int
  ir_generationHash :: string
  ir_artifactHash :: string
  ir_requestHash :: "string option"

record persisted_session =
  ss_providerInstanceId :: string
  ss_providerId :: string
  ss_generation :: int
  ss_generationHash :: string
  ss_artifact :: persisted_artifact
  ss_metadata :: metadata
  ss_idempotency :: "(string \<times> idempotency_record) list"

record custody_files = lease_files +
  cu_sessions :: "(string \<times> persisted_session) list"

type_synonym 'a custody_prog = "(custody_files, file_error, 'a) prog"

record crypto =
  cy_sha256 :: "string \<Rightarrow> string"
  cy_sha256url :: "string \<Rightarrow> string"
  cy_encrypt :: "string \<Rightarrow> string \<Rightarrow> string \<Rightarrow> string \<times> string"
  cy_decrypt :: "string \<Rightarrow> string \<Rightarrow> string \<Rightarrow> string \<Rightarrow> string option"

record encrypted_store =
  es_providerId :: string
  es_encryptionKey :: string
  es_metadata :: "metadata option"
  es_requireLease :: bool

definition store_version :: string where
  "store_version = ''local-encrypted-file-store-v1''"

definition encryptionAlgorithm :: string where
  "encryptionAlgorithm = ''aes-256-gcm''"

definition normalizeEncryptionKey :: "string \<Rightarrow> file_error + string" where
  "normalizeEncryptionKey key = (if length key \<noteq> 32 then Inl (Thrown ''local_store_invalid_encryption_key'') else Inr key)"

definition new_encrypted_store :: "string \<Rightarrow> string \<Rightarrow> metadata option \<Rightarrow> bool \<Rightarrow> file_error + encrypted_store" where
  "new_encrypted_store providerId encryptionKey meta requireLease =
     (case normalizeEncryptionKey encryptionKey of
        Inl e \<Rightarrow> Inl e
      | Inr key \<Rightarrow> Inr \<lparr>es_providerId = providerId, es_encryptionKey = key, es_metadata = meta, es_requireLease = requireLease\<rparr>)"

definition artifact_fits :: "session_artifact \<Rightarrow> bool" where
  "artifact_fits a = (length (sa_bytes a) \<le> 256000)"

subsection \<open>The text of a write request\<close>

definition json_escape :: "char \<Rightarrow> string" where
  "json_escape c =
     (if c = CHR 0x22 then [CHR 0x5C, CHR 0x22]
      else if c = CHR 0x5C then [CHR 0x5C, CHR 0x5C]
      else if c = CHR 0x08 then CHR 0x5C # ''b''
      else if c = CHR 0x09 then CHR 0x5C # ''t''
      else if c = CHR 0x0A then CHR 0x5C # ''n''
      else if c = CHR 0x0C then CHR 0x5C # ''f''
      else if c = CHR 0x0D then CHR 0x5C # ''r''
      else if of_char c < (32 :: nat) then
        CHR 0x5C # ''u00'' @ [if of_char c < (16 :: nat) then CHR ''0'' else CHR ''1'', ''0123456789abcdef'' ! (of_char c mod 16)]
      else [c])"

definition json_string :: "string \<Rightarrow> string" where
  "json_string s = CHR 0x22 # concat (map json_escape s) @ [CHR 0x22]"

definition json_int :: "int \<Rightarrow> string" where
  "json_int n = (if n < 0 then CHR ''-'' # nat_digits (nat (- n)) else nat_digits (nat n))"

fun json_items :: "string list \<Rightarrow> string" where
  "json_items [] = ''''"
| "json_items [x] = x"
| "json_items (x # y # ys) = x @ CHR '','' # json_items (y # ys)"

definition json_array :: "string list \<Rightarrow> string" where
  "json_array xs = CHR ''['' # json_items xs @ '']''"

fun js_string_less :: "string \<Rightarrow> string \<Rightarrow> bool" where
  "js_string_less _ [] = False"
| "js_string_less [] (_ # _) = True"
| "js_string_less (a # as) (b # bs) =
     (of_char a < (of_char b :: nat) \<or> a = b \<and> js_string_less as bs)"

fun insert_entry :: "string \<times> string \<Rightarrow> metadata \<Rightarrow> metadata" where
  "insert_entry x [] = [x]"
| "insert_entry x (y # ys) = (if js_string_less (fst y) (fst x) then y # insert_entry x ys else x # y # ys)"

definition sortedMetadata :: "metadata \<Rightarrow> metadata" where
  "sortedMetadata m = foldr insert_entry m []"

definition json_metadata :: "metadata \<Rightarrow> string" where
  "json_metadata m = json_array (map (\<lambda>(k, v). json_array [json_string k, json_string v]) (sortedMetadata m))"

definition some_metadata :: "metadata option \<Rightarrow> metadata" where
  "some_metadata m = (case m of None \<Rightarrow> [] | Some x \<Rightarrow> x)"

definition request_text :: "crypto \<Rightarrow> write_request \<Rightarrow> string" where
  "request_text cy inp =
     json_array
       [json_string (wq_providerInstanceId inp), json_int (wq_expectedGeneration inp), json_string (wq_leaseId inp),
        json_string (sa_providerId (wq_nextArtifact inp)), json_string (artifact_kind_name (sa_kind (wq_nextArtifact inp))),
        json_string (sa_formatVersion (wq_nextArtifact inp)), json_string (sa_contentType (wq_nextArtifact inp)),
        json_string (cy_sha256 cy (sa_bytes (wq_nextArtifact inp))), json_metadata (some_metadata (wq_metadata inp))]"

definition hashWriteRequest :: "crypto \<Rightarrow> write_request \<Rightarrow> string" where
  "hashWriteRequest cy inp = cy_sha256 cy (request_text cy inp)"

subsection \<open>Records\<close>

definition spread :: "metadata \<Rightarrow> metadata \<Rightarrow> metadata" where
  "spread a b = fold (\<lambda>(k, v). AList.update k v) b a"

definition encryptRecord ::
  "crypto \<Rightarrow> string \<Rightarrow> string \<Rightarrow> string \<Rightarrow> string \<Rightarrow> session_artifact \<Rightarrow> int \<Rightarrow> string \<Rightarrow> metadata \<Rightarrow>
   (string \<times> idempotency_record) list \<Rightarrow> persisted_session" where
  "encryptRecord cy key nonce providerInstanceId providerId a generation generationHash meta idem =
     (let (encrypted, authTag) = cy_encrypt cy key nonce (sa_bytes a) in
      \<lparr>ss_providerInstanceId = providerInstanceId, ss_providerId = providerId, ss_generation = generation,
       ss_generationHash = generationHash,
       ss_artifact = \<lparr>pa_kind = sa_kind a, pa_formatVersion = sa_formatVersion a, pa_contentType = sa_contentType a,
         pa_encryptedBytes = encrypted, pa_nonce = nonce, pa_authTag = authTag, pa_algorithm = encryptionAlgorithm\<rparr>,
       ss_metadata = meta, ss_idempotency = idem\<rparr>)"

definition decryptArtifact :: "crypto \<Rightarrow> persisted_session \<Rightarrow> string \<Rightarrow> file_error + session_artifact" where
  "decryptArtifact cy record key =
     (if pa_algorithm (ss_artifact record) \<noteq> encryptionAlgorithm then Inl (Thrown ''local_store_unsupported_algorithm'')
      else case cy_decrypt cy key (pa_nonce (ss_artifact record)) (pa_encryptedBytes (ss_artifact record)) (pa_authTag (ss_artifact record)) of
        None \<Rightarrow> Inl (Thrown ''Unsupported state or unable to authenticate data'')
      | Some bytes \<Rightarrow> Inr
          \<lparr>sa_kind = pa_kind (ss_artifact record), sa_providerId = ss_providerId record, sa_formatVersion = pa_formatVersion (ss_artifact record),
           sa_bytes = bytes, sa_contentType = pa_contentType (ss_artifact record)\<rparr>)"

definition canVerifyLegacyReplay ::
  "persisted_session \<Rightarrow> idempotency_record \<Rightarrow> write_request \<Rightarrow> metadata option \<Rightarrow> string \<Rightarrow> string \<Rightarrow> bool" where
  "canVerifyLegacyReplay existing replay inp meta generationHash artifactHash =
     (ss_generation existing = ir_generation replay \<and> wq_expectedGeneration inp = ir_generation replay - 1 \<and>
      ir_generationHash replay = generationHash \<and> ss_generationHash existing = generationHash \<and>
      ir_artifactHash replay = artifactHash \<and> map_of (ss_metadata existing) ''leaseId'' = Some (wq_leaseId inp) \<and>
      pa_kind (ss_artifact existing) = sa_kind (wq_nextArtifact inp) \<and>
      pa_formatVersion (ss_artifact existing) = sa_formatVersion (wq_nextArtifact inp) \<and>
      pa_contentType (ss_artifact existing) = sa_contentType (wq_nextArtifact inp) \<and>
      json_metadata (ss_metadata existing) =
        json_metadata (AList.update ''leaseId'' (wq_leaseId inp) (spread (spread [] (some_metadata meta)) (some_metadata (wq_metadata inp)))))"

subsection \<open>Operations\<close>

definition readRecord :: "string \<Rightarrow> persisted_session option custody_prog" where
  "readRecord providerInstanceId = getP (\<lambda>s. map_of (cu_sessions s) providerInstanceId)"

definition writeRecord :: "string \<Rightarrow> persisted_session \<Rightarrow> unit custody_prog" where
  "writeRecord providerInstanceId record =
     do_io (\<lambda>s. s\<lparr>cu_sessions := AList.update providerInstanceId record (cu_sessions s)\<rparr>)"

definition es_read :: "crypto \<Rightarrow> encrypted_store \<Rightarrow> string \<Rightarrow> string option \<Rightarrow> session_envelope option custody_prog" where
  "es_read cy st providerInstanceId expectedProviderId =
     bindP (readRecord providerInstanceId) (\<lambda>r.
       case r of
         None \<Rightarrow> retP None
       | Some record \<Rightarrow>
           if ss_providerInstanceId record \<noteq> providerInstanceId then throwE ''local_store_record_boundary_mismatch''
           else if (case truthy expectedProviderId of None \<Rightarrow> False | Some e \<Rightarrow> e \<noteq> ss_providerId record) then retP None
           else bindP (checkP (decryptArtifact cy record (es_encryptionKey st))) (\<lambda>a. retP (Some
             \<lparr>se_providerInstanceId = ss_providerInstanceId record, se_providerId = ss_providerId record, se_artifact = a,
              se_generation = ss_generation record, se_generationHash = ss_generationHash record,
              se_storageVersion = store_version, se_custody = LocalOnly, se_metadata = ss_metadata record\<rparr>)))"

definition es_replay ::
  "crypto \<Rightarrow> encrypted_store \<Rightarrow> write_request \<Rightarrow> persisted_session \<Rightarrow> idempotency_record \<Rightarrow> write_result custody_prog" where
  "es_replay cy st inp existing replay =
     (let requestHash = hashWriteRequest cy inp;
          nextGenerationHash = computeSessionGenerationHash (cy_sha256url cy) (wq_nextArtifact inp);
          nextArtifactHash = cy_sha256 cy (sa_bytes (wq_nextArtifact inp));
          acknowledge = thenP (guard_recordReceipt (wq_providerInstanceId inp) (wq_leaseId inp) (ir_generationHash replay) (wq_idempotencyKey inp))
            (retP (WriteReplay (ir_generation replay) (ir_generationHash replay)))
      in case truthy (ir_requestHash replay) of
           None \<Rightarrow>
             if \<not> canVerifyLegacyReplay existing replay inp (es_metadata st) nextGenerationHash nextArtifactHash
             then throwE ''local_store_legacy_idempotency_unverifiable''
             else thenP (writeRecord (wq_providerInstanceId inp) (existing\<lparr>ss_idempotency :=
                    AList.update (wq_idempotencyKey inp) (replay\<lparr>ir_requestHash := Some requestHash\<rparr>) (ss_idempotency existing)\<rparr>))
                  acknowledge
         | Some h \<Rightarrow>
             if h \<noteq> requestHash \<or> ir_artifactHash replay \<noteq> nextArtifactHash then throwE ''idempotency_key_conflict''
             else acknowledge)"

definition next_record :: "crypto \<Rightarrow> encrypted_store \<Rightarrow> string \<Rightarrow> write_request \<Rightarrow> persisted_session option \<Rightarrow> persisted_session" where
  "next_record cy st nonce inp existing =
     (let nextGenerationHash = computeSessionGenerationHash (cy_sha256url cy) (wq_nextArtifact inp);
          generation = (case existing of None \<Rightarrow> 1 | Some r \<Rightarrow> ss_generation r + 1)
      in encryptRecord cy (es_encryptionKey st) nonce (wq_providerInstanceId inp) (es_providerId st) (wq_nextArtifact inp) generation
           nextGenerationHash
           (AList.update ''leaseId'' (wq_leaseId inp)
             (spread (spread (case existing of None \<Rightarrow> [] | Some r \<Rightarrow> ss_metadata r) (some_metadata (es_metadata st))) (some_metadata (wq_metadata inp))))
           (AList.update (wq_idempotencyKey inp)
             \<lparr>ir_generation = generation, ir_generationHash = nextGenerationHash,
              ir_artifactHash = cy_sha256 cy (sa_bytes (wq_nextArtifact inp)), ir_requestHash = Some (hashWriteRequest cy inp)\<rparr>
             (case existing of None \<Rightarrow> [] | Some r \<Rightarrow> ss_idempotency r)))"

definition es_publish ::
  "crypto \<Rightarrow> encrypted_store \<Rightarrow> string \<Rightarrow> write_request \<Rightarrow> date \<Rightarrow> persisted_session option \<Rightarrow> write_result custody_prog" where
  "es_publish cy st nonce inp now existing =
     thenP (guard_authorize (wq_providerInstanceId inp) (wq_leaseId inp) (case existing of None \<Rightarrow> '''' | Some r \<Rightarrow> ss_generationHash r)
              (existing = None \<and> wq_expectedGeneration inp = 0) (es_requireLease st) now)
       (let record = next_record cy st nonce inp existing in
        thenP (writeRecord (wq_providerInstanceId inp) record)
          (thenP (guard_recordReceipt (wq_providerInstanceId inp) (wq_leaseId inp) (ss_generationHash record) (wq_idempotencyKey inp))
            (retP (WriteAccepted (ss_generation record) (ss_generationHash record)))))"

definition es_write :: "crypto \<Rightarrow> encrypted_store \<Rightarrow> string \<Rightarrow> write_request \<Rightarrow> date \<Rightarrow> write_result custody_prog" where
  "es_write cy st nonce inp now =
     (if \<not> artifact_fits (wq_nextArtifact inp) then throwE ''session_artifact_too_large''
      else if sa_providerId (wq_nextArtifact inp) \<noteq> es_providerId st then throwE ''provider_id_mismatch''
      else bindP (readRecord (wq_providerInstanceId inp)) (\<lambda>existing.
        case existing of
          None \<Rightarrow>
            if wq_expectedGeneration inp \<noteq> 0 then retP (WriteStale 0 '''')
            else es_publish cy st nonce inp now None
        | Some r \<Rightarrow>
            if ss_providerInstanceId r \<noteq> wq_providerInstanceId inp \<or> ss_providerId r \<noteq> es_providerId st
            then throwE ''local_store_record_boundary_mismatch''
            else case map_of (ss_idempotency r) (wq_idempotencyKey inp) of
              Some replay \<Rightarrow> es_replay cy st inp r replay
            | None \<Rightarrow>
                if ss_generation r \<noteq> wq_expectedGeneration inp then retP (WriteStale (ss_generation r) (ss_generationHash r))
                else es_publish cy st nonce inp now (Some r)))"

definition es_delete :: "string \<Rightarrow> unit custody_prog" where
  "es_delete providerInstanceId = do_io (\<lambda>s. s\<lparr>cu_sessions := AList.delete providerInstanceId (cu_sessions s)\<rparr>)"

end
