(* ===== verification/Lease_Laws.thy ===== *)
theory Lease_Laws
  imports Session_Custody
begin

text \<open>
  What the operations of the lease store do to its files. Every operation is a sequence of
  elementary moves of the files, whatever fails on the way and wherever the process dies; what a
  move keeps, every operation keeps.
\<close>

section \<open>Moves of the lease files\<close>

definition same_grant :: "persisted_lease \<Rightarrow> persisted_lease \<Rightarrow> bool" where
  "same_grant a r =
     (pl_leaseId a = pl_leaseId r \<and> pl_providerInstanceId a = pl_providerInstanceId r \<and> pl_expiresAt a = pl_expiresAt r \<and>
      pl_restoredGenerationHash a = pl_restoredGenerationHash r)"

definition unused_id :: "string \<Rightarrow> 'z lease_files_scheme \<Rightarrow> bool" where
  "unused_id i s = (map_of (lf_records s) i = None \<and> list_all (\<lambda>(p, a). pl_leaseId a \<noteq> i) (lf_active s))"

lemma unused_idD: "unused_id i s \<Longrightarrow> map_of (lf_active s) p = Some a \<Longrightarrow> pl_leaseId a \<noteq> i"
  by (auto simp: unused_id_def list_all_iff dest: map_of_SomeD)

text \<open>
  The parameters say which active records may be dropped, which records may be rewritten to what
  and which records may be granted.
\<close>

inductive lease_move ::
  "(persisted_lease \<Rightarrow> bool) \<Rightarrow> (persisted_lease \<Rightarrow> persisted_lease \<Rightarrow> bool) \<Rightarrow> (persisted_lease \<Rightarrow> bool) \<Rightarrow>
   'z lease_files_scheme \<Rightarrow> 'z lease_files_scheme \<Rightarrow> bool"
  for D C G where
  draw: "lease_move D C G s (s\<lparr>lf_outcomes := os\<rparr>)"
| rewrite: "map_of (lf_records s) (pl_leaseId r') = Some r \<Longrightarrow> C r r' \<Longrightarrow>
    lease_move D C G s (s\<lparr>lf_records := AList.update (pl_leaseId r') r' (lf_records s)\<rparr>)"
| point: "map_of (lf_records s) (pl_leaseId r) = Some r \<Longrightarrow> map_of (lf_active s) (pl_providerInstanceId r) = Some a \<Longrightarrow>
    pl_leaseId a = pl_leaseId r \<Longrightarrow>
    lease_move D C G s (s\<lparr>lf_active := AList.update (pl_providerInstanceId r) r (lf_active s)\<rparr>)"
| unpoint: "map_of (lf_active s) p = Some a \<Longrightarrow> D a \<Longrightarrow> lease_move D C G s (s\<lparr>lf_active := AList.delete p (lf_active s)\<rparr>)"
| create: "unused_id (pl_leaseId r) s \<Longrightarrow> G r \<Longrightarrow>
    lease_move D C G s (s\<lparr>lf_records := AList.update (pl_leaseId r) r (lf_records s)\<rparr>)"
| claim: "map_of (lf_records s) (pl_leaseId r) = Some r \<Longrightarrow> G r \<Longrightarrow> map_of (lf_active s) (pl_providerInstanceId r) = None \<Longrightarrow>
    lease_move D C G s (s\<lparr>lf_active := AList.update (pl_providerInstanceId r) r (lf_active s)\<rparr>)"
| retract: "map_of (lf_records s) (pl_leaseId r) = Some r \<Longrightarrow> G r \<Longrightarrow>
    lease_move D C G s (s\<lparr>lf_records := AList.delete (pl_leaseId r) (lf_records s)\<rparr>)"

abbreviation lease_moves where
  "lease_moves D C G \<equiv> (lease_move D C G)\<^sup>*\<^sup>*"

interpretation lease_run: state_preorder "lease_moves D C G" for D C G
  by unfold_locales auto

lemma do_io_result: "\<exists>os. snd (do_io eff s) = s\<lparr>lf_outcomes := os\<rparr> \<or> snd (do_io eff s) = eff (s\<lparr>lf_outcomes := os\<rparr>)"
proof (cases "lf_outcomes s")
  case Nil
  then have "s = s\<lparr>lf_outcomes := []\<rparr>" by simp
  moreover from Nil have "snd (do_io eff s) = eff s" by (simp add: do_io_def)
  ultimately have "snd (do_io eff s) = eff (s\<lparr>lf_outcomes := []\<rparr>)" by simp
  then show ?thesis by blast
next
  case (Cons o' os)
  then show ?thesis by (cases o') (auto simp: do_io_def Let_def)
qed

lemma do_io_returns:
  assumes "do_io eff s = (Inr (), t)"
  shows "\<exists>os. t = eff (s\<lparr>lf_outcomes := os\<rparr>)"
proof (cases "lf_outcomes s")
  case Nil
  then have "s = s\<lparr>lf_outcomes := []\<rparr>" by simp
  moreover from Nil assms have "t = eff s" by (simp add: do_io_def)
  ultimately have "t = eff (s\<lparr>lf_outcomes := []\<rparr>)" by simp
  then show ?thesis by blast
next
  case (Cons o' os)
  with assms show ?thesis by (cases o') (auto simp: do_io_def Let_def)
qed

lemma do_io_moves:
  assumes "\<And>os. lease_move D C G (s\<lparr>lf_outcomes := os\<rparr>) (eff (s\<lparr>lf_outcomes := os\<rparr>))"
  shows "lease_moves D C G s (snd (do_io eff s))"
proof -
  obtain os where "snd (do_io eff s) = s\<lparr>lf_outcomes := os\<rparr> \<or> snd (do_io eff s) = eff (s\<lparr>lf_outcomes := os\<rparr>)"
    using do_io_result by blast
  moreover have "lease_move D C G s (s\<lparr>lf_outcomes := os\<rparr>)" by (rule lease_move.draw)
  ultimately show ?thesis using assms [of os] by (metis (no_types, lifting) r_into_rtranclp rtranclp.rtrancl_into_rtrancl)
qed

section \<open>Every operation is made of moves\<close>

lemma remove_active_moves:
  assumes "\<And>a. map_of (lf_active s) (pl_providerInstanceId r) = Some a \<Longrightarrow> pl_leaseId a = pl_leaseId r \<Longrightarrow> D a"
  shows "lease_moves D C G s (snd (removeActiveIfMatchesLocked r s))"
  using assms
  by (auto simp: removeActiveIfMatchesLocked_def readActive_def split: option.splits intro!: do_io_moves lease_move.unpoint)

lemma write_record_returns:
  "writeLeaseRecord False r s = (Inr (), t) \<Longrightarrow> \<exists>os. t = s\<lparr>lf_outcomes := os, lf_records := AList.update (pl_leaseId r) r (lf_records s)\<rparr>"
  using do_io_returns by (fastforce simp: writeLeaseRecord_def readLeaseRecord_def)

lemma persist_moves:
  assumes "map_of (lf_records s) (pl_leaseId r') = Some r" "C r r'"
  shows "lease_moves D C G s (snd (persistLeaseTransitionLocked r' s))"
  unfolding persistLeaseTransitionLocked_def
proof (rule lease_run.run_then)
  show "lease_moves D C G s (snd (writeLeaseRecord False r' s))"
    using assms by (auto simp: writeLeaseRecord_def readLeaseRecord_def intro!: do_io_moves lease_move.rewrite)
next
  fix t assume "writeLeaseRecord False r' s = (Inr (), t)"
  then have "map_of (lf_records t) (pl_leaseId r') = Some r'" using write_record_returns by (fastforce simp: update_conv')
  then show "lease_moves D C G t (snd (bindP (readActive (pl_providerInstanceId r')) (\<lambda>active.
       if (case active of None \<Rightarrow> False | Some a \<Rightarrow> pl_leaseId a = pl_leaseId r') then writeActiveRecord False r' else retP ()) t))"
    by (auto simp: readActive_def writeActiveRecord_def split: option.splits intro!: do_io_moves lease_move.point)
qed

lemma assert_current:
  "assertCurrentLeaseLocked now r s = (Inr (), t) \<Longrightarrow>
     t = s \<and> pl_state r \<noteq> LsReleased \<and> pl_state r \<noteq> LsCommitted \<and> \<not> isExpired r now \<and>
     (\<exists>a. map_of (lf_active s) (pl_providerInstanceId r) = Some a \<and> pl_leaseId a = pl_leaseId r)"
  by (auto simp: assertCurrentLeaseLocked_def readActive_def throwE_def split: if_splits option.splits)

lemma assert_current_state [simp]: "snd (assertCurrentLeaseLocked now r s) = s"
  by (simp add: assertCurrentLeaseLocked_def readActive_def throwE_def split: option.splits)

text \<open>A rewrite of a lease record other than the recording of a receipt.\<close>

definition advances :: "bool \<Rightarrow> persisted_lease \<Rightarrow> persisted_lease \<Rightarrow> bool" where
  "advances receipts r r' =
     (same_grant r r' \<and> pl_state r \<noteq> LsCommitted \<and> pl_persistedWrite r' = pl_persistedWrite r \<and>
      (pl_state r' = LsCommitted \<longrightarrow> (\<exists>h k. pl_nextGenerationHash r' = Some h \<and> pl_idempotencyKey r' = Some k \<and>
         (pl_persistedWrite r = Some \<lparr>pw_generationHash = h, pw_idempotencyKey = k\<rparr> \<or>
          pl_persistedWrite r = None \<and> (receipts \<longrightarrow> h = pl_restoredGenerationHash r)))))"

definition receives :: "string \<Rightarrow> string \<Rightarrow> string \<Rightarrow> persisted_lease \<Rightarrow> persisted_lease \<Rightarrow> bool" where
  "receives p h k r r' =
     (pl_providerInstanceId r = p \<and> pl_persistedWrite r = None \<and> r' = r\<lparr>pl_persistedWrite := Some \<lparr>pw_generationHash = h, pw_idempotencyKey = k\<rparr>\<rparr>)"

definition granted_as :: "string \<Rightarrow> acquire_input \<Rightarrow> persisted_lease \<Rightarrow> bool" where
  "granted_as random inp r =
     (pl_leaseId r = ''local-file-lease:'' @ random \<and> pl_providerInstanceId r = aq_providerInstanceId inp \<and>
      pl_restoredGenerationHash r = aq_restoredGenerationHash inp \<and> pl_state r = LsActive \<and> pl_persistedWrite r = None)"

abbreviation keyed_records :: "'z lease_files_scheme \<Rightarrow> bool" where
  "keyed_records s \<equiv> (\<forall>i r. map_of (lf_records s) i = Some r \<longrightarrow> pl_leaseId r = i)"

lemma finalize_moves:
  assumes "keyed_records s"
  shows "lease_moves D (advances rr) G s (snd (lf_finalize i h now stamp s))"
  unfolding lf_finalize_def requireLeaseRecord_def readLeaseRecord_def Let_def
  using assms
  by (auto simp: throwE_def bindP_assoc thenP_def [of "persistLeaseTransitionLocked _"] advances_def same_grant_def
      split: option.splits sum.splits intro!: lease_run.run_then lease_run.run_bind persist_moves dest!: assert_current)

lemma started_moves:
  assumes "keyed_records s"
  shows "lease_moves D (advances rr) G s (snd (lf_markWritebackStarted i key now stamp s))"
  unfolding lf_markWritebackStarted_def requireLeaseRecord_def readLeaseRecord_def
  using assms
  by (auto simp: throwE_def bindP_assoc advances_def same_grant_def
      split: option.splits sum.splits intro!: lease_run.run_then persist_moves dest!: assert_current)

lemma release_moves:
  assumes "keyed_records s"
  shows "lease_moves (\<lambda>a. pl_leaseId a = i) (advances rr) G s (snd (lf_release i reason stamp s))"
  unfolding lf_release_def readLeaseRecord_def
  using assms
  by (auto simp: Let_def advances_def same_grant_def
      split: option.splits sum.splits intro!: lease_run.run_then persist_moves remove_active_moves)

lemma commit_moves:
  assumes "map_of (lf_records s) (pl_leaseId r) = Some r" "pl_state r \<noteq> LsCommitted"
    "pl_persistedWrite r = Some \<lparr>pw_generationHash = h, pw_idempotencyKey = k\<rparr> \<or>
     pl_persistedWrite r = None \<and> (rr \<longrightarrow> h = pl_restoredGenerationHash r)"
  shows "lease_moves (\<lambda>a. pl_leaseId a = pl_leaseId r) (advances rr) G s (snd (lease_commit r h k stamp s))"
  unfolding lease_commit_def Let_def
  using assms
  by (auto simp: advances_def same_grant_def
      split: sum.splits intro!: lease_run.run_then persist_moves remove_active_moves)

lemma committed_moves:
  assumes "keyed_records s"
  shows "lease_moves (\<lambda>a. pl_leaseId a = i) (advances rr) G s (snd (lf_markWritebackCommitted rr i h k now stamp s))"
proof (cases "map_of (lf_records s) i")
  case (Some r)
  then have r: "map_of (lf_records s) (pl_leaseId r) = Some r" "pl_leaseId r = i" using assms by auto
  show ?thesis
  proof (cases "pl_persistedWrite r")
    case (Some w)
    with r commit_moves [OF r(1), of h k rr G stamp] \<open>map_of (lf_records s) i = Some r\<close> show ?thesis
      by (cases w) (auto simp: lf_markWritebackCommitted_def requireLeaseRecord_def readLeaseRecord_def bindP_assoc
          intro!: lease_run.run_then remove_active_moves)
  next
    case None
    with r commit_moves [OF r(1), of h k rr G stamp] \<open>map_of (lf_records s) i = Some r\<close> show ?thesis
      by (auto simp: lf_markWritebackCommitted_def requireLeaseRecord_def readLeaseRecord_def bindP_assoc throwE_def Let_def
          intro!: lease_run.run_then remove_active_moves dest!: assert_current)
  qed
qed (simp add: lf_markWritebackCommitted_def requireLeaseRecord_def readLeaseRecord_def bindP_assoc throwE_def)

lemma receipt_moves:
  assumes "keyed_records s"
  shows "lease_moves D (receives p h k) G s (snd (guard_recordReceipt p i h k s))"
  unfolding guard_recordReceipt_def requireLeaseRecord_def readLeaseRecord_def
  using assms
  by (auto simp: throwE_def bindP_assoc receives_def split: option.splits intro!: persist_moves)

lemma made_record:
  "makeLeaseRecord random inp now e = Inr r \<Longrightarrow> granted_as random inp r \<and> pl_expiresAt r = e"
  by (auto simp: makeLeaseRecord_def iso_date_def granted_as_def split: sum.splits if_splits)

lemma write_new_record_returns:
  "writeLeaseRecord True r s = (Inr (), t) \<Longrightarrow> \<exists>os. t = s\<lparr>lf_outcomes := os, lf_records := AList.update (pl_leaseId r) r (lf_records s)\<rparr>"
  using do_io_returns
  by (fastforce simp: writeLeaseRecord_def readLeaseRecord_def thenP_def bindP_def split: if_splits sum.splits prod.splits)

lemma io_skip_moves: "lease_moves D C G s (snd (thenP (do_io (\<lambda>s. s)) (throwP e) s))"
proof (rule lease_run.run_then)
  show "lease_moves D C G s (snd (do_io (\<lambda>s. s) s))"
    using do_io_result [of "\<lambda>s. s" s] lease_move.draw by (metis r_into_rtranclp)
qed simp

lemma claim_moves:
  assumes "map_of (lf_records s) (pl_leaseId r) = Some r" "G r"
  shows "lease_moves D C G s (snd (writeActiveRecord True r s))"
  using assms io_skip_moves
  by (auto simp: writeActiveRecord_def readActive_def intro!: do_io_moves lease_move.claim)

lemma io_skip_records: "lf_records (snd (thenP (do_io (\<lambda>s. s)) (throwP e) s)) = lf_records s"
  using do_io_result [of "\<lambda>s. s" s] by (auto simp: thenP_def bindP_def split: prod.splits sum.splits)

lemma active_write_records: "lf_records (snd (writeActiveRecord b r s)) = lf_records s"
proof -
  have "lf_records (snd (do_io (\<lambda>s. s\<lparr>lf_active := f s\<rparr>) s)) = lf_records s" for f :: "'a lease_files_scheme \<Rightarrow> _"
    using do_io_result [of "\<lambda>s. s\<lparr>lf_active := f s\<rparr>" s] by auto
  then show ?thesis by (simp add: writeActiveRecord_def readActive_def io_skip_records)
qed

lemma grant_moves:
  assumes "unused_id (''local-file-lease:'' @ random) s"
  shows "lease_moves D C (granted_as random inp) s (snd (lease_grant random inp now s))"
proof (cases "makeLeaseRecord random inp now (newDate (js_add (getTime now) (aq_ttlMs inp)))")
  case (Inr r)
  then have r: "granted_as random inp r" "pl_leaseId r = ''local-file-lease:'' @ random" using made_record by (auto simp: granted_as_def)
  have u: "unused_id (pl_leaseId r) s" using assms r(2) by simp
  let ?claim = "thenP (writeActiveRecord True r) (retP (LeaseGranted (pl_leaseId r) (pl_expiresAt r)))"
  let ?undo = "\<lambda>e. thenP (removeLeaseRecord (pl_leaseId r)) (if e = AlreadyExists then retP (LeaseDenied leased_message) else throwP e)"
  have "lease_moves D C (granted_as random inp) s (snd (thenP (writeLeaseRecord True r) (tryP ?claim ?undo) s))"
  proof (rule lease_run.run_then)
    show "lease_moves D C (granted_as random inp) s (snd (writeLeaseRecord True r s))"
      using u r(1) by (auto simp: writeLeaseRecord_def readLeaseRecord_def unused_id_def intro!: do_io_moves lease_move.create)
  next
    fix t assume "writeLeaseRecord True r s = (Inr (), t)"
    then have t: "map_of (lf_records t) (pl_leaseId r) = Some r" using write_new_record_returns by (fastforce simp: update_conv')
    then show "lease_moves D C (granted_as random inp) t (snd (tryP ?claim ?undo t))"
      unfolding tryP_def
    proof (intro lease_run.run_catch)
      show "lease_moves D C (granted_as random inp) t (snd (?claim t))"
        using claim_moves [of t r "granted_as random inp" D C, OF t r(1)] by (auto intro: lease_run.run_then)
    next
      fix e u assume "?claim t = (Inl e, u)"
      then have "map_of (lf_records u) (pl_leaseId r) = Some r"
        using active_write_records [of True r t] t by (auto simp: thenP_def bindP_def split: prod.splits sum.splits)
      then show "lease_moves D C (granted_as random inp) u (snd ((if e = Crashed then throwP Crashed else ?undo e) u))"
        using r(1) by (auto simp: removeLeaseRecord_def intro!: lease_run.run_then do_io_moves lease_move.retract)
    qed
  qed
  with Inr show ?thesis by (simp add: lease_grant_def)
qed (simp add: lease_grant_def)

lemma remove_active_returns:
  assumes "removeActiveIfMatchesLocked a s = (Inr (), t)" "unused_id i s"
  shows "unused_id i t"
proof -
  have "unused_id i (s\<lparr>lf_outcomes := os, lf_active := AList.delete q (lf_active s)\<rparr>)" for os q
    using assms(2) by (auto simp: unused_id_def list_all_iff AList.delete_eq)
  with assms show ?thesis
    by (auto simp: removeActiveIfMatchesLocked_def readActive_def split: option.splits if_splits dest!: do_io_returns)
qed

abbreviation keyed_active :: "'z lease_files_scheme \<Rightarrow> bool" where
  "keyed_active s \<equiv> (\<forall>p a. map_of (lf_active s) p = Some a \<longrightarrow> pl_providerInstanceId a = p)"

lemma acquire_moves:
  assumes "unused_id (''local-file-lease:'' @ random) s" "keyed_active s"
  shows "lease_moves (\<lambda>a. pl_providerInstanceId a = aq_providerInstanceId inp \<and> isExpired a now) C (granted_as random inp) s (snd (lf_acquire random inp now s))"
proof (cases "map_of (lf_active s) (aq_providerInstanceId inp)")
  case None
  then show ?thesis using grant_moves [OF assms(1)] by (simp add: lf_acquire_def readActive_def throwE_def)
next
  case (Some a)
  have "lease_moves (\<lambda>a. pl_providerInstanceId a = aq_providerInstanceId inp \<and> isExpired a now) C (granted_as random inp) s (snd (thenP (removeActiveIfMatchesLocked a) (lease_grant random inp now) s))"
    if "isExpired a now"
  proof (rule lease_run.run_then)
    show "lease_moves (\<lambda>a. pl_providerInstanceId a = aq_providerInstanceId inp \<and> isExpired a now) C (granted_as random inp) s (snd (removeActiveIfMatchesLocked a s))"
      using that Some assms(2) by (auto intro!: remove_active_moves)
  qed (use remove_active_returns assms grant_moves in blast)
  with Some show ?thesis by (simp add: lf_acquire_def readActive_def throwE_def)
qed

section \<open>What the moves keep\<close>

definition files_ok :: "'z lease_files_scheme \<Rightarrow> bool" where
  "files_ok s =
     (keyed_records s \<and> keyed_active s \<and>
      (\<forall>p a r. map_of (lf_active s) p = Some a \<longrightarrow> map_of (lf_records s) (pl_leaseId a) = Some r \<longrightarrow> same_grant a r))"

definition holds_lease :: "string \<Rightarrow> string \<Rightarrow> date \<Rightarrow> 'z lease_files_scheme \<Rightarrow> bool" where
  "holds_lease p i e s = (\<exists>a. map_of (lf_active s) p = Some a \<and> pl_leaseId a = i \<and> pl_expiresAt a = e)"

lemma files_okI:
  assumes "\<And>i r. map_of (lf_records s) i = Some r \<Longrightarrow> pl_leaseId r = i"
    and "\<And>p a. map_of (lf_active s) p = Some a \<Longrightarrow> pl_providerInstanceId a = p"
    and "\<And>p a r. map_of (lf_active s) p = Some a \<Longrightarrow> map_of (lf_records s) (pl_leaseId a) = Some r \<Longrightarrow> same_grant a r"
  shows "files_ok s"
  unfolding files_ok_def using assms by blast

lemma files_okD:
  assumes "files_ok s"
  shows "map_of (lf_records s) i = Some r \<Longrightarrow> pl_leaseId r = i"
    and "map_of (lf_active s) p = Some a \<Longrightarrow> pl_providerInstanceId a = p"
    and "map_of (lf_active s) p = Some a \<Longrightarrow> map_of (lf_records s) (pl_leaseId a) = Some r \<Longrightarrow> same_grant a r"
  using assms unfolding files_ok_def by blast+

lemma same_grant_refl: "same_grant r r"
  by (simp add: same_grant_def)

lemma files_ok_move:
  assumes "lease_move D C G s t" "files_ok s" "\<And>r r'. C r r' \<Longrightarrow> same_grant r r'"
  shows "files_ok t"
proof -
  note ok = files_okD [OF assms(2)]
  from assms(1) show ?thesis
  proof cases
    case (draw os)
    with assms(2) show ?thesis by (simp add: files_ok_def)
  next
    case (rewrite r' r)
    have new: "same_grant a r'" if "map_of (lf_active s) p = Some a" "pl_leaseId a = pl_leaseId r'" for p a
      using ok(3) [OF that(1)] rewrite(2) assms(3) [OF rewrite(3)] that(2) by (simp add: same_grant_def)
    show ?thesis unfolding rewrite(1) by (rule files_okI) (auto split: if_splits dest: ok(1,2) intro: ok(3) new)
  next
    case (point r a)
    show ?thesis unfolding point(1) using point(2)
      by (intro files_okI) (auto split: if_splits dest: ok(1,2) intro: ok(3) same_grant_refl)
  next
    case (unpoint p a)
    show ?thesis unfolding unpoint(1)
      by (rule files_okI) (auto simp: map_of_AList_delete split: if_splits dest: ok(1,2) intro: ok(3))
  next
    case (create r)
    show ?thesis unfolding create(1) using create(2)
      by (intro files_okI) (auto split: if_splits dest: ok(1,2) unused_idD intro: ok(3))
  next
    case (claim r)
    show ?thesis unfolding claim(1) using claim(2)
      by (intro files_okI) (auto split: if_splits dest: ok(1,2) intro: ok(3) same_grant_refl)
  next
    case (retract r)
    show ?thesis unfolding retract(1)
      by (rule files_okI) (auto simp: map_of_AList_delete split: if_splits dest: ok(1,2) intro: ok(3))
  qed
qed

lemma holds_lease_move:
  assumes "lease_move D C G s t" "files_ok s" "holds_lease p i e s"
    and "\<And>a. D a \<Longrightarrow> pl_providerInstanceId a = p \<Longrightarrow> pl_leaseId a = i \<Longrightarrow> pl_expiresAt a = e \<Longrightarrow> False"
  shows "holds_lease p i e t"
  using assms(1)
proof cases
  case (point r a)
  then have "same_grant a r" using files_okD(3) [OF assms(2)] by simp
  with point assms(3) show ?thesis by (auto simp: holds_lease_def map_of_AList_update same_grant_def)
next
  case (unpoint q a)
  with assms(3) assms(4) [of a] files_okD(2) [OF assms(2)] show ?thesis by (auto simp: holds_lease_def)
qed (use assms(3) in \<open>auto simp: holds_lease_def\<close>)

lemma lease_moves_keep:
  assumes "lease_moves D C G s t" "files_ok s" "\<And>r r'. C r r' \<Longrightarrow> same_grant r r'"
  shows files_ok_moves: "files_ok t"
    and holds_lease_moves: "holds_lease p i e s \<Longrightarrow>
      (\<And>a. D a \<Longrightarrow> pl_providerInstanceId a = p \<Longrightarrow> pl_leaseId a = i \<Longrightarrow> pl_expiresAt a = e \<Longrightarrow> False) \<Longrightarrow> holds_lease p i e t"
proof -
  have "files_ok t \<and> (holds_lease p i e s \<longrightarrow> (\<forall>a. D a \<longrightarrow> pl_providerInstanceId a = p \<longrightarrow> pl_leaseId a = i \<longrightarrow> pl_expiresAt a = e \<longrightarrow> False) \<longrightarrow> holds_lease p i e t)"
    using assms(1)
  proof induction
    case base
    then show ?case using assms(2) by simp
  next
    case (step t u)
    then show ?case using files_ok_move [OF step.hyps(2)] holds_lease_move [OF step.hyps(2)] assms(3) by blast
  qed
  then show "files_ok t"
    and "holds_lease p i e s \<Longrightarrow> (\<And>a. D a \<Longrightarrow> pl_providerInstanceId a = p \<Longrightarrow> pl_leaseId a = i \<Longrightarrow> pl_expiresAt a = e \<Longrightarrow> False) \<Longrightarrow> holds_lease p i e t"
    by blast+
qed

lemma sessions_moves: "lease_moves D C G s t \<Longrightarrow> cu_sessions t = cu_sessions s"
  by (induction rule: rtranclp_induct) (auto elim!: lease_move.cases)

lemma advances_same: "advances rr r r' \<Longrightarrow> same_grant r r'"
  by (simp add: advances_def)

lemma receives_same: "receives p h k r r' \<Longrightarrow> same_grant r r'"
  by (simp add: receives_def same_grant_def)

text \<open>What a granted acquisition tells: nobody held the lease, or the holder's time had run out.\<close>

lemma grant_returns:
  assumes "lease_grant random inp now s = (Inr (LeaseGranted i e), t)"
  shows "i = ''local-file-lease:'' @ random \<and> e = newDate (js_add (getTime now) (aq_ttlMs inp)) \<and>
    valid_date e \<and> holds_lease (aq_providerInstanceId inp) i e t"
proof (cases "makeLeaseRecord random inp now (newDate (js_add (getTime now) (aq_ttlMs inp)))")
  case (Inr r)
  have tail: "(tryP (thenP (writeActiveRecord True r) (retP (LeaseGranted (pl_leaseId r) (pl_expiresAt r))))
      (\<lambda>e. thenP (removeLeaseRecord (pl_leaseId r)) (if e = AlreadyExists then retP (LeaseDenied leased_message) else throwP e))) u
      = (Inr (LeaseGranted i e), t) \<Longrightarrow> writeActiveRecord True r u = (Inr (), t) \<and> i = pl_leaseId r \<and> e = pl_expiresAt r" for u
    by (auto simp: tryP_def catchP_def thenP_def bindP_def split: prod.splits sum.splits if_splits)
  have claimed: "writeActiveRecord True r u = (Inr (), t) \<Longrightarrow> map_of (lf_active t) (pl_providerInstanceId r) = Some r" for u
    using do_io_returns
    by (fastforce simp: writeActiveRecord_def readActive_def thenP_def bindP_def map_of_AList_update split: if_splits prod.splits sum.splits)
  from Inr have "granted_as random inp r" "pl_expiresAt r = newDate (js_add (getTime now) (aq_ttlMs inp))" "valid_date (pl_expiresAt r)"
    using made_record by (auto simp: makeLeaseRecord_def iso_date_def split: sum.splits if_splits)
  with Inr assms tail claimed show ?thesis
    by (fastforce simp: lease_grant_def thenP_def [of "writeLeaseRecord _ _"] bindP_def [of "writeLeaseRecord _ _"] holds_lease_def granted_as_def
        split: prod.splits sum.splits)
qed (use assms in \<open>simp add: lease_grant_def\<close>)

lemma acquire_returns:
  assumes "lf_acquire random inp now s = (Inr (LeaseGranted i e), t)"
  shows "i = ''local-file-lease:'' @ random \<and> e = newDate (js_add (getTime now) (aq_ttlMs inp)) \<and> valid_date e \<and>
    holds_lease (aq_providerInstanceId inp) i e t \<and>
    (\<forall>a. map_of (lf_active s) (aq_providerInstanceId inp) = Some a \<longrightarrow> isExpired a now)"
proof -
  have "\<exists>u. lease_grant random inp now u = (Inr (LeaseGranted i e), t)" and
    "\<forall>a. map_of (lf_active s) (aq_providerInstanceId inp) = Some a \<longrightarrow> isExpired a now"
    using assms
    by (auto simp: lf_acquire_def readActive_def throwE_def thenP_def bindP_def split: if_splits option.splits prod.splits sum.splits)
  then show ?thesis using grant_returns by blast
qed

end
