(* ===== verification/Custody_Laws.thy ===== *)
theory Custody_Laws
  imports Lease_Laws
begin

text \<open>
  What the encrypted session store does to the files: every write is a sequence of moves, each a
  move of the lease files that records a receipt, the upgrade of a receipt of the older format, or
  the publication of the next generation under the authority of the caller's lease. The session
  record has an invariant of its own, and stands for a versioned register that is written by
  compare and swap.
\<close>

section \<open>Moves of a write\<close>

definition published :: "custody_files \<Rightarrow> string \<Rightarrow> string \<Rightarrow> string \<Rightarrow> bool" where
  "published s p k h =
     (\<exists>ses ir. map_of (cu_sessions s) p = Some ses \<and> map_of (ss_idempotency ses) k = Some ir \<and> ir_generationHash ir = h)"

definition authorized :: "encrypted_store \<Rightarrow> write_request \<Rightarrow> date \<Rightarrow> persisted_session option \<Rightarrow> custody_files \<Rightarrow> bool" where
  "authorized st inp now existing s =
     (fst (guard_authorize (wq_providerInstanceId inp) (wq_leaseId inp) (case existing of None \<Rightarrow> '''' | Some r \<Rightarrow> ss_generationHash r)
             (existing = None \<and> wq_expectedGeneration inp = 0) (es_requireLease st) now s) = Inr ())"

definition next_allowed :: "encrypted_store \<Rightarrow> write_request \<Rightarrow> persisted_session option \<Rightarrow> bool" where
  "next_allowed st inp existing =
     (case existing of
        None \<Rightarrow> wq_expectedGeneration inp = 0
      | Some r \<Rightarrow> ss_providerInstanceId r = wq_providerInstanceId inp \<and> ss_providerId r = es_providerId st \<and>
          map_of (ss_idempotency r) (wq_idempotencyKey inp) = None \<and> ss_generation r = wq_expectedGeneration inp)"

inductive write_move ::
  "crypto \<Rightarrow> encrypted_store \<Rightarrow> string \<Rightarrow> write_request \<Rightarrow> date \<Rightarrow> custody_files \<Rightarrow> custody_files \<Rightarrow> bool"
  for cy st nonce inp now where
  receipt: "published s (wq_providerInstanceId inp) (wq_idempotencyKey inp) h \<Longrightarrow>
    lease_move (\<lambda>_. False) (receives (wq_providerInstanceId inp) h (wq_idempotencyKey inp)) (\<lambda>_. False) s t \<Longrightarrow>
    write_move cy st nonce inp now s t"
| draw_outcome: "write_move cy st nonce inp now s (s\<lparr>lf_outcomes := os\<rparr>)"
| upgrade: "map_of (cu_sessions s) (wq_providerInstanceId inp) = Some r \<Longrightarrow>
    map_of (ss_idempotency r) (wq_idempotencyKey inp) = Some ir \<Longrightarrow>
    write_move cy st nonce inp now s (s\<lparr>cu_sessions := AList.update (wq_providerInstanceId inp)
      (r\<lparr>ss_idempotency := AList.update (wq_idempotencyKey inp) (ir\<lparr>ir_requestHash := Some (hashWriteRequest cy inp)\<rparr>) (ss_idempotency r)\<rparr>)
      (cu_sessions s)\<rparr>)"
| publish: "map_of (cu_sessions s) (wq_providerInstanceId inp) = existing \<Longrightarrow> artifact_fits (wq_nextArtifact inp) \<Longrightarrow>
    sa_providerId (wq_nextArtifact inp) = es_providerId st \<Longrightarrow> next_allowed st inp existing \<Longrightarrow> authorized st inp now existing s \<Longrightarrow>
    write_move cy st nonce inp now s (s\<lparr>cu_sessions := AList.update (wq_providerInstanceId inp) (next_record cy st nonce inp existing)
      (cu_sessions s)\<rparr>)"

abbreviation write_moves where
  "write_moves cy st nonce inp now \<equiv> (write_move cy st nonce inp now)\<^sup>*\<^sup>*"

interpretation write_run: state_preorder "write_moves cy st nonce inp now" for cy st nonce inp now
  by unfold_locales auto

lemma published_sessions: "cu_sessions s = cu_sessions t \<Longrightarrow> published s = published t"
  by (simp add: published_def fun_eq_iff)

lemma receipt_write_moves:
  assumes "lease_moves (\<lambda>_. False) (receives (wq_providerInstanceId inp) h (wq_idempotencyKey inp)) (\<lambda>_. False) s t"
    "published s (wq_providerInstanceId inp) (wq_idempotencyKey inp) h"
  shows "write_moves cy st nonce inp now s t"
  using assms(1)
proof induction
  case (step t u)
  have "published t = published s" using step.hyps(1) sessions_moves published_sessions by metis
  then have "write_move cy st nonce inp now t u" using step.hyps(2) assms(2) by (auto intro: write_move.receipt)
  with step.IH show ?case by simp
qed simp

lemma record_receipt_moves:
  assumes "files_ok s" "published s (wq_providerInstanceId inp) (wq_idempotencyKey inp) h"
  shows "write_moves cy st nonce inp now s (snd (thenP (guard_recordReceipt (wq_providerInstanceId inp) i h (wq_idempotencyKey inp)) (retP x) s))"
proof (rule write_run.run_then)
  have "keyed_records s" using files_okD(1) [OF assms(1)] by blast
  then show "write_moves cy st nonce inp now s (snd (guard_recordReceipt (wq_providerInstanceId inp) i h (wq_idempotencyKey inp) s))"
    using receipt_moves receipt_write_moves assms(2) by blast
qed simp

lemma session_io_moves:
  assumes "\<And>os. write_move cy st nonce inp now (s\<lparr>lf_outcomes := os\<rparr>) (eff (s\<lparr>lf_outcomes := os\<rparr>))"
  shows "write_moves cy st nonce inp now s (snd (do_io eff s))"
proof -
  obtain os where "snd (do_io eff s) = s\<lparr>lf_outcomes := os\<rparr> \<or> snd (do_io eff s) = eff (s\<lparr>lf_outcomes := os\<rparr>)"
    using do_io_result by blast
  moreover have "write_move cy st nonce inp now s (s\<lparr>lf_outcomes := os\<rparr>)" by (rule write_move.draw_outcome)
  ultimately show ?thesis using assms [of os] by (metis (no_types, lifting) r_into_rtranclp rtranclp.rtrancl_into_rtrancl)
qed

lemma write_session_returns:
  "writeRecord p r s = (Inr (), t) \<Longrightarrow> \<exists>os. t = s\<lparr>lf_outcomes := os, cu_sessions := AList.update p r (cu_sessions s)\<rparr>"
  using do_io_returns by (fastforce simp: writeRecord_def)

lemma files_ok_sessions: "files_ok (s\<lparr>lf_outcomes := os, cu_sessions := x\<rparr>) = files_ok s"
  by (simp add: files_ok_def)

lemma authorize_state [simp]: "snd (guard_authorize p i h b rl now s) = s"
  by (auto simp: guard_authorize_def requireLeaseRecord_def readLeaseRecord_def readActive_def throwE_def bindP_assoc thenP_def bindP_def
      assertCurrentLeaseLocked_def split: option.splits prod.splits sum.splits if_splits)

lemma authorize_outcomes: "fst (guard_authorize p i h b rl now (s\<lparr>lf_outcomes := os\<rparr>)) = fst (guard_authorize p i h b rl now s)"
  by (auto simp: guard_authorize_def requireLeaseRecord_def readLeaseRecord_def readActive_def throwE_def bindP_assoc thenP_def bindP_def
      assertCurrentLeaseLocked_def split: option.splits prod.splits sum.splits if_splits)

lemma encrypted_fields [simp]:
  "ss_generation (encryptRecord cy key nonce p prov a g h m idem) = g"
  "ss_generationHash (encryptRecord cy key nonce p prov a g h m idem) = h"
  "ss_idempotency (encryptRecord cy key nonce p prov a g h m idem) = idem"
  "ss_providerInstanceId (encryptRecord cy key nonce p prov a g h m idem) = p"
  "ss_providerId (encryptRecord cy key nonce p prov a g h m idem) = prov"
  "ss_metadata (encryptRecord cy key nonce p prov a g h m idem) = m"
  by (simp_all add: encryptRecord_def split: prod.splits)

abbreviation artifact_hash :: "crypto \<Rightarrow> write_request \<Rightarrow> string" where
  "artifact_hash cy inp \<equiv> computeSessionGenerationHash (cy_sha256url cy) (wq_nextArtifact inp)"

definition receipt_of :: "crypto \<Rightarrow> write_request \<Rightarrow> int \<Rightarrow> idempotency_record" where
  "receipt_of cy inp g =
     \<lparr>ir_generation = g, ir_generationHash = artifact_hash cy inp, ir_artifactHash = cy_sha256 cy (sa_bytes (wq_nextArtifact inp)),
      ir_requestHash = Some (hashWriteRequest cy inp)\<rparr>"

lemma next_fields:
  "ss_generation (next_record cy st nonce inp existing) = (case existing of None \<Rightarrow> 1 | Some r \<Rightarrow> ss_generation r + 1)"
  "ss_generationHash (next_record cy st nonce inp existing) = artifact_hash cy inp"
  "ss_providerInstanceId (next_record cy st nonce inp existing) = wq_providerInstanceId inp"
  "ss_providerId (next_record cy st nonce inp existing) = es_providerId st"
  "map_of (ss_idempotency (next_record cy st nonce inp existing)) =
     (map_of (case existing of None \<Rightarrow> [] | Some r \<Rightarrow> ss_idempotency r))
       (wq_idempotencyKey inp \<mapsto> receipt_of cy inp (case existing of None \<Rightarrow> 1 | Some r \<Rightarrow> ss_generation r + 1))"
  by (simp_all add: next_record_def receipt_of_def Let_def split: option.splits)

lemma publish_moves:
  assumes "files_ok s" "map_of (cu_sessions s) (wq_providerInstanceId inp) = existing" "artifact_fits (wq_nextArtifact inp)"
    "sa_providerId (wq_nextArtifact inp) = es_providerId st" "next_allowed st inp existing"
  shows "write_moves cy st nonce inp now s (snd (es_publish cy st nonce inp now existing s))"
  unfolding es_publish_def Let_def
proof (rule write_run.run_then)
  fix t assume auth: "guard_authorize (wq_providerInstanceId inp) (wq_leaseId inp) (case existing of None \<Rightarrow> '''' | Some r \<Rightarrow> ss_generationHash r)
    (existing = None \<and> wq_expectedGeneration inp = 0) (es_requireLease st) now s = (Inr (), t)"
  then have t: "t = s" using authorize_state by (metis snd_conv)
  let ?r = "next_record cy st nonce inp existing"
  show "write_moves cy st nonce inp now t (snd (thenP (writeRecord (wq_providerInstanceId inp) ?r)
    (thenP (guard_recordReceipt (wq_providerInstanceId inp) (wq_leaseId inp) (ss_generationHash ?r) (wq_idempotencyKey inp))
      (retP (WriteAccepted (ss_generation ?r) (ss_generationHash ?r)))) t))"
  proof (rule write_run.run_then)
    have "write_move cy st nonce inp now (s\<lparr>lf_outcomes := os\<rparr>)
        (s\<lparr>lf_outcomes := os, cu_sessions := AList.update (wq_providerInstanceId inp) ?r (cu_sessions s)\<rparr>)" for os
      using write_move.publish [of "s\<lparr>lf_outcomes := os\<rparr>" inp existing st now cy nonce] assms auth
      by (simp add: authorized_def authorize_outcomes)
    then show "write_moves cy st nonce inp now t (snd (writeRecord (wq_providerInstanceId inp) ?r t))"
      unfolding writeRecord_def t by (intro session_io_moves) simp
  next
    fix u assume "writeRecord (wq_providerInstanceId inp) ?r t = (Inr (), u)"
    then obtain os where u: "u = s\<lparr>lf_outcomes := os, cu_sessions := AList.update (wq_providerInstanceId inp) ?r (cu_sessions s)\<rparr>"
      using write_session_returns t by blast
    have "published u (wq_providerInstanceId inp) (wq_idempotencyKey inp) (ss_generationHash ?r)"
      by (simp add: u published_def next_fields receipt_of_def)
    moreover have "files_ok u" using assms(1) by (simp add: u files_ok_sessions)
    ultimately show "write_moves cy st nonce inp now u (snd (thenP (guard_recordReceipt (wq_providerInstanceId inp) (wq_leaseId inp)
      (ss_generationHash ?r) (wq_idempotencyKey inp)) (retP (WriteAccepted (ss_generation ?r) (ss_generationHash ?r))) u))"
      by (intro record_receipt_moves)
  qed
qed simp

lemma replay_moves:
  assumes "files_ok s" "map_of (cu_sessions s) (wq_providerInstanceId inp) = Some r" "map_of (ss_idempotency r) (wq_idempotencyKey inp) = Some ir"
  shows "write_moves cy st nonce inp now s (snd (es_replay cy st inp r ir s))"
proof -
  let ?ack = "thenP (guard_recordReceipt (wq_providerInstanceId inp) (wq_leaseId inp) (ir_generationHash ir) (wq_idempotencyKey inp))
    (retP (WriteReplay (ir_generation ir) (ir_generationHash ir)))"
  let ?up = "r\<lparr>ss_idempotency := AList.update (wq_idempotencyKey inp) (ir\<lparr>ir_requestHash := Some (hashWriteRequest cy inp)\<rparr>) (ss_idempotency r)\<rparr>"
  have "published s (wq_providerInstanceId inp) (wq_idempotencyKey inp) (ir_generationHash ir)" using assms by (simp add: published_def)
  then have ack: "write_moves cy st nonce inp now s (snd (?ack s))" using assms(1) by (intro record_receipt_moves)
  have "write_moves cy st nonce inp now s (snd (thenP (writeRecord (wq_providerInstanceId inp) ?up) ?ack s))"
  proof (rule write_run.run_then)
    have "write_move cy st nonce inp now (s\<lparr>lf_outcomes := os\<rparr>)
        (s\<lparr>lf_outcomes := os, cu_sessions := AList.update (wq_providerInstanceId inp) ?up (cu_sessions s)\<rparr>)" for os
      using write_move.upgrade [of "s\<lparr>lf_outcomes := os\<rparr>" inp r ir cy st nonce now] assms by simp
    then show "write_moves cy st nonce inp now s (snd (writeRecord (wq_providerInstanceId inp) ?up s))"
      unfolding writeRecord_def by (intro session_io_moves) simp
  next
    fix u assume "writeRecord (wq_providerInstanceId inp) ?up s = (Inr (), u)"
    then obtain os where u: "u = s\<lparr>lf_outcomes := os, cu_sessions := AList.update (wq_providerInstanceId inp) ?up (cu_sessions s)\<rparr>"
      using write_session_returns by blast
    have "published u (wq_providerInstanceId inp) (wq_idempotencyKey inp) (ir_generationHash ir)" by (simp add: u published_def)
    moreover have "files_ok u" using assms(1) by (simp add: u files_ok_sessions)
    ultimately show "write_moves cy st nonce inp now u (snd (?ack u))" by (intro record_receipt_moves)
  qed
  with ack show ?thesis by (simp add: es_replay_def Let_def throwE_def split: option.splits)
qed

lemma write_op_moves:
  assumes "files_ok s"
  shows "write_moves cy st nonce inp now s (snd (es_write cy st nonce inp now s))"
proof (cases "map_of (cu_sessions s) (wq_providerInstanceId inp)")
  case None
  with publish_moves [OF assms, of inp None st cy nonce now] show ?thesis
    by (simp add: es_write_def readRecord_def throwE_def next_allowed_def)
next
  case (Some r)
  with publish_moves [OF assms, of inp "Some r" st cy nonce now] replay_moves [OF assms Some] show ?thesis
    by (simp add: es_write_def readRecord_def throwE_def next_allowed_def split: option.splits)
qed

section \<open>The session record\<close>

definition receipt_generation :: "persisted_session \<Rightarrow> string \<Rightarrow> int" where
  "receipt_generation ses k = (case map_of (ss_idempotency ses) k of None \<Rightarrow> 0 | Some ir \<Rightarrow> ir_generation ir)"

definition receipt_hash :: "persisted_session \<Rightarrow> string \<Rightarrow> string option" where
  "receipt_hash ses k = map_option ir_generationHash (map_of (ss_idempotency ses) k)"

text \<open>Every generation of a session was published under exactly one key, the latest with the hash the record names.\<close>

definition session_ok :: "string \<Rightarrow> persisted_session \<Rightarrow> bool" where
  "session_ok p ses =
     (ss_providerInstanceId ses = p \<and> 1 \<le> ss_generation ses \<and>
      bij_betw (receipt_generation ses) (dom (receipt_hash ses)) {1..ss_generation ses} \<and>
      (\<exists>k. receipt_generation ses k = ss_generation ses \<and> receipt_hash ses k = Some (ss_generationHash ses)))"

definition sessions_ok :: "custody_files \<Rightarrow> bool" where
  "sessions_ok s = (\<forall>p ses. map_of (cu_sessions s) p = Some ses \<longrightarrow> session_ok p ses)"

lemma upgrade_receipts:
  assumes "map_of (ss_idempotency r) k = Some ir"
  shows "receipt_generation (r\<lparr>ss_idempotency := AList.update k (ir\<lparr>ir_requestHash := x\<rparr>) (ss_idempotency r)\<rparr>) = receipt_generation r"
    "receipt_hash (r\<lparr>ss_idempotency := AList.update k (ir\<lparr>ir_requestHash := x\<rparr>) (ss_idempotency r)\<rparr>) = receipt_hash r"
  using assms by (auto simp: receipt_generation_def receipt_hash_def fun_eq_iff)

lemma next_receipts:
  "receipt_generation (next_record cy st nonce inp (Some r)) = (receipt_generation r)(wq_idempotencyKey inp := ss_generation r + 1)"
  "receipt_hash (next_record cy st nonce inp (Some r)) = (receipt_hash r)(wq_idempotencyKey inp \<mapsto> artifact_hash cy inp)"
  "receipt_generation (next_record cy st nonce inp None) = (\<lambda>_. 0)(wq_idempotencyKey inp := 1)"
  "receipt_hash (next_record cy st nonce inp None) = [wq_idempotencyKey inp \<mapsto> artifact_hash cy inp]"
  by (auto simp: receipt_generation_def receipt_hash_def next_fields receipt_of_def fun_eq_iff)

lemma session_ok_first: "session_ok (wq_providerInstanceId inp) (next_record cy st nonce inp None)"
proof -
  have "bij_betw ((\<lambda>_. 0)(k := 1)) {k} {1..(1::int)}" for k :: string by (simp add: bij_betw_def)
  then show ?thesis
    by (auto simp: session_ok_def next_receipts next_fields intro!: exI [of _ "wq_idempotencyKey inp"])
qed

lemma bij_betw_extend:
  assumes "bij_betw f D {1..g}" "k \<notin> D" "0 \<le> (g :: int)"
  shows "bij_betw (f(k := g + 1)) (insert k D) {1..g + 1}"
proof -
  have inj: "inj_on f D" and img: "f ` D = {1..g}" using assms(1) by (simp_all add: bij_betw_def)
  have same: "(f(k := g + 1)) ` D = {1..g}" unfolding img [symmetric] using assms(2) by (intro image_cong) auto
  have "inj_on (f(k := g + 1)) D" by (rule inj_on_fun_updI [OF inj]) (simp add: img)
  then have "inj_on (f(k := g + 1)) (insert k D)" using same assms(2) by (simp add: inj_on_insert)
  moreover have "insert (g + 1) {1..g} = {1..g + 1}" using assms(3) by auto
  ultimately show ?thesis using same by (simp add: bij_betw_def del: fun_upd_apply) simp
qed

lemma session_ok_next:
  assumes "session_ok p r" "receipt_hash r (wq_idempotencyKey inp) = None" "wq_providerInstanceId inp = p"
  shows "session_ok p (next_record cy st nonce inp (Some r))"
proof -
  have "bij_betw (receipt_generation r) (dom (receipt_hash r)) {1..ss_generation r}" "1 \<le> ss_generation r"
    using assms(1) by (simp_all add: session_ok_def)
  with assms(2) have "bij_betw ((receipt_generation r)(wq_idempotencyKey inp := ss_generation r + 1))
      (insert (wq_idempotencyKey inp) (dom (receipt_hash r))) {1..ss_generation r + 1}"
    by (intro bij_betw_extend) auto
  with assms(3) \<open>1 \<le> ss_generation r\<close> show ?thesis
    by (auto simp: session_ok_def next_receipts next_fields intro!: exI [of _ "wq_idempotencyKey inp"])
qed

section \<open>Receipts\<close>

text \<open>
  A lease's receipt stands for a publication, and a committed lease carries a receipt or committed
  the generation it had restored.
\<close>

definition backed :: "custody_files \<Rightarrow> persisted_lease \<Rightarrow> bool" where
  "backed s r =
     ((\<forall>w. pl_persistedWrite r = Some w \<longrightarrow> published s (pl_providerInstanceId r) (pw_idempotencyKey w) (pw_generationHash w)) \<and>
      (pl_state r = LsCommitted \<longrightarrow> (\<exists>h k. pl_nextGenerationHash r = Some h \<and> pl_idempotencyKey r = Some k \<and>
         (h = pl_restoredGenerationHash r \<or> pl_persistedWrite r = Some \<lparr>pw_generationHash = h, pw_idempotencyKey = k\<rparr>))))"

definition receipts_ok :: "custody_files \<Rightarrow> bool" where
  "receipts_ok s = (\<forall>i r. map_of (lf_records s) i = Some r \<longrightarrow> backed s r)"

lemma backed_mono:
  "backed s r \<Longrightarrow> (\<And>p k h. published s p k h \<Longrightarrow> published t p k h) \<Longrightarrow> backed t r"
  unfolding backed_def by blast

lemma receipts_mono:
  assumes "receipts_ok s" "lf_records t = lf_records s" "\<And>p k h. published s p k h \<Longrightarrow> published t p k h"
  shows "receipts_ok t"
  using assms(1) backed_mono [OF _ assms(3)] unfolding receipts_ok_def assms(2) by blast

lemma advances_backed:
  assumes "advances True r r'" "backed s r"
  shows "backed s r'"
proof (cases "pl_state r' = LsCommitted")
  case True
  then show ?thesis using assms unfolding advances_def backed_def same_grant_def by (auto; metis)
next
  case False
  then show ?thesis using assms unfolding advances_def backed_def same_grant_def by auto
qed

lemma receives_backed:
  assumes "receives p h k r r'" "published s p k h" "backed s r"
  shows "backed s r'"
  using assms unfolding receives_def backed_def by auto

lemma receipts_move:
  assumes "lease_move D C G s t" "receipts_ok s" "\<And>r r'. C r r' \<Longrightarrow> backed s r \<Longrightarrow> backed s r'" "\<And>r. G r \<Longrightarrow> backed s r"
  shows "receipts_ok t"
proof -
  have "cu_sessions t = cu_sessions s" using assms(1) sessions_moves by blast
  then have b: "backed t = backed s" by (simp add: backed_def fun_eq_iff published_sessions [of t s])
  from assms(1) show ?thesis
    unfolding receipts_ok_def b
  proof cases
    case (rewrite r' r)
    with assms(2) have "backed s r'" using assms(3) unfolding receipts_ok_def by blast
    with assms(2) rewrite(1) show "\<forall>i r. map_of (lf_records t) i = Some r \<longrightarrow> backed s r" by (simp add: receipts_ok_def)
  qed (use assms(2,4) in \<open>auto simp: receipts_ok_def split: if_splits\<close>)
qed

lemma receipts_moves:
  assumes "lease_moves D C G s t" "receipts_ok s" "\<And>u r r'. cu_sessions u = cu_sessions s \<Longrightarrow> C r r' \<Longrightarrow> backed u r \<Longrightarrow> backed u r'"
    "\<And>u r. G r \<Longrightarrow> backed u r"
  shows "receipts_ok t"
  using assms(1)
proof induction
  case (step t u)
  have "cu_sessions t = cu_sessions s" using step.hyps(1) sessions_moves by blast
  then show ?case using receipts_move [OF step.hyps(2) step.IH] assms(3,4) by blast
qed (use assms(2) in simp)

lemma published_publish:
  assumes "published s p k h" "map_of (cu_sessions s) (wq_providerInstanceId inp) = existing" "next_allowed st inp existing"
  shows "published (s\<lparr>cu_sessions := AList.update (wq_providerInstanceId inp) (next_record cy st nonce inp existing) (cu_sessions s)\<rparr>) p k h"
  using assms by (auto simp: published_def next_fields next_allowed_def)

lemma published_upgrade:
  assumes "published s p k h" "map_of (cu_sessions s) q = Some r" "map_of (ss_idempotency r) k' = Some ir"
  shows "published (s\<lparr>cu_sessions := AList.update q
    (r\<lparr>ss_idempotency := AList.update k' (ir\<lparr>ir_requestHash := x\<rparr>) (ss_idempotency r)\<rparr>) (cu_sessions s)\<rparr>) p k h"
  using assms by (auto simp: published_def)

section \<open>What a write keeps\<close>

definition custody_ok :: "custody_files \<Rightarrow> bool" where
  "custody_ok s = (files_ok s \<and> sessions_ok s)"

lemma write_move_files:
  assumes "write_move cy st nonce inp now s t" "files_ok s"
  shows "files_ok t" and "holds_lease p i e s \<Longrightarrow> holds_lease p i e t"
  using assms
  by (auto elim!: write_move.cases simp: files_ok_def holds_lease_def
      dest: files_ok_move [OF _ assms(2) receives_same] holds_lease_move [OF _ assms(2), of _ _ _ _ p i e])

lemma write_move_sessions:
  assumes "write_move cy st nonce inp now s t" "sessions_ok s"
  shows "sessions_ok t"
  using assms(1)
proof cases
  case (receipt h)
  then have "cu_sessions t = cu_sessions s" using sessions_moves by blast
  with assms(2) show ?thesis by (simp add: sessions_ok_def)
next
  case (upgrade r ir)
  then have "session_ok (wq_providerInstanceId inp) r" using assms(2) by (simp add: sessions_ok_def)
  with upgrade assms(2) show ?thesis by (auto simp: sessions_ok_def session_ok_def upgrade_receipts split: if_splits)
next
  case (publish existing)
  have "session_ok (wq_providerInstanceId inp) (next_record cy st nonce inp existing)"
  proof (cases existing)
    case (Some r)
    with publish assms(2) have "session_ok (wq_providerInstanceId inp) r" "receipt_hash r (wq_idempotencyKey inp) = None"
      by (auto simp: sessions_ok_def next_allowed_def receipt_hash_def)
    with Some session_ok_next show ?thesis by simp
  qed (simp add: session_ok_first)
  with publish assms(2) show ?thesis by (auto simp: sessions_ok_def)
qed (use assms(2) in \<open>simp add: sessions_ok_def\<close>)

lemma write_move_receipts:
  assumes "write_move cy st nonce inp now s t" "receipts_ok s"
  shows "receipts_ok t" and "published s p k h \<Longrightarrow> published t p k h"
proof -
  have "receipts_ok t \<and> (\<forall>p k h. published s p k h \<longrightarrow> published t p k h)"
    using assms(1)
  proof cases
    case (receipt h)
    then have "cu_sessions t = cu_sessions s" using sessions_moves by blast
    with receipts_move [OF receipt(2) assms(2)] receives_backed [OF _ receipt(1)] show ?thesis
      by (auto simp: published_sessions [of t s])
  next
    case (upgrade r ir)
    then have "published s p k h \<Longrightarrow> published t p k h" for p k h using published_upgrade by simp
    with upgrade(1) receipts_mono [OF assms(2), of t] show ?thesis by simp
  next
    case (publish existing)
    then have "published s p k h \<Longrightarrow> published t p k h" for p k h using published_publish by blast
    with publish(1) receipts_mono [OF assms(2), of t] show ?thesis by simp
  qed (use assms(2) in \<open>auto simp: receipts_ok_def backed_def published_def\<close>)
  then show "receipts_ok t" and "published s p k h \<Longrightarrow> published t p k h" by blast+
qed

lemma write_keeps:
  assumes "write_moves cy st nonce inp now s t" "custody_ok s"
  shows "custody_ok t" and "holds_lease p i e s \<Longrightarrow> holds_lease p i e t"
    and "receipts_ok s \<Longrightarrow> receipts_ok t" and "receipts_ok s \<Longrightarrow> published s q k h \<Longrightarrow> published t q k h"
proof -
  have "custody_ok t \<and> (holds_lease p i e s \<longrightarrow> holds_lease p i e t) \<and> (receipts_ok s \<longrightarrow> receipts_ok t \<and> (published s q k h \<longrightarrow> published t q k h))"
    using assms(1)
  proof induction
    case (step t u)
    then show ?case
      using write_move_files [OF step.hyps(2)] write_move_sessions [OF step.hyps(2)] write_move_receipts [OF step.hyps(2)]
      unfolding custody_ok_def by blast
  qed (use assms(2) in simp)
  then show "custody_ok t" and "holds_lease p i e s \<Longrightarrow> holds_lease p i e t"
    and "receipts_ok s \<Longrightarrow> receipts_ok t" and "receipts_ok s \<Longrightarrow> published s q k h \<Longrightarrow> published t q k h" by blast+
qed

end
