(* ===== verification/Custody_Histories.thy ===== *)
theory Custody_Histories
  imports Custody_Laws
begin

text \<open>
  Histories of the local backend (\<open>createLocalFileBackendRuntimeAdapters\<close> of
  \<open>src/store-local-file/session-custody/application/local-file-backend-adapters.ts\<close>): any sequence
  of calls of any number of processes on one directory, in the order the provider's lock gives
  them, with failing files and dying processes, and what holds of every such history.
\<close>

section \<open>Definitions\<close>

datatype custody_event =
    CeAcquire string acquire_input date
  | CeFinalize string string date date
  | CeStarted string "string option" date date
  | CeCommitted bool string string string date date
  | CeRelease string string date
  | CeRead encrypted_store string "string option"
  | CeWrite encrypted_store string write_request date
  | CeDelete string

datatype custody_answer =
    AnsLease lease_answer
  | AnsFinalized "string \<times> string"
  | AnsCommit commit_result
  | AnsRead "session_envelope option"
  | AnsWrite write_result
  | AnsVoid

definition answer :: "('a \<Rightarrow> custody_answer) \<Rightarrow> 'a custody_prog \<Rightarrow> custody_answer custody_prog" where
  "answer f m = bindP m (\<lambda>x. retP (f x))"

fun custody_step :: "crypto \<Rightarrow> custody_event \<Rightarrow> custody_answer custody_prog" where
  "custody_step cy (CeAcquire random inp now) = answer AnsLease (lf_acquire random inp now)"
| "custody_step cy (CeFinalize i h now stamp) = answer AnsFinalized (lf_finalize i h now stamp)"
| "custody_step cy (CeStarted i key now stamp) = answer (\<lambda>_. AnsVoid) (lf_markWritebackStarted i key now stamp)"
| "custody_step cy (CeCommitted rr i h k now stamp) = answer AnsCommit (lf_markWritebackCommitted rr i h k now stamp)"
| "custody_step cy (CeRelease i reason stamp) = answer (\<lambda>_. AnsVoid) (lf_release i reason stamp)"
| "custody_step cy (CeRead st p expected) = answer AnsRead (es_read cy st p expected)"
| "custody_step cy (CeWrite st nonce inp now) = answer AnsWrite (es_write cy st nonce inp now)"
| "custody_step cy (CeDelete p) = answer (\<lambda>_. AnsVoid) (es_delete p)"

fun custody_run :: "crypto \<Rightarrow> custody_event list \<Rightarrow> custody_files \<Rightarrow> custody_files" where
  "custody_run cy [] s = s"
| "custody_run cy (ev # evs) s = custody_run cy evs (snd (custody_step cy ev s))"

text \<open>The random bytes of a lease id make it new.\<close>

fun fresh_event :: "custody_event \<Rightarrow> custody_files \<Rightarrow> bool" where
  "fresh_event (CeAcquire random inp now) s = unused_id (''local-file-lease:'' @ random) s"
| "fresh_event _ s = True"

fun fresh_run :: "crypto \<Rightarrow> custody_event list \<Rightarrow> custody_files \<Rightarrow> bool" where
  "fresh_run cy [] s = True"
| "fresh_run cy (ev # evs) s = (fresh_event ev s \<and> fresh_run cy evs (snd (custody_step cy ev s)))"

definition empty_custody :: "io_outcome list \<Rightarrow> custody_files" where
  "empty_custody outcomes = \<lparr>lf_records = [], lf_active = [], lf_outcomes = outcomes, cu_sessions = []\<rparr>"

fun ends_lease :: "string \<Rightarrow> custody_event \<Rightarrow> bool" where
  "ends_lease i (CeCommitted rr i' h k now stamp) = (i' = i)"
| "ends_lease i (CeRelease i' reason stamp) = (i' = i)"
| "ends_lease i _ = False"

fun takes_over :: "string \<Rightarrow> date \<Rightarrow> custody_event \<Rightarrow> bool" where
  "takes_over p e (CeAcquire random inp now) = (aq_providerInstanceId inp = p \<and> date_le e now)"
| "takes_over p e _ = False"

fun is_delete :: "custody_event \<Rightarrow> bool" where
  "is_delete (CeDelete p) = True"
| "is_delete _ = False"

fun with_receipts :: "custody_event \<Rightarrow> bool" where
  "with_receipts (CeCommitted rr i h k now stamp) = rr"
| "with_receipts _ = True"

section \<open>Steps\<close>

lemma answer_state [simp]: "snd (answer f m s) = snd (m s)"
  by (auto simp: answer_def bindP_def split: prod.splits sum.splits)

lemma answer_returns: "answer f m s = (Inr a, t) \<longleftrightarrow> (\<exists>x. m s = (Inr x, t) \<and> a = f x)"
  by (auto simp: answer_def bindP_def split: prod.splits sum.splits)

text \<open>A call on the leases: what it may drop.\<close>

fun may_drop :: "custody_event \<Rightarrow> persisted_lease \<Rightarrow> bool" where
  "may_drop (CeAcquire random inp now) = (\<lambda>a. pl_providerInstanceId a = aq_providerInstanceId inp \<and> isExpired a now)"
| "may_drop (CeCommitted rr i h k now stamp) = (\<lambda>a. pl_leaseId a = i)"
| "may_drop (CeRelease i reason stamp) = (\<lambda>a. pl_leaseId a = i)"
| "may_drop _ = (\<lambda>a. False)"

fun may_grant :: "custody_event \<Rightarrow> persisted_lease \<Rightarrow> bool" where
  "may_grant (CeAcquire random inp now) = granted_as random inp"
| "may_grant _ = (\<lambda>r. False)"

fun on_leases :: "custody_event \<Rightarrow> bool" where
  "on_leases (CeRead st p expected) = True"
| "on_leases (CeWrite st nonce inp now) = False"
| "on_leases (CeDelete p) = False"
| "on_leases _ = True"

lemma read_state [simp]: "snd (es_read cy st p expected s) = s"
  by (auto simp: es_read_def readRecord_def throwE_def split: option.splits sum.splits)

lemma lease_step_moves:
  assumes "files_ok s" "fresh_event ev s" "on_leases ev"
  shows "lease_moves (may_drop ev) (advances (with_receipts ev)) (may_grant ev) s (snd (custody_step cy ev s))"
proof -
  have k: "keyed_records s" "keyed_active s" using files_okD [OF assms(1)] by blast+
  show ?thesis
  proof (cases ev)
    case (CeAcquire random inp now)
    then show ?thesis using acquire_moves [OF _ k(2)] assms(2) by simp
  next
    case (CeFinalize i h now stamp)
    then show ?thesis using finalize_moves [OF k(1)] by simp
  next
    case (CeStarted i key now stamp)
    then show ?thesis using started_moves [OF k(1)] by simp
  next
    case (CeCommitted rr i h k' now stamp)
    then show ?thesis using committed_moves [OF k(1)] by simp
  next
    case (CeRelease i reason stamp)
    then show ?thesis using release_moves [OF k(1)] by simp
  qed (use assms(3) in simp_all)
qed


section \<open>What every step keeps\<close>

lemma delete_state:
  "\<exists>os. snd (es_delete p s) = s\<lparr>lf_outcomes := os\<rparr> \<or> snd (es_delete p s) = s\<lparr>lf_outcomes := os, cu_sessions := AList.delete p (cu_sessions s)\<rparr>"
  using do_io_result [of "\<lambda>s. s\<lparr>cu_sessions := AList.delete p (cu_sessions s)\<rparr>" s] by (simp add: es_delete_def)

lemma custody_ok_step:
  assumes "custody_ok s" "fresh_event ev s"
  shows "custody_ok (snd (custody_step cy ev s))"
proof (cases "on_leases ev")
  case True
  with lease_step_moves [of s ev cy] assms have m: "lease_moves (may_drop ev) (advances (with_receipts ev)) (may_grant ev) s (snd (custody_step cy ev s))"
    by (simp add: custody_ok_def)
  with assms(1) show ?thesis
    using files_ok_moves [OF m _ advances_same] sessions_moves [OF m] by (auto simp: custody_ok_def sessions_ok_def)
next
  case False
  then consider (writing) st nonce inp now where "ev = CeWrite st nonce inp now" | (deleting) p where "ev = CeDelete p"
    by (cases ev) auto
  then show ?thesis
  proof cases
    case writing
    then show ?thesis using write_keeps(1) [OF write_op_moves assms(1)] assms(1) by (simp add: custody_ok_def)
  next
    case deleting
    with delete_state [of p s] assms(1) show ?thesis
      by (auto simp: custody_ok_def files_ok_def sessions_ok_def split: if_splits)
  qed
qed

lemma holds_step:
  assumes "custody_ok s" "fresh_event ev s" "holds_lease p i e s" "\<not> ends_lease i ev"
    and "\<not> takes_over p e ev" "valid_date e"
  shows "holds_lease p i e (snd (custody_step cy ev s))"
proof (cases "on_leases ev")
  case True
  with lease_step_moves [of s ev cy] assms have m: "lease_moves (may_drop ev) (advances (with_receipts ev)) (may_grant ev) s (snd (custody_step cy ev s))"
    by (simp add: custody_ok_def)
  have "\<not> (may_drop ev a \<and> pl_providerInstanceId a = p \<and> pl_leaseId a = i \<and> pl_expiresAt a = e)" for a
    using assms(4-6) by (cases ev) (auto simp: isExpired_def split: date.splits)
  then show ?thesis using holds_lease_moves [OF m _ advances_same assms(3)] assms(1) by (auto simp: custody_ok_def)
next
  case False
  then consider (writing) st nonce inp now where "ev = CeWrite st nonce inp now" | (deleting) q where "ev = CeDelete q"
    by (cases ev) auto
  then show ?thesis
  proof cases
    case writing
    then show ?thesis using write_keeps(2) [OF write_op_moves assms(1) assms(3)] assms(1) by (simp add: custody_ok_def)
  next
    case deleting
    with delete_state [of q s] assms(3) show ?thesis by (auto simp: holds_lease_def)
  qed
qed

lemma custody_ok_run: "custody_ok s \<Longrightarrow> fresh_run cy evs s \<Longrightarrow> custody_ok (custody_run cy evs s)"
  by (induction evs arbitrary: s) (auto simp: custody_ok_step)

lemma custody_ok_empty: "custody_ok (empty_custody outcomes)"
  by (simp add: custody_ok_def files_ok_def sessions_ok_def empty_custody_def)

lemma holds_run:
  assumes "custody_ok s" "fresh_run cy evs s" "holds_lease p i e s" "valid_date e"
    and "\<forall>ev \<in> set evs. \<not> ends_lease i ev \<and> \<not> takes_over p e ev"
  shows "holds_lease p i e (custody_run cy evs s)"
  using assms
proof (induction evs arbitrary: s)
  case (Cons ev evs)
  then show ?case using custody_ok_step [of s ev cy] holds_step [of s ev p i e cy] by auto
qed simp

lemma receipts_step:
  assumes "custody_ok s" "fresh_event ev s" "receipts_ok s" "\<not> is_delete ev" "with_receipts ev"
  shows "receipts_ok (snd (custody_step cy ev s)) \<and> (published s p k h \<longrightarrow> published (snd (custody_step cy ev s)) p k h)"
proof (cases "on_leases ev")
  case True
  with lease_step_moves [of s ev cy] assms have m: "lease_moves (may_drop ev) (advances True) (may_grant ev) s (snd (custody_step cy ev s))"
    by (simp add: custody_ok_def)
  have "may_grant ev r \<Longrightarrow> backed u r" for u r by (cases ev) (auto simp: granted_as_def backed_def)
  then have "receipts_ok (snd (custody_step cy ev s))" using receipts_moves [OF m assms(3)] advances_backed by simp
  then show ?thesis using published_sessions [OF sessions_moves [OF m]] by simp
next
  case False
  then obtain st nonce inp now where ev: "ev = CeWrite st nonce inp now" using assms(4) by (cases ev) auto
  have m: "write_moves cy st nonce inp now s (snd (custody_step cy ev s))"
    using write_op_moves assms(1) by (simp add: ev custody_ok_def)
  show ?thesis using write_keeps(3,4) [OF m assms(1,3)] by blast
qed

lemma receipts_run:
  assumes "custody_ok s" "fresh_run cy evs s" "receipts_ok s" "\<forall>ev \<in> set evs. \<not> is_delete ev \<and> with_receipts ev"
  shows "receipts_ok (custody_run cy evs s) \<and> (published s p k h \<longrightarrow> published (custody_run cy evs s) p k h)"
  using assms
proof (induction evs arbitrary: s)
  case (Cons ev evs)
  then show ?case using custody_ok_step [of s ev cy] receipts_step [of s ev cy p k h] by auto
qed simp

section \<open>Leases that have been superseded\<close>

definition retired :: "string \<Rightarrow> 'z lease_files_scheme \<Rightarrow> bool" where
  "retired i s = (map_of (lf_records s) i \<noteq> None \<and> (\<forall>p a. map_of (lf_active s) p = Some a \<longrightarrow> pl_leaseId a \<noteq> i))"

lemma retired_sessions [simp]: "retired i (s\<lparr>lf_outcomes := os\<rparr>) = retired i s" "retired i (s\<lparr>cu_sessions := x\<rparr>) = retired i s"
  by (simp_all add: retired_def)

lemma retired_move:
  assumes "lease_move D C G s t" "files_ok s" "retired i s" "\<And>r. G r \<Longrightarrow> pl_leaseId r \<noteq> i"
  shows "retired i t"
  using assms(1)
proof cases
  case (retract r)
  with assms(3) assms(4) [of r] show ?thesis by (auto simp: retired_def)
next
  case (claim r)
  with assms(3) assms(4) [of r] show ?thesis by (auto simp: retired_def)
qed (use assms(3) in \<open>auto simp: retired_def split: if_splits\<close>)

lemma retired_moves:
  assumes "lease_moves D C G s t" "files_ok s" "retired i s" "\<And>r. G r \<Longrightarrow> pl_leaseId r \<noteq> i" "\<And>r r'. C r r' \<Longrightarrow> same_grant r r'"
  shows "retired i t"
  using assms(1)
proof induction
  case (step t u)
  then show ?case using retired_move [OF step.hyps(2) files_ok_moves [OF step.hyps(1) assms(2,5)]] assms(4) by blast
qed (use assms(3) in simp)

definition session_content :: "custody_files \<Rightarrow> string \<Rightarrow> persisted_session option" where
  "session_content s p = map_option (\<lambda>r. r\<lparr>ss_idempotency := []\<rparr>) (map_of (cu_sessions s) p)"

lemma authorized_holds:
  assumes "authorized st inp now existing s" "is_lease_id (wq_leaseId inp)"
  shows "\<exists>r a. map_of (lf_records s) (wq_leaseId inp) = Some r \<and> pl_providerInstanceId r = wq_providerInstanceId inp \<and>
    pl_state r = LsWritebackStarted \<and> pl_persistedWrite r = None \<and> \<not> isExpired r now \<and>
    pl_restoredGenerationHash r = (case existing of None \<Rightarrow> '''' | Some x \<Rightarrow> ss_generationHash x) \<and>
    map_of (lf_active s) (wq_providerInstanceId inp) = Some a \<and> pl_leaseId a = pl_leaseId r"
  using assms unfolding authorized_def guard_authorize_def requireLeaseRecord_def readLeaseRecord_def
  by (auto simp: bindP_assoc throwE_def thenP_def assertCurrentLeaseLocked_def readActive_def bindP_def
      split: option.splits if_splits)

lemma authorized_unleased:
  assumes "authorized st inp now existing s" "\<not> is_lease_id (wq_leaseId inp)"
  shows "(\<forall>a. map_of (lf_active s) (wq_providerInstanceId inp) = Some a \<longrightarrow> isExpired a now) \<and>
    (es_requireLease st \<longrightarrow> existing = None \<or> wq_leaseId inp = ''seed-local-file-backend'')"
  using assms unfolding authorized_def guard_authorize_def
  by (auto simp: throwE_def readActive_def split: option.splits if_splits)

lemma retired_write_move:
  assumes "write_move cy st nonce inp now s t" "files_ok s" "retired i s"
  shows "retired i t" and "wq_leaseId inp = i \<Longrightarrow> is_lease_id i \<Longrightarrow> session_content t = session_content s"
proof -
  have "retired i t \<and> (wq_leaseId inp = i \<longrightarrow> is_lease_id i \<longrightarrow> session_content t = session_content s)"
    using assms(1)
  proof cases
    case (receipt h)
    then have "cu_sessions t = cu_sessions s" using sessions_moves by blast
    with retired_move [OF receipt(2) assms(2,3)] show ?thesis by (simp add: session_content_def fun_eq_iff)
  next
    case (publish existing)
    have "\<not> (wq_leaseId inp = i \<and> is_lease_id i)"
      using authorized_holds [OF publish(6)] assms(3) files_okD(1) [OF assms(2)] unfolding retired_def by metis
    with publish(1) assms(3) show ?thesis by simp
  qed (use assms(3) in \<open>auto simp: session_content_def fun_eq_iff\<close>)
  then show "retired i t" and "wq_leaseId inp = i \<Longrightarrow> is_lease_id i \<Longrightarrow> session_content t = session_content s" by blast+
qed

lemma retired_write:
  assumes "write_moves cy st nonce inp now s t" "files_ok s" "retired i s"
  shows "retired i t" and "wq_leaseId inp = i \<Longrightarrow> is_lease_id i \<Longrightarrow> session_content t = session_content s"
proof -
  have "files_ok t \<and> retired i t \<and> (wq_leaseId inp = i \<longrightarrow> is_lease_id i \<longrightarrow> session_content t = session_content s)"
    using assms(1)
  proof induction
    case (step t u)
    then have "files_ok t" "retired i t" by simp_all
    with step.IH show ?case
      using write_move_files(1) [OF step.hyps(2)] retired_write_move [OF step.hyps(2), of i] by simp
  qed (use assms in simp)
  then show "retired i t" and "wq_leaseId inp = i \<Longrightarrow> is_lease_id i \<Longrightarrow> session_content t = session_content s" by blast+
qed

lemma retired_step:
  assumes "custody_ok s" "fresh_event ev s" "retired i s"
  shows "retired i (snd (custody_step cy ev s))"
proof (cases "on_leases ev")
  case True
  with lease_step_moves [of s ev cy] assms have m: "lease_moves (may_drop ev) (advances (with_receipts ev)) (may_grant ev) s (snd (custody_step cy ev s))"
    by (simp add: custody_ok_def)
  have "may_grant ev r \<Longrightarrow> pl_leaseId r \<noteq> i" for r
    using assms(2,3) by (cases ev) (auto simp: granted_as_def unused_id_def retired_def)
  then show ?thesis using retired_moves [OF m _ assms(3) _ advances_same] assms(1) by (simp add: custody_ok_def)
next
  case False
  then consider (writing) st nonce inp now where "ev = CeWrite st nonce inp now" | (deleting) q where "ev = CeDelete q"
    by (cases ev) auto
  then show ?thesis
  proof cases
    case writing
    then show ?thesis using retired_write(1) [OF write_op_moves _ assms(3)] assms(1) by (simp add: custody_ok_def)
  next
    case deleting
    with delete_state [of q s] assms(3) show ?thesis by auto
  qed
qed

lemma retired_run: "custody_ok s \<Longrightarrow> fresh_run cy evs s \<Longrightarrow> retired i s \<Longrightarrow> retired i (custody_run cy evs s)"
  by (induction evs arbitrary: s) (auto simp: custody_ok_step retired_step)

end
