(* ===== verification/Session_Register.thy ===== *)
theory Session_Register
  imports Custody_Histories
begin

text \<open>
  The contract of a session store (\<open>SessionStorePort\<close> of \<open>src/core/ports/index.ts\<close>) as an abstract
  machine: one versioned register per provider instance, written by compare and swap, which
  remembers the outcome of every key it has accepted. The encrypted file store implements it
  through every failure: each call, whatever it answers, is one step of the abstract machine.
\<close>

section \<open>Definitions\<close>

record register =
  rg_providerId :: string
  rg_generation :: int
  rg_hash :: string
  rg_value :: "session_artifact option"
  rg_metadata :: metadata
  rg_receipts :: "string \<rightharpoonup> int \<times> string"

definition reg_next :: "crypto \<Rightarrow> encrypted_store \<Rightarrow> write_request \<Rightarrow> register option \<Rightarrow> register" where
  "reg_next cy st inp reg =
     (let g = (case reg of None \<Rightarrow> 1 | Some r \<Rightarrow> rg_generation r + 1); h = artifact_hash cy inp in
      \<lparr>rg_providerId = es_providerId st, rg_generation = g, rg_hash = h, rg_value = Some (wq_nextArtifact inp),
       rg_metadata = AList.update ''leaseId'' (wq_leaseId inp)
         (spread (spread (case reg of None \<Rightarrow> [] | Some r \<Rightarrow> rg_metadata r) (some_metadata (es_metadata st))) (some_metadata (wq_metadata inp))),
       rg_receipts = (case reg of None \<Rightarrow> Map.empty | Some r \<Rightarrow> rg_receipts r)(wq_idempotencyKey inp \<mapsto> (g, h))\<rparr>)"

definition reg_write :: "crypto \<Rightarrow> encrypted_store \<Rightarrow> write_request \<Rightarrow> register option \<Rightarrow> register option \<times> write_result" where
  "reg_write cy st inp reg =
     (let new = reg_next cy st inp reg; accepted = (Some new, WriteAccepted (rg_generation new) (rg_hash new)) in
      case reg of
        None \<Rightarrow> if wq_expectedGeneration inp = 0 then accepted else (None, WriteStale 0 '''')
      | Some r \<Rightarrow>
          (case rg_receipts r (wq_idempotencyKey inp) of
             Some (g, h) \<Rightarrow> (Some r, WriteReplay g h)
           | None \<Rightarrow> if rg_generation r = wq_expectedGeneration inp then accepted else (Some r, WriteStale (rg_generation r) (rg_hash r))))"

definition reg_read :: "string \<Rightarrow> string option \<Rightarrow> register option \<Rightarrow> session_envelope option" where
  "reg_read p expected reg =
     (case reg of
        None \<Rightarrow> None
      | Some r \<Rightarrow>
          if (case truthy expected of None \<Rightarrow> False | Some e \<Rightarrow> e \<noteq> rg_providerId r) then None
          else map_option (\<lambda>a. \<lparr>se_providerInstanceId = p, se_providerId = rg_providerId r, se_artifact = a,
                 se_generation = rg_generation r, se_generationHash = rg_hash r, se_storageVersion = store_version,
                 se_custody = LocalOnly, se_metadata = rg_metadata r\<rparr>) (rg_value r))"

fun lease_call :: "custody_event \<Rightarrow> bool" where
  "lease_call (CeRead st p expected) = False"
| "lease_call (CeWrite st nonce inp now) = False"
| "lease_call (CeDelete p) = False"
| "lease_call _ = True"

text \<open>One step of the abstract machine, with the answer where the call gives one.\<close>

inductive reg_step ::
  "crypto \<Rightarrow> custody_event \<Rightarrow> file_error + custody_answer \<Rightarrow> (string \<Rightarrow> register option) \<Rightarrow> (string \<Rightarrow> register option) \<Rightarrow> bool"
  for cy where
  reg_failed: "reg_step cy ev (Inl e) R R"
| reg_leases: "lease_call ev \<Longrightarrow> reg_step cy ev (Inr ans) R R"
| reg_read: "x = reg_read p expected (R p) \<Longrightarrow> reg_step cy (CeRead st p expected) (Inr (AnsRead x)) R R"
| reg_written: "reg_write cy st inp (R (wq_providerInstanceId inp)) = (new, w) \<Longrightarrow>
    reg_step cy (CeWrite st nonce inp now) (Inr (AnsWrite w)) R (R(wq_providerInstanceId inp := new))"
| reg_unacknowledged: "reg_write cy st inp (R (wq_providerInstanceId inp)) = (new, w) \<Longrightarrow>
    reg_step cy (CeWrite st nonce inp now) (Inl e) R (R(wq_providerInstanceId inp := new))"
| reg_deleted: "reg_step cy (CeDelete p) ans R (R(p := None))"

text \<open>What a file stands for.\<close>

definition register_of :: "crypto \<Rightarrow> string \<Rightarrow> persisted_session \<Rightarrow> register" where
  "register_of cy key ses =
     \<lparr>rg_providerId = ss_providerId ses, rg_generation = ss_generation ses, rg_hash = ss_generationHash ses,
      rg_value = (case decryptArtifact cy ses key of Inl _ \<Rightarrow> None | Inr a \<Rightarrow> Some a), rg_metadata = ss_metadata ses,
      rg_receipts = (\<lambda>k. map_option (\<lambda>ir. (ir_generation ir, ir_generationHash ir)) (map_of (ss_idempotency ses) k))\<rparr>"

definition registers :: "crypto \<Rightarrow> string \<Rightarrow> custody_files \<Rightarrow> string \<Rightarrow> register option" where
  "registers cy key s p = map_option (register_of cy key) (map_of (cu_sessions s) p)"

text \<open>What the store relies on of AES-GCM: the holder of the key gets back what was encrypted.\<close>

definition crypto_ok :: "crypto \<Rightarrow> bool" where
  "crypto_ok cy = (\<forall>key nonce bytes. case cy_encrypt cy key nonce bytes of (c, tag) \<Rightarrow> cy_decrypt cy key nonce c tag = Some bytes)"

fun keyed_event :: "string \<Rightarrow> custody_event \<Rightarrow> bool" where
  "keyed_event key (CeWrite st nonce inp now) = (es_encryptionKey st = key)"
| "keyed_event key (CeRead st p expected) = (es_encryptionKey st = key)"
| "keyed_event key _ = True"

section \<open>Encryption\<close>

lemma decrypt_next:
  assumes "crypto_ok cy" "sa_providerId (wq_nextArtifact inp) = es_providerId st"
  shows "decryptArtifact cy (next_record cy st nonce inp existing) (es_encryptionKey st) = Inr (wq_nextArtifact inp)"
proof -
  have "cy_decrypt cy k n (fst (cy_encrypt cy k n b)) (snd (cy_encrypt cy k n b)) = Some b" for k n b
    using assms(1) by (simp add: crypto_ok_def case_prod_beta)
  with assms(2) show ?thesis
    by (simp add: decryptArtifact_def next_record_def encryptRecord_def Let_def case_prod_beta)
qed

lemma register_next:
  assumes "crypto_ok cy" "sa_providerId (wq_nextArtifact inp) = es_providerId st"
  shows "register_of cy (es_encryptionKey st) (next_record cy st nonce inp existing) =
    reg_next cy st inp (map_option (register_of cy (es_encryptionKey st)) existing)"
  using decrypt_next [OF assms, of nonce existing]
  by (auto simp: register_of_def reg_next_def next_fields receipt_of_def Let_def next_record_def fun_eq_iff split: option.splits)

lemma register_upgrade:
  assumes "map_of (ss_idempotency r) k = Some ir"
  shows "register_of cy key (r\<lparr>ss_idempotency := AList.update k (ir\<lparr>ir_requestHash := x\<rparr>) (ss_idempotency r)\<rparr>) = register_of cy key r"
  using assms by (auto simp: register_of_def decryptArtifact_def fun_eq_iff split: option.splits)

section \<open>Simulation\<close>

lemma registers_sessions: "cu_sessions t = cu_sessions s \<Longrightarrow> registers cy key t = registers cy key s"
  by (simp add: registers_def fun_eq_iff)

lemma registers_update:
  "registers cy key (s\<lparr>cu_sessions := AList.update p r (cu_sessions s)\<rparr>) = (registers cy key s)(p \<mapsto> register_of cy key r)"
  by (auto simp: registers_def fun_eq_iff)

abbreviation written where
  "written cy st inp R \<equiv> R(wq_providerInstanceId inp \<mapsto> reg_next cy st inp (R (wq_providerInstanceId inp)))"

definition reg_open :: "write_request \<Rightarrow> register option \<Rightarrow> bool" where
  "reg_open inp reg =
     (case reg of
        None \<Rightarrow> wq_expectedGeneration inp = 0
      | Some r \<Rightarrow> rg_receipts r (wq_idempotencyKey inp) = None \<and> rg_generation r = wq_expectedGeneration inp)"

lemma next_allowed_open:
  "next_allowed st inp (map_of (cu_sessions s) (wq_providerInstanceId inp)) \<Longrightarrow> reg_open inp (registers cy key s (wq_providerInstanceId inp))"
  by (auto simp: reg_open_def next_allowed_def registers_def register_of_def split: option.splits)

lemma reg_open_next: "\<not> reg_open inp (Some (reg_next cy st inp reg))"
  by (simp add: reg_open_def reg_next_def Let_def)

lemma reg_write_open: "reg_open inp reg \<Longrightarrow>
  reg_write cy st inp reg = (Some (reg_next cy st inp reg), WriteAccepted (rg_generation (reg_next cy st inp reg)) (rg_hash (reg_next cy st inp reg)))"
  by (auto simp: reg_write_def reg_open_def Let_def split: option.splits)

lemma write_move_registers:
  assumes "write_move cy st nonce inp now s t" "crypto_ok cy"
  defines "R \<equiv> registers cy (es_encryptionKey st)"
  shows "R t = R s \<or> reg_open inp (R s (wq_providerInstanceId inp)) \<and> R t = written cy st inp (R s)"
  using assms(1)
proof cases
  case (receipt h)
  then show ?thesis using registers_sessions sessions_moves unfolding R_def by blast
next
  case (upgrade r ir)
  then have "R t = (R s)(wq_providerInstanceId inp \<mapsto> register_of cy (es_encryptionKey st) r)"
    by (simp add: R_def registers_update register_upgrade)
  with upgrade(2) show ?thesis by (auto simp: R_def registers_def fun_eq_iff)
next
  case (publish existing)
  then have "reg_open inp (R s (wq_providerInstanceId inp))" using next_allowed_open unfolding R_def by blast
  moreover have "map_option (register_of cy (es_encryptionKey st)) existing = R s (wq_providerInstanceId inp)"
    using publish(2) by (simp add: R_def registers_def)
  ultimately show ?thesis using register_next [OF assms(2), of inp st nonce existing] publish(1,4)
    by (simp add: R_def registers_update)
qed (simp add: R_def registers_def fun_eq_iff)

lemma write_moves_registers:
  assumes "write_moves cy st nonce inp now s t" "crypto_ok cy"
  defines "R \<equiv> registers cy (es_encryptionKey st)"
  shows "R t = R s \<or> reg_open inp (R s (wq_providerInstanceId inp)) \<and> R t = written cy st inp (R s)"
  using assms(1)
proof (induction rule: converse_rtranclp_induct)
  case (step s u)
  from write_move_registers [OF step.hyps(1) assms(2)] step.IH reg_open_next show ?case
    unfolding R_def by (elim disjE) auto
qed simp

section \<open>What a write answers\<close>

lemma receipt_sessions: "files_ok s \<Longrightarrow> cu_sessions (snd (guard_recordReceipt p i h k s)) = cu_sessions s"
  using files_okD(1) receipt_moves sessions_moves by metis

lemma publish_returns:
  assumes "es_publish cy st nonce inp now existing s = (Inr w, t)" "files_ok s"
  shows "cu_sessions t = AList.update (wq_providerInstanceId inp) (next_record cy st nonce inp existing) (cu_sessions s) \<and>
    w = WriteAccepted (ss_generation (next_record cy st nonce inp existing)) (artifact_hash cy inp)"
proof -
  let ?r = "next_record cy st nonce inp existing"
  let ?ack = "thenP (guard_recordReceipt (wq_providerInstanceId inp) (wq_leaseId inp) (ss_generationHash ?r) (wq_idempotencyKey inp))
    (retP (WriteAccepted (ss_generation ?r) (ss_generationHash ?r)))"
  obtain s1 u where "guard_authorize (wq_providerInstanceId inp) (wq_leaseId inp) (case existing of None \<Rightarrow> '''' | Some r \<Rightarrow> ss_generationHash r)
      (existing = None \<and> wq_expectedGeneration inp = 0) (es_requireLease st) now s = (Inr (), s1)"
    and w: "writeRecord (wq_providerInstanceId inp) ?r s1 = (Inr (), u)" and ack: "?ack u = (Inr w, t)"
    using assms(1) by (auto simp: es_publish_def Let_def thenP_def bindP_def split: prod.splits sum.splits)
  then have s1: "s1 = s" using authorize_state by (metis snd_conv)
  obtain os where u: "u = s\<lparr>lf_outcomes := os, cu_sessions := AList.update (wq_providerInstanceId inp) ?r (cu_sessions s)\<rparr>"
    using write_session_returns w s1 by blast
  then have "files_ok u" using assms(2) by (simp add: files_ok_sessions)
  from ack receipt_sessions [OF this] have "cu_sessions t = cu_sessions u" "w = WriteAccepted (ss_generation ?r) (ss_generationHash ?r)"
    by (auto simp: thenP_def bindP_def split: prod.splits sum.splits) (metis snd_conv)
  with u show ?thesis by (simp add: next_fields)
qed

lemma replay_returns:
  assumes "es_replay cy st inp r ir s = (Inr w, t)"
  shows "w = WriteReplay (ir_generation ir) (ir_generationHash ir)"
  using assms by (auto simp: es_replay_def Let_def throwE_def thenP_def bindP_def split: prod.splits sum.splits option.splits if_splits)

lemma write_returns:
  assumes "es_write cy st nonce inp now s = (Inr w, t)" "files_ok s" "crypto_ok cy"
  defines "R \<equiv> registers cy (es_encryptionKey st)" and "p \<equiv> wq_providerInstanceId inp"
  shows "reg_write cy st inp (R s p) = (R t p, w) \<and> R t = (R s)(p := R t p)"
proof -
  have moves: "R t = R s \<or> reg_open inp (R s p) \<and> R t = written cy st inp (R s)"
    using write_moves_registers [OF write_op_moves [OF assms(2)] assms(3)] assms(1) unfolding R_def p_def by (metis snd_conv)
  have pub: "reg_write cy st inp (R s p) = (R t p, w) \<and> R t = (R s)(p := R t p)"
    if "es_publish cy st nonce inp now (map_of (cu_sessions s) p) s = (Inr w, t)"
      "next_allowed st inp (map_of (cu_sessions s) p)" "sa_providerId (wq_nextArtifact inp) = es_providerId st"
  proof -
    let ?r = "next_record cy st nonce inp (map_of (cu_sessions s) p)"
    have r: "register_of cy (es_encryptionKey st) ?r = reg_next cy st inp (R s p)"
      using register_next [OF assms(3) that(3)] by (simp add: R_def registers_def)
    have "R t = (R s)(p \<mapsto> reg_next cy st inp (R s p))"
      using publish_returns [OF that(1) assms(2)] r by (auto simp: R_def registers_def p_def fun_eq_iff)
    moreover have "rg_generation (reg_next cy st inp (R s p)) = ss_generation ?r" "rg_hash (reg_next cy st inp (R s p)) = artifact_hash cy inp"
      unfolding r [symmetric] by (simp_all add: register_of_def next_fields)
    moreover have "reg_open inp (R s p)" using next_allowed_open that(2) unfolding R_def p_def by blast
    ultimately show ?thesis using publish_returns [OF that(1) assms(2)] by (simp add: reg_write_open)
  qed
  show ?thesis
  proof (cases "map_of (cu_sessions s) p")
    case None
    with assms(1) pub show ?thesis
      by (auto simp: es_write_def readRecord_def throwE_def p_def R_def registers_def next_allowed_def reg_write_def Let_def split: if_splits)
  next
    case (Some r)
    then have reg: "R s p = Some (register_of cy (es_encryptionKey st) r)" by (simp add: R_def registers_def)
    show ?thesis
    proof (cases "map_of (ss_idempotency r) (wq_idempotencyKey inp)")
      case None
      with Some assms(1) pub reg show ?thesis
        by (auto simp: es_write_def readRecord_def throwE_def p_def next_allowed_def reg_write_def register_of_def Let_def split: if_splits)
    next
      case (Some ir)
      with \<open>map_of (cu_sessions s) p = Some r\<close> assms(1) have "w = WriteReplay (ir_generation ir) (ir_generationHash ir)"
        using replay_returns by (auto simp: es_write_def readRecord_def throwE_def p_def split: if_splits)
      moreover have "R t = R s" using moves reg Some by (simp add: reg_open_def register_of_def)
      ultimately have "reg_write cy st inp (R s p) = (R t p, w)" using reg Some by (simp add: reg_write_def register_of_def Let_def)
      with \<open>R t = R s\<close> show ?thesis by simp
    qed
  qed
qed

lemma read_returns:
  assumes "es_read cy st p expected s = (Inr x, t)"
  shows "x = reg_read p expected (registers cy (es_encryptionKey st) s p) \<and> t = s"
  using assms
  by (auto simp: es_read_def readRecord_def throwE_def reg_read_def registers_def register_of_def split: option.splits if_splits sum.splits)

lemma simulation_leases:
  assumes "files_ok s" "fresh_event ev s" "keyed_event key ev" "on_leases ev" "custody_step cy ev s = (ans, t)"
  shows "reg_step cy ev ans (registers cy key s) (registers cy key t)"
proof -
  have same: "registers cy key t = registers cy key s"
    using registers_sessions [OF sessions_moves [OF lease_step_moves [OF assms(1,2,4), of cy]]] assms(5) by simp
  show ?thesis
  proof (cases ans)
    case (Inl e)
    then show ?thesis using same by (simp add: reg_failed)
  next
    case (Inr a)
    show ?thesis
    proof (cases "lease_call ev")
      case False
      then obtain st p expected where ev: "ev = CeRead st p expected" using assms(4) by (cases ev) auto
      then obtain x where "es_read cy st p expected s = (Inr x, t)" "a = AnsRead x" using assms(5) Inr by (auto simp: answer_returns)
      with ev Inr same assms(3) read_returns reg_read show ?thesis by fastforce
    qed (use Inr same reg_leases in simp)
  qed
qed

lemma simulation_write:
  assumes "files_ok s" "es_encryptionKey st = key" "crypto_ok cy" "custody_step cy (CeWrite st nonce inp now) s = (ans, t)"
  shows "reg_step cy (CeWrite st nonce inp now) ans (registers cy key s) (registers cy key t)"
proof (cases ans)
  case (Inl e)
  have "snd (es_write cy st nonce inp now s) = t" using assms(4) by (metis answer_state custody_step.simps(7) snd_conv)
  then have "registers cy key t = registers cy key s \<or> reg_open inp (registers cy key s (wq_providerInstanceId inp)) \<and>
      registers cy key t = written cy st inp (registers cy key s)"
    using write_moves_registers [OF write_op_moves [OF assms(1)] assms(3), of st nonce inp now] assms(2) by simp
  then show ?thesis
  proof
    assume "reg_open inp (registers cy key s (wq_providerInstanceId inp)) \<and> registers cy key t = written cy st inp (registers cy key s)"
    then show ?thesis using reg_unacknowledged [OF reg_write_open] Inl by simp
  qed (simp add: Inl reg_failed)
next
  case (Inr a)
  then obtain w where "es_write cy st nonce inp now s = (Inr w, t)" "a = AnsWrite w" using assms(4) by (auto simp: answer_returns)
  with write_returns [OF _ assms(1,3)] assms(2) have
    "reg_write cy st inp (registers cy key s (wq_providerInstanceId inp)) = (registers cy key t (wq_providerInstanceId inp), w)"
    "registers cy key t = (registers cy key s)(wq_providerInstanceId inp := registers cy key t (wq_providerInstanceId inp))" by blast+
  with reg_written [of cy st inp "registers cy key s"] Inr \<open>a = AnsWrite w\<close> show ?thesis by metis
qed

lemma simulation_delete:
  assumes "custody_step cy (CeDelete q) s = (ans, t)"
  shows "reg_step cy (CeDelete q) ans (registers cy key s) (registers cy key t)"
proof -
  have "snd (es_delete q s) = t" using assms by (metis answer_state custody_step.simps(8) snd_conv)
  with delete_state [of q s] have "registers cy key t = registers cy key s \<or> registers cy key t = (registers cy key s)(q := None)"
    by (auto simp: registers_def fun_eq_iff)
  moreover have "registers cy key t = (registers cy key s)(q := None)" if "ans = Inr a" for a
    using that assms do_io_returns by (fastforce simp: answer_returns es_delete_def registers_def fun_eq_iff)
  ultimately show ?thesis using reg_failed reg_deleted by (cases ans) auto
qed

lemma simulation_step:
  assumes "custody_ok s" "fresh_event ev s" "keyed_event key ev" "crypto_ok cy" "custody_step cy ev s = (ans, t)"
  shows "reg_step cy ev ans (registers cy key s) (registers cy key t)"
proof -
  have ok: "files_ok s" using assms(1) by (simp add: custody_ok_def)
  consider (leases) "on_leases ev" | (writing) st nonce inp now where "ev = CeWrite st nonce inp now" | (deleting) q where "ev = CeDelete q"
    by (cases ev) auto
  then show ?thesis
  proof cases
    case leases
    then show ?thesis using simulation_leases [OF ok assms(2,3) _ assms(5)] by simp
  next
    case writing
    then show ?thesis using simulation_write [OF ok _ assms(4)] assms(3,5) by simp
  next
    case deleting
    then show ?thesis using simulation_delete assms(5) by simp
  qed
qed

end
