(* ===== verification/Custody_Claims.thy ===== *)
theory Custody_Claims
  imports Session_Register
begin

text \<open>
  The properties of the local backend, over all histories of calls on one directory: who may hold
  a lease, who may publish a session, what a receipt and a committed lease stand for, what a read
  returns and how a write is settled after a crash. The examples run the backend on concrete
  files, with a transparent cipher and digest.
\<close>

section \<open>An example\<close>

definition demo_crypto :: crypto where
  "demo_crypto = \<lparr>cy_sha256 = (\<lambda>s. CHR ''#'' # s), cy_sha256url = (\<lambda>s. CHR ''='' # s), cy_encrypt = (\<lambda>key nonce b. (b, ''tag'')), cy_decrypt = (\<lambda>key nonce c tag. Some c)\<rparr>"

definition demo_store_opts :: encrypted_store where
  "demo_store_opts = \<lparr>es_providerId = ''codex'', es_encryptionKey = ''key'', es_metadata = None, es_requireLease = True\<rparr>"

definition demo_artifact :: "string \<Rightarrow> session_artifact" where
  "demo_artifact b = \<lparr>sa_kind = JsonFile, sa_providerId = ''codex'', sa_formatVersion = ''1'', sa_bytes = b, sa_contentType = ''json''\<rparr>"

definition demo_request :: "int \<Rightarrow> string \<Rightarrow> string \<Rightarrow> string \<Rightarrow> write_request" where
  "demo_request g b k i = \<lparr>wq_providerInstanceId = ''p'', wq_expectedGeneration = g, wq_nextArtifact = demo_artifact b,
     wq_idempotencyKey = k, wq_leaseId = i, wq_metadata = None\<rparr>"

definition demo_acquire :: "string \<Rightarrow> acquire_input" where
  "demo_acquire b = \<lparr>aq_providerInstanceId = ''p'', aq_runId = ''run'', aq_attempt = 1, aq_ttlMs = Fin 1000,
     aq_restoredGenerationHash = computeSessionGenerationHash (cy_sha256url demo_crypto) (demo_artifact b)\<rparr>"

abbreviation demo_lease :: string where
  "demo_lease \<equiv> ''local-file-lease:1''"

definition demo_hash :: "string \<Rightarrow> string" where
  "demo_hash b = computeSessionGenerationHash (cy_sha256url demo_crypto) (demo_artifact b)"

text \<open>A session is imported, leased, and the lease taken to the point where it may write.\<close>

definition demo_import :: "custody_event list" where
  "demo_import = [CeWrite demo_store_opts ''n'' (demo_request 0 ''a'' ''k0'' ''import'') (Instant 0)]"

definition demo_leased :: "custody_event list" where
  "demo_leased = demo_import @
     [CeAcquire ''1'' (demo_acquire ''a'') (Instant 0), CeFinalize demo_lease (demo_hash ''a'') (Instant 1) (Instant 1),
      CeStarted demo_lease None (Instant 2) (Instant 2)]"

definition demo_write :: custody_event where
  "demo_write = CeWrite demo_store_opts ''n'' (demo_request 1 ''b'' ''k1'' demo_lease) (Instant 3)"

abbreviation demo_files :: custody_files where
  "demo_files \<equiv> empty_custody []"

lemma demo_crypto_ok: "crypto_ok demo_crypto"
  by (simp add: crypto_ok_def demo_crypto_def)

section \<open>Lemmas\<close>

lemma fresh_run_append: "fresh_run cy (evs @ evs') s = (fresh_run cy evs s \<and> fresh_run cy evs' (custody_run cy evs s))"
  by (induction evs arbitrary: s) auto

lemma reachable_ok: "fresh_run cy evs (empty_custody outcomes) \<Longrightarrow> custody_ok (custody_run cy evs (empty_custody outcomes))"
  using custody_ok_run custody_ok_empty by blast

lemma live_lease_refuses:
  assumes "holds_lease p i e s" "aq_providerInstanceId inp = p" "valid_date e" "\<not> date_le e now"
  shows "lf_acquire random inp now s \<noteq> (Inr (LeaseGranted i' e'), t)"
proof
  assume "lf_acquire random inp now s = (Inr (LeaseGranted i' e'), t)"
  with acquire_returns have "\<forall>a. map_of (lf_active s) p = Some a \<longrightarrow> isExpired a now" using assms(2) by blast
  with assms show False by (cases e) (auto simp: holds_lease_def isExpired_def)
qed

text \<open>A publication under a lease leaves the lease's record as it was, or with the receipt.\<close>

lemma receipt_records:
  assumes "lease_moves (\<lambda>_. False) (receives p h k) (\<lambda>_. False) s t" "map_of (lf_records s) i = Some r"
  shows "map_of (lf_records t) i \<in> {Some r, Some (r\<lparr>pl_persistedWrite := Some \<lparr>pw_generationHash = h, pw_idempotencyKey = k\<rparr>\<rparr>)}"
  using assms(1)
proof induction
  case (step t u)
  from step.hyps(2) step.IH show ?case by cases (auto simp: receives_def)
qed (use assms(2) in simp)

lemma replay_content:
  assumes "files_ok s" "map_of (cu_sessions s) (wq_providerInstanceId inp) = Some r"
  shows "session_content (snd (es_replay cy st inp r ir s)) = session_content s"
proof -
  let ?ack = "thenP (guard_recordReceipt (wq_providerInstanceId inp) (wq_leaseId inp) (ir_generationHash ir) (wq_idempotencyKey inp))
    (retP (WriteReplay (ir_generation ir) (ir_generationHash ir)))"
  let ?w = "writeRecord (wq_providerInstanceId inp) (r\<lparr>ss_idempotency := AList.update (wq_idempotencyKey inp)
    (ir\<lparr>ir_requestHash := Some (hashWriteRequest cy inp)\<rparr>) (ss_idempotency r)\<rparr>)"
  have ack: "session_content (snd (?ack u)) = session_content u" if "files_ok u" for u
    using receipt_sessions [OF that] by (auto simp: session_content_def thenP_def bindP_def fun_eq_iff split: prod.splits sum.splits) (metis snd_conv)+
  have w: "session_content (snd (?w s)) = session_content s \<and> files_ok (snd (?w s))"
    using do_io_result [of "\<lambda>s. s\<lparr>cu_sessions := AList.update (wq_providerInstanceId inp) (r\<lparr>ss_idempotency := AList.update (wq_idempotencyKey inp)
      (ir\<lparr>ir_requestHash := Some (hashWriteRequest cy inp)\<rparr>) (ss_idempotency r)\<rparr>) (cu_sessions s)\<rparr>" s] assms
    by (auto simp: writeRecord_def session_content_def files_ok_def fun_eq_iff)
  have "session_content (snd (thenP ?w ?ack s)) = session_content s"
    using w ack by (cases "?w s"; cases "fst (?w s)") (auto simp: thenP_def bindP_def)
  with ack [OF assms(1)] show ?thesis by (simp add: es_replay_def Let_def throwE_def split: option.splits)
qed

text \<open>A write that changes a session was allowed, authorised, and has done nothing else but record its receipt.\<close>

definition publication ::
  "crypto \<Rightarrow> encrypted_store \<Rightarrow> string \<Rightarrow> write_request \<Rightarrow> date \<Rightarrow> custody_files \<Rightarrow> custody_files \<Rightarrow> bool" where
  "publication cy st nonce inp now s t =
     (let existing = map_of (cu_sessions s) (wq_providerInstanceId inp) in
      next_allowed st inp existing \<and> authorized st inp now existing s \<and> sa_providerId (wq_nextArtifact inp) = es_providerId st \<and>
      artifact_fits (wq_nextArtifact inp) \<and>
      (\<exists>os. lease_moves (\<lambda>_. False) (receives (wq_providerInstanceId inp) (artifact_hash cy inp) (wq_idempotencyKey inp)) (\<lambda>_. False)
        (s\<lparr>lf_outcomes := os, cu_sessions := AList.update (wq_providerInstanceId inp) (next_record cy st nonce inp existing) (cu_sessions s)\<rparr>) t))"

lemma publish_shape_run:
  fixes cy :: crypto and nonce :: string
  assumes "files_ok s" "map_of (cu_sessions s) (wq_providerInstanceId inp) = existing" "next_allowed st inp existing"
    "sa_providerId (wq_nextArtifact inp) = es_providerId st" "artifact_fits (wq_nextArtifact inp)"
    "authorized st inp now existing s"
  defines "r \<equiv> next_record cy st nonce inp existing"
  assumes "thenP (writeRecord (wq_providerInstanceId inp) r)
    (thenP (guard_recordReceipt (wq_providerInstanceId inp) (wq_leaseId inp) (ss_generationHash r) (wq_idempotencyKey inp))
      (retP (WriteAccepted (ss_generation r) (ss_generationHash r)))) s = (res, t)"
  shows "session_content t = session_content s \<or> publication cy st nonce inp now s t"
proof -
  let ?rec = "guard_recordReceipt (wq_providerInstanceId inp) (wq_leaseId inp) (ss_generationHash r) (wq_idempotencyKey inp)"
  let ?s' = "\<lambda>os. s\<lparr>lf_outcomes := os, cu_sessions := AList.update (wq_providerInstanceId inp) r (cu_sessions s)\<rparr>"
  note run = assms(8)
  have pub: "publication cy st nonce inp now s t"
    if "lease_moves (\<lambda>_. False) (receives (wq_providerInstanceId inp) (artifact_hash cy inp) (wq_idempotencyKey inp)) (\<lambda>_. False) (?s' os) t" for os
    using that assms(2-6) unfolding publication_def Let_def r_def by blast
  obtain x u where w: "writeRecord (wq_providerInstanceId inp) r s = (x, u)" by fastforce
  show ?thesis
  proof (cases x)
    case (Inl e)
    with run w have "t = u" by (auto simp: thenP_def bindP_def)
    with w do_io_result [of "\<lambda>s. s\<lparr>cu_sessions := AList.update (wq_providerInstanceId inp) r (cu_sessions s)\<rparr>" s]
    obtain os where "t = s\<lparr>lf_outcomes := os\<rparr> \<or> t = ?s' os" by (auto simp: writeRecord_def)
    with pub show ?thesis by (auto simp: session_content_def fun_eq_iff)
  next
    case (Inr y)
    with w write_session_returns [of "wq_providerInstanceId inp" r s u] obtain os where u: "u = ?s' os" by auto
    from run w Inr have "t = snd (?rec u)" by (auto simp: thenP_def bindP_def split: prod.splits sum.splits)
    moreover have "keyed_records u" using files_okD(1) [OF assms(1)] unfolding u by auto
    moreover have "ss_generationHash r = artifact_hash cy inp" by (simp add: r_def next_fields)
    ultimately have "lease_moves (\<lambda>_. False) (receives (wq_providerInstanceId inp) (artifact_hash cy inp) (wq_idempotencyKey inp)) (\<lambda>_. False) (?s' os) t"
      using receipt_moves [of u] unfolding u by simp
    with pub show ?thesis by blast
  qed
qed

lemma publish_shape:
  assumes "files_ok s" "map_of (cu_sessions s) (wq_providerInstanceId inp) = existing" "next_allowed st inp existing"
    "sa_providerId (wq_nextArtifact inp) = es_providerId st" "artifact_fits (wq_nextArtifact inp)"
    and "es_publish cy st nonce inp now existing s = (res, t)"
  shows "session_content t = session_content s \<or> publication cy st nonce inp now s t"
proof -
  let ?a = "guard_authorize (wq_providerInstanceId inp) (wq_leaseId inp) (case existing of None \<Rightarrow> '''' | Some r \<Rightarrow> ss_generationHash r)
    (existing = None \<and> wq_expectedGeneration inp = 0) (es_requireLease st) now"
  let ?r = "next_record cy st nonce inp existing"
  let ?rec = "guard_recordReceipt (wq_providerInstanceId inp) (wq_leaseId inp) (ss_generationHash ?r) (wq_idempotencyKey inp)"
  let ?rest = "thenP (writeRecord (wq_providerInstanceId inp) ?r) (thenP ?rec (retP (WriteAccepted (ss_generation ?r) (ss_generationHash ?r))))"
  obtain y where y: "?a s = (y, s)" using authorize_state by (metis surjective_pairing)
  have "thenP ?a ?rest s = (res, t)" using assms(6) by (simp add: es_publish_def Let_def)
  with y consider (refused) "t = s" | (run) "authorized st inp now existing s" "?rest s = (res, t)"
    by (cases y) (auto simp: thenP_def [of ?a] bindP_def [of ?a] authorized_def)
  then show ?thesis
  proof cases
    case refused
    then show ?thesis by simp
  next
    case run
    then show ?thesis using publish_shape_run [OF assms(1-5)] by (metis (no_types, lifting))
  qed
qed

lemma write_shape:
  assumes "files_ok s" "es_write cy st nonce inp now s = (res, t)"
  shows "session_content t = session_content s \<or> publication cy st nonce inp now s t"
proof (cases "map_of (cu_sessions s) (wq_providerInstanceId inp)")
  case None
  with assms publish_shape [OF assms(1) None, of st cy nonce now res t] show ?thesis
    by (auto simp: es_write_def readRecord_def throwE_def next_allowed_def split: if_splits)
next
  case (Some r)
  have "session_content t = session_content s" if "es_replay cy st inp r ir s = (res, t)" for ir
    using replay_content [OF assms(1) Some, of cy st ir] that by simp
  with Some assms publish_shape [OF assms(1) Some, of st cy nonce now res t] show ?thesis
    by (auto simp: es_write_def readRecord_def throwE_def next_allowed_def split: if_splits option.splits)
qed

section \<open>Files that do not fail\<close>

lemma do_io_clean: "lf_outcomes s = [] \<Longrightarrow> do_io eff s = (Inr (), eff s)"
  by (simp add: do_io_def)

lemma persist_clean:
  fixes s :: custody_files
  assumes "lf_outcomes s = []"
  obtains t where "persistLeaseTransitionLocked r s = (Inr (), t)" "lf_outcomes t = []"
    "map_of (lf_records t) = (map_of (lf_records s))(pl_leaseId r \<mapsto> r)" "cu_sessions t = cu_sessions s"
proof -
  let ?t = "snd (persistLeaseTransitionLocked r s)"
  have "writeLeaseRecord False r s = (Inr (), s\<lparr>lf_records := AList.update (pl_leaseId r) r (lf_records s)\<rparr>)"
    using assms by (simp add: writeLeaseRecord_def readLeaseRecord_def do_io_clean)
  then have "persistLeaseTransitionLocked r s = (Inr (), ?t) \<and> lf_outcomes ?t = [] \<and>
      map_of (lf_records ?t) = (map_of (lf_records s))(pl_leaseId r \<mapsto> r) \<and> cu_sessions ?t = cu_sessions s"
    using assms
    by (simp add: persistLeaseTransitionLocked_def thenP_def bindP_def [of "writeLeaseRecord _ _"] writeActiveRecord_def readActive_def do_io_clean
        split: option.splits)
  with that show thesis by blast
qed

lemma remove_clean:
  fixes s :: custody_files
  assumes "lf_outcomes s = []"
  obtains t where "removeActiveIfMatchesLocked r s = (Inr (), t)" "lf_outcomes t = []"
    "map_of (lf_records t) = map_of (lf_records s)" "cu_sessions t = cu_sessions s"
proof -
  let ?t = "snd (removeActiveIfMatchesLocked r s)"
  have "removeActiveIfMatchesLocked r s = (Inr (), ?t) \<and> lf_outcomes ?t = [] \<and> lf_records ?t = lf_records s \<and> cu_sessions ?t = cu_sessions s"
    using assms by (simp add: removeActiveIfMatchesLocked_def readActive_def do_io_clean split: option.splits)
  with that show thesis by metis
qed


lemma receipt_clean:
  fixes s :: custody_files
  assumes "lf_outcomes s = []" "is_lease_id i" "map_of (lf_records s) i = Some r" "pl_leaseId r = i" "pl_providerInstanceId r = p"
    "pl_persistedWrite r \<in> {None, Some \<lparr>pw_generationHash = h, pw_idempotencyKey = k\<rparr>}"
  obtains t where "guard_recordReceipt p i h k s = (Inr (), t)" "lf_outcomes t = []"
    "map_of (lf_records t) i = Some (r\<lparr>pl_persistedWrite := Some \<lparr>pw_generationHash = h, pw_idempotencyKey = k\<rparr>\<rparr>)"
    "cu_sessions t = cu_sessions s"
proof (cases "pl_persistedWrite r")
  case None
  let ?r = "r\<lparr>pl_persistedWrite := Some \<lparr>pw_generationHash = h, pw_idempotencyKey = k\<rparr>\<rparr>"
  obtain t where "persistLeaseTransitionLocked ?r s = (Inr (), t)" "lf_outcomes t = []"
    "map_of (lf_records t) = (map_of (lf_records s))(pl_leaseId ?r \<mapsto> ?r)" "cu_sessions t = cu_sessions s"
    using persist_clean [OF assms(1)] by blast
  with None assms that [of t] show thesis by (simp add: guard_recordReceipt_def requireLeaseRecord_def readLeaseRecord_def bindP_assoc)
next
  case (Some w)
  then have "r = r\<lparr>pl_persistedWrite := Some \<lparr>pw_generationHash = h, pw_idempotencyKey = k\<rparr>\<rparr>" using assms(6) by simp
  with Some assms that [of s] show thesis by (auto simp: guard_recordReceipt_def requireLeaseRecord_def readLeaseRecord_def bindP_assoc)
qed

lemma commit_clean:
  fixes s :: custody_files
  assumes "lf_outcomes s = []" "map_of (lf_records s) i = Some r" "pl_leaseId r = i" "pl_state r \<noteq> LsCommitted"
    "pl_persistedWrite r = Some \<lparr>pw_generationHash = h, pw_idempotencyKey = k\<rparr>" "valid_date stamp"
  obtains t where "lf_markWritebackCommitted rr i h k now stamp s = (Inr Committed, t)" "cu_sessions t = cu_sessions s"
proof -
  let ?r = "r\<lparr>pl_state := LsCommitted, pl_committedAt := Some stamp, pl_nextGenerationHash := Some h, pl_idempotencyKey := Some k\<rparr>"
  obtain u where u: "persistLeaseTransitionLocked ?r s = (Inr (), u)" "lf_outcomes u = []" "cu_sessions u = cu_sessions s"
    using persist_clean [OF assms(1)] by blast
  obtain t where t: "removeActiveIfMatchesLocked ?r u = (Inr (), t)" "cu_sessions t = cu_sessions u"
    using remove_clean [OF u(2)] by blast
  have "lf_markWritebackCommitted rr i h k now stamp s = (Inr Committed, t)"
    using assms u t
    by (simp add: lf_markWritebackCommitted_def requireLeaseRecord_def readLeaseRecord_def bindP_assoc lease_commit_def iso_date_def Let_def
        thenP_def bindP_def [of "persistLeaseTransitionLocked _"] bindP_def [of "removeActiveIfMatchesLocked _"])
  with that t u show thesis by simp
qed

lemma replay_clean:
  assumes "publication cy st nonce inp now s t" "files_ok s" "is_lease_id (wq_leaseId inp)" "hashWriteRequest cy inp \<noteq> ''''"
  obtains u r where "es_write cy st nonce' inp now' (t\<lparr>lf_outcomes := []\<rparr>) =
      (Inr (WriteReplay (wq_expectedGeneration inp + 1) (artifact_hash cy inp)), u)"
    "lf_outcomes u = []" "map_of (lf_records u) (wq_leaseId inp) = Some r" "pl_leaseId r = wq_leaseId inp" "pl_state r = LsWritebackStarted"
    "pl_persistedWrite r = Some \<lparr>pw_generationHash = artifact_hash cy inp, pw_idempotencyKey = wq_idempotencyKey inp\<rparr>"
    "cu_sessions u = cu_sessions t"
proof -
  let ?p = "wq_providerInstanceId inp" and ?i = "wq_leaseId inp" and ?k = "wq_idempotencyKey inp" and ?h = "artifact_hash cy inp"
  let ?e = "map_of (cu_sessions s) ?p"
  let ?n = "next_record cy st nonce inp ?e" and ?w = "\<lparr>pw_generationHash = ?h, pw_idempotencyKey = ?k\<rparr>"
  from assms(1) obtain os where allowed: "next_allowed st inp ?e" and auth: "authorized st inp now ?e s"
    and prov: "sa_providerId (wq_nextArtifact inp) = es_providerId st" and fits: "artifact_fits (wq_nextArtifact inp)"
    and moves: "lease_moves (\<lambda>_. False) (receives ?p ?h ?k) (\<lambda>_. False) (s\<lparr>lf_outcomes := os, cu_sessions := AList.update ?p ?n (cu_sessions s)\<rparr>) t"
    by (auto simp: publication_def Let_def)
  from authorized_holds [OF auth assms(3)] obtain r where r: "map_of (lf_records s) ?i = Some r" "pl_providerInstanceId r = ?p"
    "pl_state r = LsWritebackStarted" "pl_persistedWrite r = None" by blast
  then have id: "pl_leaseId r = ?i" using files_okD(1) [OF assms(2)] by blast
  have sess: "map_of (cu_sessions t) ?p = Some ?n" using sessions_moves [OF moves] by simp
  from receipt_records [OF moves, of ?i r] r have "map_of (lf_records t) ?i \<in> {Some r, Some (r\<lparr>pl_persistedWrite := Some ?w\<rparr>)}" by simp
  then obtain r' where r': "map_of (lf_records t) ?i = Some r'" "pl_leaseId r' = ?i" "pl_providerInstanceId r' = ?p"
    "pl_state r' = LsWritebackStarted" "pl_persistedWrite r' \<in> {None, Some ?w}" using r id by auto
  obtain u where u: "guard_recordReceipt ?p ?i ?h ?k (t\<lparr>lf_outcomes := []\<rparr>) = (Inr (), u)" "lf_outcomes u = []"
    "map_of (lf_records u) ?i = Some (r'\<lparr>pl_persistedWrite := Some ?w\<rparr>)" "cu_sessions u = cu_sessions t"
    using receipt_clean [of "t\<lparr>lf_outcomes := []\<rparr>" ?i r' ?p ?h ?k] assms(3) r' by auto
  have g: "ss_generation ?n = wq_expectedGeneration inp + 1" using allowed by (auto simp: next_fields next_allowed_def split: option.splits)
  have "map_of (ss_idempotency ?n) ?k = Some (receipt_of cy inp (ss_generation ?n))" by (simp add: next_fields)
  with fits prov sess u(1) g assms(4) have "es_write cy st nonce' inp now' (t\<lparr>lf_outcomes := []\<rparr>) =
      (Inr (WriteReplay (wq_expectedGeneration inp + 1) ?h), u)"
    by (simp add: es_write_def readRecord_def next_fields(3,4) es_replay_def receipt_of_def truthy_def Let_def thenP_def
        bindP_def [of "guard_recordReceipt _ _ _ _"])
  with that u r' show thesis by simp
qed

section \<open>Facts of the example\<close>

definition demo_leased_files :: custody_files where
  "demo_leased_files = custody_run demo_crypto demo_leased demo_files"

definition demo_imported :: custody_files where
  "demo_imported = custody_run demo_crypto demo_import demo_files"

text \<open>The process dies right after the rename that publishes the session.\<close>

definition demo_crashing :: custody_files where
  "demo_crashing = demo_leased_files\<lparr>lf_outcomes := [CrashAfter]\<rparr>"

lemmas run_defs = bindP_def thenP_def catchP_def tryP_def throwE_def do_io_def answer_def
  readActive_def readLeaseRecord_def requireLeaseRecord_def writeLeaseRecord_def writeActiveRecord_def removeLeaseRecord_def
  removeActiveIfMatchesLocked_def persistLeaseTransitionLocked_def assertCurrentLeaseLocked_def lease_grant_def lf_acquire_def lf_finalize_def
  lf_markWritebackStarted_def lease_commit_def lf_markWritebackCommitted_def lf_release_def guard_authorize_def guard_recordReceipt_def
  readRecord_def writeRecord_def es_read_def es_replay_def es_publish_def es_write_def es_delete_def is_lease_id_def isExpired_def iso_date_def
  makeLeaseRecord_def artifact_fits_def Let_def

definition demo_session :: persisted_session where
  "demo_session = next_record demo_crypto demo_store_opts ''n'' (demo_request 0 ''a'' ''k0'' ''import'') None"

definition demo_lease_record :: "lease_file_state \<Rightarrow> date option \<Rightarrow> date option \<Rightarrow> persisted_lease" where
  "demo_lease_record st fin wb = \<lparr>pl_leaseId = demo_lease, pl_providerInstanceId = ''p'', pl_runId = ''run'', pl_attempt = 1,
     pl_restoredGenerationHash = demo_hash ''a'', pl_state = st, pl_acquiredAt = Instant 0, pl_expiresAt = Instant 1000,
     pl_finalizedAt = fin, pl_writebackStartedAt = wb, pl_committedAt = None, pl_releasedAt = None, pl_releaseReason = None, pl_keyId = None,
     pl_nextGenerationHash = None, pl_idempotencyKey = None, pl_persistedWrite = None\<rparr>"

definition demo_state :: "persisted_lease \<Rightarrow> custody_files" where
  "demo_state r = \<lparr>lf_records = [(demo_lease, r)], lf_active = [(''p'', r)], lf_outcomes = [], cu_sessions = [(''p'', demo_session)]\<rparr>"

lemmas demo_defs = demo_request_def demo_artifact_def demo_store_opts_def demo_acquire_def demo_lease_record_def demo_state_def

lemma demo_imported: "demo_imported = \<lparr>lf_records = [], lf_active = [], lf_outcomes = [], cu_sessions = [(''p'', demo_session)]\<rparr>"
  by (simp add: demo_imported_def demo_import_def empty_custody_def run_defs demo_session_def demo_defs)

lemma demo_session_fields: "ss_generation demo_session = 1" "ss_generationHash demo_session = demo_hash ''a''"
  "ss_providerInstanceId demo_session = ''p''" "ss_providerId demo_session = ''codex''" 
  "map_of (ss_idempotency demo_session) ''k1'' = None"
  by (simp_all add: demo_session_def next_fields demo_request_def demo_hash_def demo_store_opts_def)

lemma demo_expiry: "newDate (js_add (getTime (Instant 0)) (Fin 1000)) = Instant 1000" by code_simp

lemma demo_acquired: "custody_step demo_crypto (CeAcquire ''1'' (demo_acquire ''a'') (Instant 0)) demo_imported =
   (Inr (AnsLease (LeaseGranted demo_lease (Instant 1000))), demo_state (demo_lease_record LsActive None None))"
  by (simp add: demo_imported run_defs demo_defs demo_expiry demo_hash_def del: newDate.simps js_add.simps getTime.simps)

lemma demo_finalized: "custody_step demo_crypto (CeFinalize demo_lease (demo_hash ''a'') (Instant 1) (Instant 1)) (demo_state (demo_lease_record LsActive None None)) =
   (Inr (AnsFinalized (demo_lease, demo_hash ''a'')), demo_state (demo_lease_record LsFinalized (Some (Instant 1)) None))"
  by (simp add: run_defs demo_defs)

lemma demo_writeback_started: "custody_step demo_crypto (CeStarted demo_lease None (Instant 2) (Instant 2)) (demo_state (demo_lease_record LsFinalized (Some (Instant 1)) None)) =
   (Inr AnsVoid, demo_state (demo_lease_record LsWritebackStarted (Some (Instant 1)) (Some (Instant 2))))"
  by (simp add: run_defs demo_defs truthy_def nullish_def)

lemma demo_leased_state: "demo_leased_files = demo_state (demo_lease_record LsWritebackStarted (Some (Instant 1)) (Some (Instant 2)))"
  using demo_acquired demo_finalized demo_writeback_started
  by (simp add: demo_leased_files_def demo_leased_def demo_imported_def demo_import_def del: custody_step.simps)

lemma demo_fresh: "fresh_run demo_crypto (demo_leased @ [demo_write]) demo_files"
proof -
  have "fresh_event (CeAcquire ''1'' (demo_acquire ''a'') (Instant 0)) demo_imported" by (simp add: demo_imported unused_id_def)
  then show ?thesis using demo_acquired demo_finalized demo_writeback_started
    by (simp add: fresh_run_append demo_leased_def demo_imported_def demo_import_def demo_write_def del: custody_step.simps)
qed

lemma demo_accepted: "fst (custody_step demo_crypto demo_write demo_leased_files) = Inr (AnsWrite (WriteAccepted 2 (demo_hash ''b'')))"
  by (simp add: demo_leased_state demo_write_def run_defs demo_defs demo_session_fields next_fields demo_hash_def)

lemma demo_crashed: "fst (custody_step demo_crypto demo_write demo_crashing) = Inl Crashed"
  by (simp add: demo_crashing_def demo_leased_state demo_write_def run_defs demo_defs demo_session_fields)

lemma answer_value: "fst (answer f m s) = Inr a \<longleftrightarrow> (\<exists>x t. m s = (Inr x, t) \<and> a = f x)"
  by (auto simp: answer_def bindP_def split: prod.splits sum.splits)

lemma custody_run_append: "custody_run cy (evs @ evs') s = custody_run cy evs' (custody_run cy evs s)"
  by (induction evs arbitrary: s) auto

text \<open>A lease whose provider has another active lease, or none.\<close>

definition superseded :: "string \<Rightarrow> custody_files \<Rightarrow> bool" where
  "superseded i s =
     (case map_of (lf_records s) i of
        None \<Rightarrow> False
      | Some r \<Rightarrow> (case map_of (lf_active s) (pl_providerInstanceId r) of None \<Rightarrow> True | Some a \<Rightarrow> pl_leaseId a \<noteq> i))"

lemma superseded_retired:
  assumes "files_ok s" "superseded i s"
  shows "retired i s"
proof -
  obtain r where r: "map_of (lf_records s) i = Some r" using assms(2) by (auto simp: superseded_def split: option.splits)
  have "pl_leaseId a \<noteq> i" if "map_of (lf_active s) p = Some a" for p a
  proof
    assume "pl_leaseId a = i"
    with r files_okD(2,3) [OF assms(1) that] have "pl_providerInstanceId r = p" by (simp add: same_grant_def)
    with that \<open>pl_leaseId a = i\<close> r assms(2) show False by (simp add: superseded_def)
  qed
  with r show ?thesis by (auto simp: retired_def)
qed

definition demo_late :: "custody_event list" where
  "demo_late = demo_leased @ [CeAcquire ''2'' (demo_acquire ''a'') (Instant 1000)]"

lemma demo_late_facts:
  "fresh_run demo_crypto demo_late demo_files" "superseded demo_lease (custody_run demo_crypto demo_late demo_files)"
proof -
  have run: "custody_run demo_crypto demo_leased demo_files = demo_state (demo_lease_record LsWritebackStarted (Some (Instant 1)) (Some (Instant 2)))"
    using demo_leased_state by (simp add: demo_leased_files_def)
  have expiry: "newDate (js_add (getTime (Instant 1000)) (Fin 1000)) = Instant 2000" by code_simp
  show "fresh_run demo_crypto demo_late demo_files"
    using demo_fresh run by (simp add: demo_late_def fresh_run_append demo_state_def demo_lease_record_def unused_id_def)
  show "superseded demo_lease (custody_run demo_crypto demo_late demo_files)"
    by (simp add: demo_late_def custody_run_append run run_defs demo_defs expiry superseded_def del: newDate.simps js_add.simps getTime.simps)
qed

definition demo_session2 :: persisted_session where
  "demo_session2 = next_record demo_crypto demo_store_opts ''n'' (demo_request 1 ''b'' ''k1'' demo_lease) (Some demo_session)"

definition demo_receipt :: persisted_write where
  "demo_receipt = \<lparr>pw_generationHash = demo_hash ''b'', pw_idempotencyKey = ''k1''\<rparr>"

lemma demo_session2_fields: "ss_generation demo_session2 = 2" "ss_generationHash demo_session2 = demo_hash ''b''"
  by (simp_all add: demo_session2_def next_fields demo_session_fields demo_request_def demo_hash_def)

lemma demo_written: "custody_step demo_crypto demo_write demo_leased_files =
  (Inr (AnsWrite (WriteAccepted 2 (demo_hash ''b''))),
   (demo_state ((demo_lease_record LsWritebackStarted (Some (Instant 1)) (Some (Instant 2)))\<lparr>pl_persistedWrite := Some demo_receipt\<rparr>))
     \<lparr>cu_sessions := [(''p'', demo_session2)]\<rparr>)"
  by (simp add: demo_leased_state demo_write_def run_defs demo_defs demo_session_fields next_fields(1,2) demo_hash_def demo_session2_def demo_receipt_def)

lemma demo_died: "custody_step demo_crypto demo_write demo_crashing =
  (Inl Crashed, demo_leased_files\<lparr>cu_sessions := [(''p'', demo_session2)]\<rparr>)"
  by (simp add: demo_crashing_def demo_leased_state demo_write_def run_defs demo_defs demo_session_fields demo_session2_def)

lemma demo_run: "custody_run demo_crypto demo_leased demo_files = demo_leased_files"
  by (simp add: demo_leased_files_def)

lemma demo_sessions: "cu_sessions demo_leased_files = [(''p'', demo_session)]"
  by (simp add: demo_leased_state demo_state_def)

lemma demo_content_differs:
  assumes "cu_sessions t = [(''p'', demo_session2)]" "cu_sessions s = [(''p'', demo_session)]"
  shows "session_content t \<noteq> session_content s"
proof -
  have "map_option ss_generation (session_content t ''p'') = Some 2" "map_option ss_generation (session_content s ''p'') = Some 1"
    using assms by (simp_all add: session_content_def demo_session2_fields demo_session_fields)
  then show ?thesis by auto
qed

definition demo_commit :: custody_event where
  "demo_commit = CeCommitted True demo_lease (demo_hash ''b'') ''k1'' (Instant 4) (Instant 4)"

lemma demo_committed:
  "map_option pl_state (map_of (lf_records (custody_run demo_crypto (demo_leased @ [demo_write, demo_commit]) demo_files)) demo_lease) = Some LsCommitted"
  using demo_written
  by (simp add: custody_run_append demo_run demo_commit_def run_defs demo_defs demo_receipt_def del: custody_step.simps(7))

lemma demo_request_hash: "hashWriteRequest demo_crypto inp \<noteq> ''''"
  by (simp add: hashWriteRequest_def demo_crypto_def)

section \<open>Properties\<close>

text \<open>
  C9. A lease of a provider's session that has been granted until an instant \<open>e\<close> is
  exclusive: in every history of calls and failures that follows, as long as nobody commits or
  releases that lease and nobody asks for the provider's lease at or after \<open>e\<close>, no
  further request made before \<open>e\<close> is granted.
\<close>

theorem session_lease_exclusive:
  assumes "fresh_run cy (evs @ CeAcquire random inp now # evs') (empty_custody outcomes)"
    and "custody_step cy (CeAcquire random inp now) (custody_run cy evs (empty_custody outcomes)) = (Inr (AnsLease (LeaseGranted i e)), s)"
    and "\<forall>ev \<in> set evs'. \<not> ends_lease i ev \<and> \<not> takes_over (aq_providerInstanceId inp) e ev"
    and "aq_providerInstanceId inp' = aq_providerInstanceId inp" and "\<not> date_le e now'"
  shows "fst (custody_step cy (CeAcquire random' inp' now') (custody_run cy evs' s)) \<noteq> Inr (AnsLease (LeaseGranted i' e'))"
proof -
  let ?s = "custody_run cy evs (empty_custody outcomes)"
  have fresh: "fresh_run cy evs (empty_custody outcomes)" "fresh_event (CeAcquire random inp now) ?s" "fresh_run cy evs' s"
    using assms(1,2) by (simp_all add: fresh_run_append del: custody_step.simps)
  have "custody_ok s" using custody_ok_step [OF reachable_ok [OF fresh(1)] fresh(2), of cy] assms(2) by (simp del: custody_step.simps)
  moreover have "lf_acquire random inp now ?s = (Inr (LeaseGranted i e), s)" using assms(2) by (auto simp: answer_returns)
  then have "holds_lease (aq_providerInstanceId inp) i e s" "valid_date e" using acquire_returns by blast+
  ultimately have "holds_lease (aq_providerInstanceId inp) i e (custody_run cy evs' s)" using holds_run fresh(3) assms(3) by blast
  from live_lease_refuses [OF this assms(4) \<open>valid_date e\<close> assms(5)] show ?thesis
    by (simp add: answer_value)
qed

theorem session_lease_exclusive_witness:
  "\<forall>i e. fst (custody_step demo_crypto (CeAcquire ''2'' (demo_acquire ''b'') (Instant 999)) demo_leased_files) \<noteq> Inr (AnsLease (LeaseGranted i e))"
proof -
  let ?rest = "[CeFinalize demo_lease (demo_hash ''a'') (Instant 1) (Instant 1), CeStarted demo_lease None (Instant 2) (Instant 2)]"
  have "demo_leased_files = custody_run demo_crypto ?rest (demo_state (demo_lease_record LsActive None None))"
    using demo_finalized demo_writeback_started by (simp add: demo_leased_state del: custody_step.simps)
  moreover have "fresh_run demo_crypto (demo_import @ CeAcquire ''1'' (demo_acquire ''a'') (Instant 0) # ?rest) demo_files"
    using demo_fresh by (simp add: fresh_run_append demo_leased_def del: custody_step.simps)
  ultimately show ?thesis
    using session_lease_exclusive [of demo_crypto demo_import "''1''" "demo_acquire ''a''" "Instant 0" ?rest "[]" demo_lease "Instant 1000"
        "demo_state (demo_lease_record LsActive None None)" "demo_acquire ''b''" "Instant 999"] demo_acquired
    by (simp add: demo_imported_def demo_acquire_def del: custody_step.simps)
qed

text \<open>
  C10. A lease that is no longer its provider's active one is fenced for good: whatever happens
  later, no write that carries it changes any session, however it ends.
\<close>

theorem superseded_lease_fenced:
  assumes "fresh_run cy (evs @ evs') (empty_custody outcomes)" "superseded i (custody_run cy evs (empty_custody outcomes))"
    and "is_lease_id i" "wq_leaseId inp = i"
  defines "s \<equiv> custody_run cy (evs @ evs') (empty_custody outcomes)"
  shows "session_content (snd (custody_step cy (CeWrite st nonce inp now) s)) = session_content s"
proof -
  let ?s = "custody_run cy evs (empty_custody outcomes)"
  have ok: "custody_ok ?s" "custody_ok s" using assms(1) reachable_ok unfolding s_def by (auto simp: fresh_run_append)
  then have "retired i ?s" using superseded_retired assms(2) by (simp add: custody_ok_def)
  then have "retired i s" using retired_run [OF ok(1)] assms(1) by (simp add: s_def custody_run_append fresh_run_append)
  then show ?thesis using retired_write(2) [OF write_op_moves _ _ assms(4,3)] ok(2) by (simp add: custody_ok_def)
qed

theorem superseded_lease_fenced_witness:
  "let s = custody_run demo_crypto demo_late demo_files in
   session_content (snd (custody_step demo_crypto demo_write s)) = session_content s"
  using superseded_lease_fenced [of demo_crypto demo_late "[]" "[]" demo_lease "demo_request 1 ''b'' ''k1'' demo_lease" demo_store_opts "''n''" "Instant 3"]
    demo_late_facts
  by (simp add: demo_write_def is_lease_id_def demo_request_def del: custody_step.simps)



text \<open>
  C11. The encrypted file store refines the abstract versioned register: in every reachable
  directory every call, whether it returns, throws or dies, moves the registers the files stand
  for by one step of the abstract machine, with the answer the machine gives. In particular a
  write that fails either had no effect or the whole effect.
\<close>

theorem custody_refines_register:
  assumes "fresh_run cy (evs @ [ev]) (empty_custody outcomes)" "keyed_event key ev" "crypto_ok cy"
  defines "s \<equiv> custody_run cy evs (empty_custody outcomes)"
  shows "reg_step cy ev (fst (custody_step cy ev s)) (registers cy key s) (registers cy key (snd (custody_step cy ev s)))"
  using simulation_step [of s ev key cy] assms reachable_ok by (auto simp: fresh_run_append)

theorem custody_refines_register_witness:
  "reg_step demo_crypto demo_write (Inr (AnsWrite (WriteAccepted 2 (demo_hash ''b'')))) (registers demo_crypto ''key'' demo_leased_files)
     (registers demo_crypto ''key'' (snd (custody_step demo_crypto demo_write demo_leased_files)))"
  using custody_refines_register [of demo_crypto demo_leased demo_write "[]" "''key''"] demo_fresh demo_crypto_ok demo_accepted
  by (simp add: demo_run demo_write_def demo_store_opts_def)

text \<open>
  C14. Where the lease store insists on receipts and no session is deleted, a lease that is
  recorded as committed either committed the generation it had restored, or its generation was
  published under its idempotency key by a write of the session store.
\<close>

theorem commits_are_published:
  assumes "fresh_run cy evs (empty_custody outcomes)" "\<forall>ev \<in> set evs. \<not> is_delete ev \<and> with_receipts ev"
  defines "s \<equiv> custody_run cy evs (empty_custody outcomes)"
  assumes "map_of (lf_records s) i = Some r" "pl_state r = LsCommitted"
  shows "\<exists>h k. pl_nextGenerationHash r = Some h \<and> pl_idempotencyKey r = Some k \<and>
    (h = pl_restoredGenerationHash r \<or> published s (pl_providerInstanceId r) k h)"
proof -
  have "receipts_ok (empty_custody outcomes)" by (simp add: receipts_ok_def empty_custody_def)
  then have "receipts_ok s" using receipts_run [OF custody_ok_empty assms(1)] assms(2) by (simp add: s_def)
  then have "backed s r" using assms(4) by (simp add: receipts_ok_def)
  with assms(5) show ?thesis by (fastforce simp: backed_def)
qed

theorem commits_are_published_witness:
  "\<exists>r h k. map_of (lf_records (custody_run demo_crypto (demo_leased @ [demo_write, demo_commit]) demo_files)) demo_lease = Some r \<and>
     pl_nextGenerationHash r = Some h \<and> pl_idempotencyKey r = Some k"
proof -
  obtain r where r: "map_of (lf_records (custody_run demo_crypto (demo_leased @ [demo_write, demo_commit]) demo_files)) demo_lease = Some r" "pl_state r = LsCommitted"
    using demo_committed by auto
  have "fresh_run demo_crypto (demo_leased @ [demo_write, demo_commit]) demo_files"
    using demo_fresh by (simp add: fresh_run_append demo_write_def demo_commit_def)
  moreover have "\<forall>ev \<in> set (demo_leased @ [demo_write, demo_commit]). \<not> is_delete ev \<and> with_receipts ev"
    by (simp add: demo_leased_def demo_import_def demo_write_def demo_commit_def)
  ultimately show ?thesis using commits_are_published [of demo_crypto "demo_leased @ [demo_write, demo_commit]" "[]" demo_lease r] r by blast
qed

text \<open>
  C15. Every generation of a stored session was published under exactly one idempotency key, and
  the latest one has the hash the record names, in every reachable directory.
\<close>

theorem generations_published_once:
  assumes "fresh_run cy evs (empty_custody outcomes)"
    and "map_of (cu_sessions (custody_run cy evs (empty_custody outcomes))) p = Some ses"
  shows "bij_betw (\<lambda>k. ir_generation (the (map_of (ss_idempotency ses) k))) (dom (map_of (ss_idempotency ses))) {1..ss_generation ses} \<and>
    (\<exists>k ir. map_of (ss_idempotency ses) k = Some ir \<and> ir_generation ir = ss_generation ses \<and> ir_generationHash ir = ss_generationHash ses)"
proof -
  have ok: "session_ok p ses" using reachable_ok [OF assms(1)] assms(2) by (simp add: custody_ok_def sessions_ok_def)
  have dom: "dom (receipt_hash ses) = dom (map_of (ss_idempotency ses))" by (auto simp: receipt_hash_def)
  have "bij_betw (receipt_generation ses) (dom (map_of (ss_idempotency ses))) {1..ss_generation ses}"
    using ok by (simp add: session_ok_def dom)
  moreover have "bij_betw (receipt_generation ses) (dom (map_of (ss_idempotency ses))) {1..ss_generation ses} =
      bij_betw (\<lambda>k. ir_generation (the (map_of (ss_idempotency ses) k))) (dom (map_of (ss_idempotency ses))) {1..ss_generation ses}"
    by (rule bij_betw_cong) (auto simp: receipt_generation_def)

  moreover obtain k where "receipt_generation ses k = ss_generation ses" "receipt_hash ses k = Some (ss_generationHash ses)"
    using ok by (auto simp: session_ok_def)
  moreover from this obtain ir where "map_of (ss_idempotency ses) k = Some ir" "ir_generation ir = ss_generation ses" "ir_generationHash ir = ss_generationHash ses"
    by (auto simp: receipt_generation_def receipt_hash_def)
  ultimately show ?thesis by blast

qed

theorem generations_published_once_witness:
  "\<exists>k ir. map_of (ss_idempotency demo_session) k = Some ir \<and> ir_generation ir = 1"
  using generations_published_once [of demo_crypto demo_leased "[]" "''p''" demo_session] demo_fresh
  by (auto simp: demo_run demo_sessions fresh_run_append demo_session_fields)

text \<open>
  C12. A write under a lease that published its generation and then failed or died, at any point,
  is settled by its retry: the same request answers a replay with the same generation and hash,
  the lease can then be committed, and the session is not written a second time.
\<close>

theorem crashed_write_settles_once:
  fixes failures :: "io_outcome list"
  assumes "fresh_run cy evs (empty_custody outcomes)"
  defines "s \<equiv> (custody_run cy evs (empty_custody outcomes))\<lparr>lf_outcomes := failures\<rparr>"
  assumes "custody_step cy (CeWrite st nonce inp now) s = (res, t)" "session_content t \<noteq> session_content s"
    and "is_lease_id (wq_leaseId inp)" "hashWriteRequest cy inp \<noteq> ''''" "valid_date stamp"
  shows "\<exists>u v. custody_step cy (CeWrite st nonce' inp now') (t\<lparr>lf_outcomes := []\<rparr>) =
      (Inr (AnsWrite (WriteReplay (wq_expectedGeneration inp + 1) (artifact_hash cy inp))), u) \<and>
    custody_step cy (CeCommitted True (wq_leaseId inp) (artifact_hash cy inp) (wq_idempotencyKey inp) now'' stamp) u =
      (Inr (AnsCommit Committed), v) \<and>
    session_content v = session_content t"
proof -
  have ok: "files_ok s" using reachable_ok [OF assms(1)] by (simp add: s_def custody_ok_def files_ok_def)
  have "es_write cy st nonce inp now s = (fst (es_write cy st nonce inp now s), t)"
    using assms(3) by (metis answer_state custody_step.simps(7) prod.collapse snd_conv)
  with write_shape [OF ok] assms(4) have "publication cy st nonce inp now s t" by blast
  from replay_clean [OF this ok assms(5,6), of nonce' now'] obtain u r where
    u: "es_write cy st nonce' inp now' (t\<lparr>lf_outcomes := []\<rparr>) = (Inr (WriteReplay (wq_expectedGeneration inp + 1) (artifact_hash cy inp)), u)"
    "lf_outcomes u = []" "map_of (lf_records u) (wq_leaseId inp) = Some r" "pl_leaseId r = wq_leaseId inp" "pl_state r = LsWritebackStarted"
    "pl_persistedWrite r = Some \<lparr>pw_generationHash = artifact_hash cy inp, pw_idempotencyKey = wq_idempotencyKey inp\<rparr>"
    "cu_sessions u = cu_sessions t" by blast
  obtain v where v: "lf_markWritebackCommitted True (wq_leaseId inp) (artifact_hash cy inp) (wq_idempotencyKey inp) now'' stamp u = (Inr Committed, v)"
    "cu_sessions v = cu_sessions u" using commit_clean [OF u(2,3,4) _ u(6) assms(7)] u(5) by auto
  have "session_content v = session_content t" using u(7) v(2) by (simp add: session_content_def fun_eq_iff)
  with u(1) v(1) show ?thesis by (simp add: answer_def bindP_def)
qed

theorem crashed_write_settles_once_witness:
  "\<exists>u. custody_step demo_crypto demo_write ((snd (custody_step demo_crypto demo_write demo_crashing))\<lparr>lf_outcomes := []\<rparr>) =
     (Inr (AnsWrite (WriteReplay 2 (demo_hash ''b''))), u)"
proof -
  have "session_content (demo_leased_files\<lparr>cu_sessions := [(''p'', demo_session2)]\<rparr>) \<noteq> session_content demo_crashing"
    by (rule demo_content_differs) (simp_all add: demo_crashing_def demo_sessions)
  moreover have "demo_crashing = (custody_run demo_crypto demo_leased demo_files)\<lparr>lf_outcomes := [CrashAfter]\<rparr>" by (simp add: demo_crashing_def demo_run)
  ultimately show ?thesis
    using crashed_write_settles_once [of demo_crypto demo_leased "[]" demo_store_opts "''n''" "demo_request 1 ''b'' ''k1'' demo_lease" "Instant 3"
        "[CrashAfter]" "Inl Crashed" "demo_leased_files\<lparr>cu_sessions := [(''p'', demo_session2)]\<rparr>" "Instant 9" "''n''" "Instant 3" "Instant 9"]
      demo_fresh demo_died demo_request_hash
    by (auto simp: fresh_run_append demo_write_def is_lease_id_def demo_request_def demo_hash_def simp del: custody_step.simps)
qed





end
