(* ===== verification/Runtime_Kernel.thy ===== *)
theory Runtime_Kernel
  imports Session_Domain
begin

text \<open>
  The kernel that runs a task with a provider session: \<open>src/core/application/runtime.ts\<close>,
  \<open>runtime-results.ts\<close>, \<open>runtime-static-session.ts\<close>, \<open>runtime-health.ts\<close> and
  \<open>task-session-writeback.ts\<close>.

  Its ports are functions over an environment that answer or throw and may change the environment in any
  way, so that what other processes do between two calls is part of the answer. Each method is one program;
  two calls into one kernel do not overlap, so a promise held in \<open>pending\<close> is never found there. The kernel
  keeps a log of its port calls with their answers, which the source does not have; the flags of a method
  that its \<open>finally\<close> blocks read are fields of the state. Observability is left out, and of task, result and
  failure the parts no branch reads. A session update is an object the source compares by identity: it is
  a reference with its content.
\<close>

section \<open>Data\<close>

record runtime_warning =
  rw_code :: string
  rw_safeMessage :: string

datatype failure_code =
    NeedsReconnect | QuotaLimited | PermissionRequired | ProviderSessionInvalid | ProviderOutputInvalid
  | TaskRequestInvalid | TaskModeNotSupported | TaskCancelled | TaskTimeout | StaleGenerationFailure
  | BackendUnavailable | InputRequired | GoalSliceExhausted | ModelUnavailable | BudgetExceeded
  | ProviderRuntimeUnavailable | CleanupUnconfirmed | CheckpointUnprotected | UnknownRuntimeFailure

record provider_failure =
  pf_code :: failure_code
  pf_retryable :: bool
  pf_reconnectRequired :: bool
  pf_safeMessage :: string
  pf_causeCategory :: "string option"

datatype session_validation = ValidSession "runtime_warning list" | InvalidSession provider_failure

datatype freshness = FreshSession "runtime_warning list" | RefreshRecommended "runtime_warning list"

datatype provider_state = StUnchanged | StRefreshed | StNeedsReconnect | StQuotaLimited | StPermissionRequired

record refreshed_session =
  rn_artifact :: session_artifact
  rn_providerState :: provider_state
  rn_warnings :: "runtime_warning list"

type_synonym artifact_ref = "nat \<times> session_artifact"

datatype task_result =
    TaskDone string "artifact_ref option" "runtime_warning list"
  | TaskWaiting string string "runtime_warning list"
  | TaskFailed provider_failure "artifact_ref option" "runtime_warning list"

datatype task_execution = SingleRun | GoalRun string

datatype execution_mode = SingleRunMode | GoalMode

record execution_capability =
  xc_mode :: execution_mode
  xc_maxCompletionConditionChars :: "jsnum option"

record provider_task =
  tk_kind :: task_mode
  tk_prompt :: string
  tk_execution :: "task_execution option"

record run_context =
  rx_runId :: string
  rx_attempt :: nat

record workspace_handle =
  wh_path :: string
  wh_dispose :: bool

datatype skip_reason = SkipStaleGeneration | SkipSessionUnchanged | SkipNotRequired

datatype block_reason = BlockReconnect | BlockPermission | BlockQuota | BlockStaleGeneration | BlockTaskMode

datatype refresh_result =
    RefreshReady session_envelope write_result "runtime_warning list"
  | RefreshBlocked block_reason string "runtime_warning list"
  | RefreshSkipped skip_reason "session_envelope option" "runtime_warning list"

datatype run_result =
    RunCompleted refresh_result task_result
  | RunBlocked block_reason string "runtime_warning list"

record health_result =
  hr_healthy :: bool
  hr_failures :: "provider_failure list"
  hr_warnings :: "runtime_warning list"

fun task_warnings :: "task_result \<Rightarrow> runtime_warning list" where
  "task_warnings (TaskDone _ _ ws) = ws"
| "task_warnings (TaskWaiting _ _ ws) = ws"
| "task_warnings (TaskFailed _ _ ws) = ws"

fun more_warnings :: "runtime_warning list \<Rightarrow> task_result \<Rightarrow> task_result" where
  "more_warnings new (TaskDone t u ws) = TaskDone t u (ws @ new)"
| "more_warnings new (TaskWaiting r t ws) = TaskWaiting r t (ws @ new)"
| "more_warnings new (TaskFailed f u ws) = TaskFailed f u (ws @ new)"

fun task_update :: "task_result \<Rightarrow> artifact_ref option" where
  "task_update (TaskDone _ u _) = u"
| "task_update (TaskWaiting _ _ _) = None"
| "task_update (TaskFailed _ u _) = u"

fun waiting_for_input :: "task_result \<Rightarrow> bool" where
  "waiting_for_input (TaskWaiting _ _ _) = True"
| "waiting_for_input _ = False"

section \<open>Ports\<close>

type_synonym ('env, 'a) port = "'env \<Rightarrow> (string + 'a) \<times> 'env"

record 'env session_store_port =
  sp_read :: "string \<Rightarrow> string option \<Rightarrow> string \<Rightarrow> ('env, session_envelope option) port"
  sp_write :: "write_request \<Rightarrow> ('env, write_result) port"
  sp_supportsIdempotency :: bool

record 'env lease_store_port =
  lp_acquire :: "acquire_input \<Rightarrow> ('env, lease_answer) port"
  lp_finalize :: "string \<Rightarrow> string \<Rightarrow> ('env, string \<times> string) port"
  lp_markWritebackStarted :: "string \<Rightarrow> ('env, unit) port"
  lp_markWritebackCommitted :: "string \<Rightarrow> string \<Rightarrow> string \<Rightarrow> ('env, commit_result) port"
  lp_release :: "(string \<Rightarrow> string \<Rightarrow> ('env, unit) port) option"

record 'env runtime_deps =
  dp_providerId :: string
  dp_validateSession :: "(session_artifact \<Rightarrow> ('env, session_validation) port) option"
  dp_refreshSession :: "(session_artifact \<Rightarrow> workspace_handle \<Rightarrow> nat option \<Rightarrow> ('env, refreshed_session) port) option"
  dp_inspectSessionFreshness :: "(session_artifact \<Rightarrow> ('env, freshness) port) option"
  dp_taskModes :: "task_mode list"
  dp_taskExecutionCapabilities :: "execution_capability list option"
  dp_runTask :: "session_artifact option \<Rightarrow> provider_task \<Rightarrow> workspace_handle \<Rightarrow> nat option \<Rightarrow> ('env, task_result) port"
  dp_finalizeTaskSession :: "(nat \<Rightarrow> ('env, task_result) port) option"
  dp_retireTaskSession :: "(nat \<Rightarrow> ('env, unit) port) option"
  dp_sessionStore :: "'env session_store_port option"
  dp_leaseStore :: "'env lease_store_port option"
  dp_workspace :: "('env, workspace_handle) port"
  dp_dispose :: "string \<Rightarrow> ('env, unit) port"
  dp_begin :: "('env, nat) port option"
  dp_complete :: "nat \<Rightarrow> ('env, unit) port"
  dp_idempotencyKey :: "string \<Rightarrow> string \<Rightarrow> nat \<Rightarrow> string \<Rightarrow> string"
  dp_digest :: "string \<Rightarrow> string"

datatype port_call =
    CallRead string "string + session_envelope option"
  | CallAcquire acquire_input "string + lease_answer"
  | CallFinalize string string "string + (string \<times> string)"
  | CallStarted string "string + unit"
  | CallWrite write_request "string + write_result"
  | CallCommitted string string string "string + commit_result"
  | CallRelease string string "string + unit"
  | CallValidate session_artifact "string + session_validation"
  | CallFreshness session_artifact "string + freshness"
  | CallRefresh session_artifact "string + refreshed_session"
  | CallRunTask "session_artifact option" "string + task_result"
  | CallFinalizeTask nat "string + task_result"
  | CallRetire nat "string + unit"
  | CallBegin "string + nat"
  | CallComplete nat "string + unit"
  | CallWorkspace "string + workspace_handle"
  | CallDispose string "string + unit"
  | CallRegister string

datatype writeback_phase = PhAcquired | PhFinalized | PhStarted | PhWritten | PhCommitted

record pending_writeback =
  hw_sessionEnvelope :: session_envelope
  hw_sessionUpdate :: artifact_ref
  hw_runContext :: run_context
  hw_nextHash :: string
  hw_intent :: write_request
  hw_phase :: writeback_phase
  hw_receipt :: "(int \<times> string) option"

record pending_finalization =
  hf_result :: task_result
  hf_sessionEnvelope :: "session_envelope option"
  hf_runContext :: run_context
  hf_workspace :: workspace_handle
  hf_useCompleted :: bool

text \<open>A write-back without a use is held by the running call alone: it is under the key \<open>None\<close> while it runs.\<close>

record 'env kernel =
  kn_env :: 'env
  kn_log :: "port_call list"
  kn_leaseClosed :: bool
  kn_retained :: bool
  kn_finalizations :: "(nat \<times> pending_finalization) list"
  kn_writebacks :: "(nat option \<times> pending_writeback) list"

type_synonym ('env, 'a) kernel_prog = "('env kernel, string, 'a) prog"

definition callP :: "('env, 'a) port \<Rightarrow> (string + 'a \<Rightarrow> port_call) \<Rightarrow> ('env, 'a) kernel_prog" where
  "callP f entry = (\<lambda>s. case f (kn_env s) of (r, e) \<Rightarrow> (r, s\<lparr>kn_env := e, kn_log := kn_log s @ [entry r]\<rparr>))"

definition registerSecret :: "string \<Rightarrow> ('env, unit) kernel_prog" where
  "registerSecret bytes = modifyP (\<lambda>s. s\<lparr>kn_log := kn_log s @ [CallRegister bytes]\<rparr>)"

definition needP :: "string \<Rightarrow> 'a option \<Rightarrow> ('env, 'a) kernel_prog" where
  "needP message x = (case x of None \<Rightarrow> throwP message | Some v \<Rightarrow> retP v)"

section \<open>Results\<close>

definition nextEnvelope :: "session_envelope \<Rightarrow> session_artifact \<Rightarrow> int \<Rightarrow> string \<Rightarrow> session_envelope" where
  "nextEnvelope previous a g h = previous\<lparr>se_artifact := a, se_generation := g, se_generationHash := h\<rparr>"

fun sessionForPostRefreshTask :: "refresh_result \<Rightarrow> session_envelope option" where
  "sessionForPostRefreshTask (RefreshReady session _ _) = Some session"
| "sessionForPostRefreshTask (RefreshSkipped reason session _) = (if reason = SkipSessionUnchanged \<or> reason = SkipNotRequired then session else None)"
| "sessionForPostRefreshTask (RefreshBlocked _ _ _) = None"

definition shouldGuardedRefresh :: "provider_failure \<Rightarrow> bool" where
  "shouldGuardedRefresh f = (pf_code f = NeedsReconnect \<or> pf_causeCategory f = Some ''needs_reconnect'')"

definition failedTask :: "failure_code \<Rightarrow> string \<Rightarrow> task_result" where
  "failedTask code safeMessage =
     TaskFailed \<lparr>pf_code = code, pf_retryable = False, pf_reconnectRequired = (code = NeedsReconnect), pf_safeMessage = safeMessage, pf_causeCategory = None\<rparr>
       None []"

definition missingSessionFailure :: provider_failure where
  "missingSessionFailure = \<lparr>pf_code = NeedsReconnect, pf_retryable = False, pf_reconnectRequired = True,
     pf_safeMessage = ''Provider session is missing.'', pf_causeCategory = None\<rparr>"

fun execution_mode_of :: "task_execution \<Rightarrow> execution_mode" where
  "execution_mode_of SingleRun = SingleRunMode"
| "execution_mode_of (GoalRun _) = GoalMode"

text \<open>The failure of a task the agent cannot run, with its code and message.\<close>

definition unsupportedTaskFailure :: "'env runtime_deps \<Rightarrow> provider_task \<Rightarrow> (failure_code \<times> string) option" where
  "unsupportedTaskFailure deps task =
     (if tk_kind task \<notin> set (dp_taskModes deps) then Some (TaskModeNotSupported, ''Selected agent does not support the requested task mode.'')
      else
        let execution = (case tk_execution task of None \<Rightarrow> SingleRun | Some x \<Rightarrow> x);
            capabilities = (case dp_taskExecutionCapabilities deps of
              None \<Rightarrow> [\<lparr>xc_mode = SingleRunMode, xc_maxCompletionConditionChars = None\<rparr>] | Some cs \<Rightarrow> cs)
        in (case find (\<lambda>c. xc_mode c = execution_mode_of execution) capabilities of
              None \<Rightarrow> Some (TaskModeNotSupported, ''Selected agent does not support the requested execution mode.'')
            | Some c \<Rightarrow>
                (case (execution, xc_maxCompletionConditionChars c) of
                   (GoalRun condition, Some limit) \<Rightarrow>
                     if js_lt limit (Fin (of_nat (length condition)))
                     then Some (TaskRequestInvalid, ''Goal completion condition exceeds provider capability.'') else None
                 | _ \<Rightarrow> None)))"

section \<open>Refresh\<close>

definition releaseLeaseQuietly :: "'env runtime_deps \<Rightarrow> string \<Rightarrow> string \<Rightarrow> ('env, unit) kernel_prog" where
  "releaseLeaseQuietly deps leaseId reason =
     (case Option.bind (dp_leaseStore deps) lp_release of
        None \<Rightarrow> retP ()
      | Some release \<Rightarrow> catchP (callP (release leaseId reason) (CallRelease leaseId reason)) (\<lambda>_. retP ()))"

definition dispose_workspace :: "'env runtime_deps \<Rightarrow> workspace_handle \<Rightarrow> ('env, unit) kernel_prog" where
  "dispose_workspace deps w = (if wh_dispose w then callP (dp_dispose deps (wh_path w)) (CallDispose (wh_path w)) else retP ())"

definition begin_use :: "'env runtime_deps \<Rightarrow> ('env, nat option) kernel_prog" where
  "begin_use deps = (case dp_begin deps of None \<Rightarrow> retP None | Some f \<Rightarrow> bindP (callP f CallBegin) (\<lambda>u. retP (Some u)))"

definition complete_use :: "'env runtime_deps \<Rightarrow> nat option \<Rightarrow> ('env, unit) kernel_prog" where
  "complete_use deps use = (case use of None \<Rightarrow> retP () | Some u \<Rightarrow> callP (dp_complete deps u) (CallComplete u))"

definition close_lease :: "('env, unit) kernel_prog" where
  "close_lease = modifyP (\<lambda>s. s\<lparr>kn_leaseClosed := True\<rparr>)"

definition blocked_by :: "provider_failure \<Rightarrow> refresh_result" where
  "blocked_by f = RefreshBlocked (if pf_reconnectRequired f then BlockReconnect else BlockPermission) (pf_safeMessage f) []"

definition missing_session :: refresh_result where
  "missing_session = RefreshBlocked BlockReconnect ''Provider session is missing.'' []"

text \<open>The write-back of a refreshed session.\<close>

definition refresh_writeback ::
  "'env runtime_deps \<Rightarrow> 'env session_store_port \<Rightarrow> 'env lease_store_port \<Rightarrow> string \<Rightarrow> run_context \<Rightarrow> string \<Rightarrow> session_envelope \<Rightarrow>
   refreshed_session \<Rightarrow> ('env, refresh_result) kernel_prog" where
  "refresh_writeback deps st ls p ctx leaseId leased refreshed =
     (let nextHash = computeSessionGenerationHash (dp_digest deps) (rn_artifact refreshed);
          key = dp_idempotencyKey deps p (rx_runId ctx) (rx_attempt ctx) ''writeback'';
          hash = se_generationHash leased;
          request = \<lparr>wq_providerInstanceId = p, wq_expectedGeneration = se_generation leased, wq_nextArtifact = rn_artifact refreshed,
            wq_idempotencyKey = key, wq_leaseId = leaseId, wq_metadata = None\<rparr>;
          committed = (\<lambda>w g h. bindP (callP (lp_markWritebackCommitted ls leaseId h key) (CallCommitted leaseId h key)) (\<lambda>_.
            thenP close_lease (retP (RefreshReady (nextEnvelope leased (rn_artifact refreshed) g h) w (rn_warnings refreshed)))))
      in if nextHash = hash
         then bindP (callP (lp_finalize ls leaseId hash) (CallFinalize leaseId hash)) (\<lambda>_.
              bindP (callP (lp_markWritebackCommitted ls leaseId hash key) (CallCommitted leaseId hash key)) (\<lambda>_.
              thenP close_lease (retP (RefreshSkipped SkipSessionUnchanged (Some leased) (rn_warnings refreshed)))))
         else bindP (callP (lp_finalize ls leaseId hash) (CallFinalize leaseId hash)) (\<lambda>_.
              thenP (callP (lp_markWritebackStarted ls leaseId) (CallStarted leaseId))
              (bindP (callP (sp_write st request) (CallWrite request)) (\<lambda>w.
                 case w of
                   WriteStale _ _ \<Rightarrow> retP (RefreshSkipped SkipStaleGeneration None (rn_warnings refreshed))
                 | WriteAccepted g h \<Rightarrow> committed w g h
                 | WriteReplay g h \<Rightarrow> committed w g h))))"

definition refresh_provider ::
  "'env runtime_deps \<Rightarrow> 'env session_store_port \<Rightarrow> 'env lease_store_port \<Rightarrow>
   (session_artifact \<Rightarrow> workspace_handle \<Rightarrow> nat option \<Rightarrow> ('env, refreshed_session) port) \<Rightarrow>
   string \<Rightarrow> run_context \<Rightarrow> string \<Rightarrow> nat option \<Rightarrow> session_envelope \<Rightarrow> ('env, refresh_result) kernel_prog" where
  "refresh_provider deps st ls refresh p ctx leaseId use leased =
     bindP (callP (dp_workspace deps) CallWorkspace) (\<lambda>w.
       finallyP
         (bindP (callP (refresh (se_artifact leased) w use) (CallRefresh (se_artifact leased))) (\<lambda>refreshed.
            case rn_providerState refreshed of
              StNeedsReconnect \<Rightarrow> retP (RefreshBlocked BlockReconnect ''Provider session needs reconnect.'' (rn_warnings refreshed))
            | StPermissionRequired \<Rightarrow> retP (RefreshBlocked BlockPermission ''Provider permission is required.'' (rn_warnings refreshed))
            | StQuotaLimited \<Rightarrow> retP (RefreshBlocked BlockQuota ''Provider quota is limited.'' (rn_warnings refreshed))
            | _ \<Rightarrow> refresh_writeback deps st ls p ctx leaseId leased refreshed))
         (dispose_workspace deps w))"

definition refresh_leased ::
  "'env runtime_deps \<Rightarrow> 'env session_store_port \<Rightarrow> 'env lease_store_port \<Rightarrow> (session_artifact \<Rightarrow> ('env, session_validation) port) \<Rightarrow>
   (session_artifact \<Rightarrow> workspace_handle \<Rightarrow> nat option \<Rightarrow> ('env, refreshed_session) port) \<Rightarrow>
   string \<Rightarrow> run_context \<Rightarrow> string \<Rightarrow> nat option \<Rightarrow> session_envelope \<Rightarrow> ('env, refresh_result) kernel_prog" where
  "refresh_leased deps st ls validate refresh p ctx leaseId use session =
     finallyP
       (bindP (callP (sp_read st p (Some (dp_providerId deps)) ''refresh'') (CallRead ''refresh'')) (\<lambda>r.
          case r of
            None \<Rightarrow> retP missing_session
          | Some leased \<Rightarrow>
              if se_generationHash leased \<noteq> se_generationHash session then retP (RefreshSkipped SkipStaleGeneration None [])
              else bindP (callP (validate (se_artifact leased)) (CallValidate (se_artifact leased))) (\<lambda>validation.
                case validation of
                  InvalidSession f \<Rightarrow> retP (blocked_by f)
                | ValidSession _ \<Rightarrow> refresh_provider deps st ls refresh p ctx leaseId use leased)))
       (bindP (getP kn_leaseClosed) (\<lambda>closed.
          if closed then retP () else releaseLeaseQuietly deps leaseId ''refresh_completed_without_committed_writeback''))"

definition refresh_rotating ::
  "'env runtime_deps \<Rightarrow> compiled_policy \<Rightarrow> 'env session_store_port \<Rightarrow> 'env lease_store_port \<Rightarrow> (session_artifact \<Rightarrow> ('env, session_validation) port) \<Rightarrow>
   (session_artifact \<Rightarrow> workspace_handle \<Rightarrow> nat option \<Rightarrow> ('env, refreshed_session) port) \<Rightarrow>
   string \<Rightarrow> run_context \<Rightarrow> session_envelope \<Rightarrow> ('env, refresh_result) kernel_prog" where
  "refresh_rotating deps policy st ls validate refresh p ctx session =
     (let request = \<lparr>aq_providerInstanceId = p, aq_runId = rx_runId ctx, aq_attempt = rx_attempt ctx, aq_ttlMs = cp_timeoutMs policy,
            aq_restoredGenerationHash = se_generationHash session\<rparr>
      in bindP (begin_use deps) (\<lambda>use.
        finallyP
          (bindP (callP (lp_acquire ls request) (CallAcquire request)) (\<lambda>lease.
             case lease of
               LeaseStale _ \<Rightarrow> retP (RefreshSkipped SkipStaleGeneration None [])
             | LeaseDenied message \<Rightarrow> retP (RefreshBlocked BlockPermission message [])
             | LeaseGranted leaseId _ \<Rightarrow>
                 thenP (modifyP (\<lambda>s. s\<lparr>kn_leaseClosed := False\<rparr>))
                   (refresh_leased deps st ls validate refresh p ctx leaseId use session)))
          (complete_use deps use)))"

definition freshness_unknown :: "runtime_warning list" where
  "freshness_unknown = [\<lparr>rw_code = ''session_freshness_unknown'', rw_safeMessage = ''Session freshness could not be determined.''\<rparr>]"

definition inspectFreshness :: "'env runtime_deps \<Rightarrow> session_artifact \<Rightarrow> ('env, freshness) kernel_prog" where
  "inspectFreshness deps a =
     bindP (needP ''session_driver_required'' (dp_validateSession deps)) (\<lambda>_.
       case dp_inspectSessionFreshness deps of
         None \<Rightarrow> retP (RefreshRecommended [])
       | Some inspect \<Rightarrow> catchP (callP (inspect a) (CallFreshness a)) (\<lambda>_. retP (RefreshRecommended freshness_unknown)))"

definition validateStaticRuntimeSession :: "'env runtime_deps \<Rightarrow> execution_plan \<Rightarrow> string \<Rightarrow> ('env, refresh_result) kernel_prog" where
  "validateStaticRuntimeSession deps plan p =
     bindP (needP ''session_store_required'' (dp_sessionStore deps)) (\<lambda>st.
     bindP (needP ''session_driver_required'' (dp_validateSession deps)) (\<lambda>validate.
     bindP (callP (sp_read st p (Some (dp_providerId deps)) ''refresh'') (CallRead ''refresh'')) (\<lambda>r.
       case r of
         None \<Rightarrow> retP missing_session
       | Some session \<Rightarrow>
           if ep_refresh plan = PlanValidateOnly
           then bindP (callP (validate (se_artifact session)) (CallValidate (se_artifact session))) (\<lambda>validation.
             case validation of
               InvalidSession f \<Rightarrow> retP (blocked_by f)
             | ValidSession ws \<Rightarrow> retP (RefreshSkipped SkipNotRequired (Some session) ws))
           else retP (RefreshSkipped SkipNotRequired (Some session) []))))"

definition refreshSession ::
  "'env runtime_deps \<Rightarrow> compiled_policy \<Rightarrow> execution_plan \<Rightarrow> string \<Rightarrow> run_context \<Rightarrow> bool \<Rightarrow> ('env, refresh_result) kernel_prog" where
  "refreshSession deps policy plan p ctx forceRefresh =
     (case ep_kind plan of
        PlanNoSession \<Rightarrow> retP (RefreshSkipped SkipNotRequired None [])
      | PlanStaticSession \<Rightarrow> validateStaticRuntimeSession deps plan p
      | PlanRotatingSession \<Rightarrow>
          bindP (needP ''session_store_required'' (dp_sessionStore deps)) (\<lambda>st.
          bindP (needP ''lease_store_required'' (dp_leaseStore deps)) (\<lambda>ls.
          bindP (needP ''session_driver_required'' (dp_validateSession deps)) (\<lambda>validate.
          bindP (needP ''refreshable_session_driver_required'' (dp_refreshSession deps)) (\<lambda>refresh.
          bindP (callP (sp_read st p (Some (dp_providerId deps)) ''refresh'') (CallRead ''refresh'')) (\<lambda>r.
            case r of
              None \<Rightarrow> retP missing_session
            | Some session \<Rightarrow>
                thenP (registerSecret (sa_bytes (se_artifact session)))
                  (if ep_refresh plan = PlanLazy \<and> \<not> forceRefresh
                   then bindP (inspectFreshness deps (se_artifact session)) (\<lambda>freshness.
                     case freshness of
                       FreshSession ws \<Rightarrow> retP (RefreshSkipped SkipNotRequired (Some session) ws)
                     | RefreshRecommended _ \<Rightarrow> refresh_rotating deps policy st ls validate refresh p ctx session)
                   else refresh_rotating deps policy st ls validate refresh p ctx session)))))))"

section \<open>Write-back of a task's session update\<close>

definition warning :: "string \<Rightarrow> string \<Rightarrow> runtime_warning list" where
  "warning code message = [\<lparr>rw_code = code, rw_safeMessage = message\<rparr>]"

definition held_phase :: "nat option \<Rightarrow> ('env, writeback_phase) kernel_prog" where
  "held_phase use = getP (\<lambda>s. case map_of (kn_writebacks s) use of None \<Rightarrow> PhAcquired | Some h \<Rightarrow> hw_phase h)"

definition update_held :: "nat option \<Rightarrow> (pending_writeback \<Rightarrow> pending_writeback) \<Rightarrow> ('env, unit) kernel_prog" where
  "update_held use f = modifyP (\<lambda>s. case map_of (kn_writebacks s) use of
     None \<Rightarrow> s | Some h \<Rightarrow> s\<lparr>kn_writebacks := AList.update use (f h) (kn_writebacks s)\<rparr>)"

definition forget :: "nat option \<Rightarrow> ('env, unit) kernel_prog" where
  "forget use = modifyP (\<lambda>s. s\<lparr>kn_writebacks := AList.delete use (kn_writebacks s)\<rparr>)"

text \<open>The steps of a write-back from the phase it has reached; \<open>None\<close> to go on, or the warnings it returns.\<close>

definition wb_finalize :: "'env lease_store_port \<Rightarrow> nat option \<Rightarrow> pending_writeback \<Rightarrow> ('env, unit) kernel_prog" where
  "wb_finalize ls use held =
     (let i = wq_leaseId (hw_intent held); h = se_generationHash (hw_sessionEnvelope held) in
      bindP (held_phase use) (\<lambda>phase.
        if phase = PhAcquired
        then bindP (callP (lp_finalize ls i h) (CallFinalize i h)) (\<lambda>_. update_held use (\<lambda>x. x\<lparr>hw_phase := PhFinalized\<rparr>))
        else retP ()))"

definition wb_start :: "'env lease_store_port \<Rightarrow> nat option \<Rightarrow> pending_writeback \<Rightarrow> ('env, unit) kernel_prog" where
  "wb_start ls use held =
     (let i = wq_leaseId (hw_intent held) in
      bindP (held_phase use) (\<lambda>phase.
        if phase = PhFinalized
        then thenP (callP (lp_markWritebackStarted ls i) (CallStarted i)) (update_held use (\<lambda>x. x\<lparr>hw_phase := PhStarted\<rparr>))
        else retP ()))"

definition wb_write :: "'env session_store_port \<Rightarrow> nat option \<Rightarrow> pending_writeback \<Rightarrow> ('env, runtime_warning list option) kernel_prog" where
  "wb_write st use held =
     (let request = hw_intent held;
          attempt = callP (sp_write st request) (CallWrite request);
          written = (\<lambda>g h. if h \<noteq> hw_nextHash held then throwP ''task_session_finalization_changed''
            else thenP (update_held use (\<lambda>x. x\<lparr>hw_receipt := Some (g, h), hw_phase := PhWritten\<rparr>)) (retP None))
      in bindP (held_phase use) (\<lambda>phase.
        if phase = PhStarted
        then bindP (catchP attempt (\<lambda>e. if sp_supportsIdempotency st then attempt else throwP e)) (\<lambda>w.
          case w of
            WriteStale _ _ \<Rightarrow> retP (Some (warning ''task_session_update_writeback_stale_generation''
              ''Task session update was skipped because a newer session generation already exists.''))
          | WriteAccepted g h \<Rightarrow> written g h
          | WriteReplay g h \<Rightarrow> written g h)
        else retP None))"

definition wb_commit :: "'env lease_store_port \<Rightarrow> nat option \<Rightarrow> pending_writeback \<Rightarrow> ('env, runtime_warning list) kernel_prog" where
  "wb_commit ls use held =
     (let i = wq_leaseId (hw_intent held); key = wq_idempotencyKey (hw_intent held) in
      bindP (getP (\<lambda>s. map_of (kn_writebacks s) use)) (\<lambda>current.
        case current of
          None \<Rightarrow> retP []
        | Some x \<Rightarrow>
            (case (hw_phase x, hw_receipt x) of
               (PhWritten, Some (g, h)) \<Rightarrow>
                 bindP (callP (lp_markWritebackCommitted ls i h key) (CallCommitted i h key)) (\<lambda>c.
                   case c of
                     CommitStale _ \<Rightarrow> retP (warning ''task_session_update_writeback_stale_generation''
                       ''Original session lease has not acknowledged this credential generation.'')
                   | _ \<Rightarrow> thenP (update_held use (\<lambda>y. y\<lparr>hw_phase := PhCommitted\<rparr>)) (retP []))
             | _ \<Rightarrow> retP [])))"

definition wb_steps ::
  "'env session_store_port \<Rightarrow> 'env lease_store_port \<Rightarrow> nat option \<Rightarrow> pending_writeback \<Rightarrow> ('env, runtime_warning list) kernel_prog" where
  "wb_steps st ls use held =
     catchP
       (thenP (wb_finalize ls use held) (thenP (wb_start ls use held)
         (bindP (wb_write st use held) (\<lambda>w. case w of Some ws \<Rightarrow> retP ws | None \<Rightarrow> wb_commit ls use held))))
       (\<lambda>_. retP (warning ''task_session_update_writeback_failed'' ''Task session update could not be written back after task execution.''))"

definition wb_release :: "'env lease_store_port \<Rightarrow> nat option \<Rightarrow> string \<Rightarrow> ('env, unit) kernel_prog" where
  "wb_release ls use leaseId =
     bindP (held_phase use) (\<lambda>phase.
       case (use, lp_release ls) of
         (None, Some release) \<Rightarrow>
           if phase \<noteq> PhCommitted
           then catchP (callP (release leaseId ''task_session_update_writeback_not_committed'')
                  (CallRelease leaseId ''task_session_update_writeback_not_committed'')) (\<lambda>_. retP ())
           else retP ()
       | _ \<Rightarrow> retP ())"

definition wb_run ::
  "'env session_store_port \<Rightarrow> 'env lease_store_port \<Rightarrow> nat option \<Rightarrow> pending_writeback \<Rightarrow> ('env, runtime_warning list) kernel_prog" where
  "wb_run st ls use held = finallyP (wb_steps st ls use held) (wb_release ls use (wq_leaseId (hw_intent held)))"

definition wb_changed :: "pending_writeback \<Rightarrow> session_envelope \<Rightarrow> artifact_ref \<Rightarrow> run_context \<Rightarrow> string \<Rightarrow> bool" where
  "wb_changed held envelope upd ctx nextHash =
     (hw_nextHash held \<noteq> nextHash \<or> fst (hw_sessionUpdate held) \<noteq> fst upd \<or>
      se_providerInstanceId (hw_sessionEnvelope held) \<noteq> se_providerInstanceId envelope \<or>
      se_generation (hw_sessionEnvelope held) \<noteq> se_generation envelope \<or>
      se_generationHash (hw_sessionEnvelope held) \<noteq> se_generationHash envelope \<or>
      rx_runId (hw_runContext held) \<noteq> rx_runId ctx \<or> rx_attempt (hw_runContext held) \<noteq> rx_attempt ctx)"

definition wb_held :: "'env runtime_deps \<Rightarrow> session_envelope \<Rightarrow> artifact_ref \<Rightarrow> run_context \<Rightarrow> string \<Rightarrow> string \<Rightarrow> pending_writeback" where
  "wb_held deps envelope upd ctx nextHash leaseId =
     \<lparr>hw_sessionEnvelope = envelope, hw_sessionUpdate = upd, hw_runContext = ctx, hw_nextHash = nextHash,
      hw_intent = \<lparr>wq_providerInstanceId = se_providerInstanceId envelope, wq_expectedGeneration = se_generation envelope, wq_nextArtifact = snd upd,
        wq_idempotencyKey = dp_idempotencyKey deps (se_providerInstanceId envelope) (rx_runId ctx) (rx_attempt ctx) ''writeback'' @
          '':task-session-update:'' @ take 16 nextHash,
        wq_leaseId = leaseId, wq_metadata = None\<rparr>,
      hw_phase = PhAcquired, hw_receipt = None\<rparr>"

definition wb_acquire ::
  "'env runtime_deps \<Rightarrow> compiled_policy \<Rightarrow> 'env session_store_port \<Rightarrow> 'env lease_store_port \<Rightarrow> session_envelope \<Rightarrow> artifact_ref \<Rightarrow> run_context \<Rightarrow>
   string \<Rightarrow> nat option \<Rightarrow> ('env, runtime_warning list) kernel_prog" where
  "wb_acquire deps policy st ls envelope upd ctx nextHash use =
     (let request = \<lparr>aq_providerInstanceId = se_providerInstanceId envelope, aq_runId = rx_runId ctx, aq_attempt = rx_attempt ctx,
            aq_ttlMs = cp_timeoutMs policy, aq_restoredGenerationHash = se_generationHash envelope\<rparr>;
          unavailable = (\<lambda>status. retP (warning (''task_session_update_writeback_'' @ status)
            ''Task session update could not be written back because the session lease was unavailable.''))
      in bindP (callP (lp_acquire ls request) (CallAcquire request)) (\<lambda>lease.
        case lease of
          LeaseStale _ \<Rightarrow> unavailable ''stale''
        | LeaseDenied _ \<Rightarrow> unavailable ''denied''
        | LeaseGranted leaseId _ \<Rightarrow>
            let held = wb_held deps envelope upd ctx nextHash leaseId in
            thenP (modifyP (\<lambda>s. s\<lparr>kn_writebacks := AList.update use held (kn_writebacks s)\<rparr>)) (wb_run st ls use held)))"

definition wb_once :: "nat option \<Rightarrow> ('env, 'a) kernel_prog \<Rightarrow> ('env, 'a) kernel_prog" where
  "wb_once use m = (if use = None then finallyP m (forget None) else m)"

definition writeback_write ::
  "'env runtime_deps \<Rightarrow> compiled_policy \<Rightarrow> execution_plan \<Rightarrow> session_envelope \<Rightarrow> artifact_ref \<Rightarrow> run_context \<Rightarrow> nat option \<Rightarrow>
   ('env, runtime_warning list) kernel_prog" where
  "writeback_write deps policy plan envelope upd ctx use =
     (let nextHash = computeSessionGenerationHash (dp_digest deps) (snd upd) in
      if ep_kind plan \<noteq> PlanRotatingSession
      then retP (warning ''task_session_update_ignored'' ''Task session update was ignored because the runtime session does not rotate.'')
      else if sa_providerId (snd upd) \<noteq> se_providerId envelope
      then retP (warning ''task_session_update_provider_mismatch'' ''Task session update was ignored because the provider did not match.'')
      else if nextHash = se_generationHash envelope then retP []
      else case (dp_sessionStore deps, dp_leaseStore deps) of
        (Some st, Some ls) \<Rightarrow>
          wb_once use (bindP (getP (\<lambda>s. if use = None then None else map_of (kn_writebacks s) use)) (\<lambda>pending.
            case pending of
              None \<Rightarrow> wb_acquire deps policy st ls envelope upd ctx nextHash use
            | Some held \<Rightarrow>
                if wb_changed held envelope upd ctx nextHash then throwP ''task_session_finalization_changed''
                else wb_run st ls use held))
      | _ \<Rightarrow> throwP ''session_store_required'')"

definition maybeWritebackTaskSessionUpdate ::
  "'env runtime_deps \<Rightarrow> compiled_policy \<Rightarrow> execution_plan \<Rightarrow> task_result \<Rightarrow> session_envelope option \<Rightarrow> run_context \<Rightarrow> nat option \<Rightarrow>
   ('env, task_result) kernel_prog" where
  "maybeWritebackTaskSessionUpdate deps policy plan result envelope ctx use =
     (case (task_update result, envelope) of
        (Some upd, Some e) \<Rightarrow>
          bindP (writeback_write deps policy plan e upd ctx use) (\<lambda>ws. retP (if ws = [] then result else more_warnings ws result))
      | _ \<Rightarrow> retP result)"

section \<open>Tasks\<close>

definition pending_warning :: "runtime_warning list" where
  "pending_warning = warning ''task_session_finalization_pending''
     ''Original task result is retained until session finalization is acknowledged.''"

definition writeback_unsettled :: "task_result \<Rightarrow> bool" where
  "writeback_unsettled result = list_ex (\<lambda>w. take (length ''task_session_update_writeback_'') (rw_code w) = ''task_session_update_writeback_'' \<and>
     rw_code w \<noteq> ''task_session_update_writeback_success'') (task_warnings result)"

definition settle_finalize ::
  "'env runtime_deps \<Rightarrow> compiled_policy \<Rightarrow> execution_plan \<Rightarrow> nat \<Rightarrow> pending_finalization \<Rightarrow> ('env, task_result) kernel_prog" where
  "settle_finalize deps policy plan use held =
     bindP (needP ''TypeError'' (dp_finalizeTaskSession deps)) (\<lambda>finalizeTask.
     bindP (callP (finalizeTask use) (CallFinalizeTask use)) (\<lambda>finalized.
     bindP (maybeWritebackTaskSessionUpdate deps policy plan finalized (hf_sessionEnvelope held) (hf_runContext held) (Some use)) (\<lambda>result.
       if writeback_unsettled result then throwP ''task_session_finalization_pending''
       else bindP (needP ''TypeError'' (dp_retireTaskSession deps)) (\<lambda>retire.
         thenP (callP (retire use) (CallRetire use))
           (thenP (modifyP (\<lambda>s. s\<lparr>kn_finalizations := AList.update use (held\<lparr>hf_useCompleted := True\<rparr>) (kn_finalizations s)\<rparr>))
             (retP result))))))"

definition settleTaskSession :: "'env runtime_deps \<Rightarrow> compiled_policy \<Rightarrow> execution_plan \<Rightarrow> nat \<Rightarrow> ('env, task_result) kernel_prog" where
  "settleTaskSession deps policy plan use =
     bindP (getP (\<lambda>s. map_of (kn_finalizations s) use)) (\<lambda>pending.
       case pending of
         None \<Rightarrow> throwP ''task_session_finalization_missing''
       | Some held \<Rightarrow>
           catchP
             (bindP (if hf_useCompleted held then retP (hf_result held) else settle_finalize deps policy plan use held) (\<lambda>result.
                thenP (dispose_workspace deps (hf_workspace held))
                  (thenP (modifyP (\<lambda>s. s\<lparr>kn_finalizations := AList.delete use (kn_finalizations s)\<rparr>))
                    (thenP (forget (Some use)) (retP result)))))
             (\<lambda>_. retP (more_warnings pending_warning (hf_result held))))"

fun retry_finalizations :: "'env runtime_deps \<Rightarrow> compiled_policy \<Rightarrow> execution_plan \<Rightarrow> nat list \<Rightarrow> ('env, unit) kernel_prog" where
  "retry_finalizations deps policy plan [] = retP ()"
| "retry_finalizations deps policy plan (use # uses) =
     bindP (settleTaskSession deps policy plan use) (\<lambda>_.
     bindP (getP (\<lambda>s. map_of (kn_finalizations s) use)) (\<lambda>pending.
       if pending \<noteq> None then throwP ''task_session_finalization_pending'' else retry_finalizations deps policy plan uses))"

definition retryPendingTaskFinalizations :: "'env runtime_deps \<Rightarrow> compiled_policy \<Rightarrow> execution_plan \<Rightarrow> ('env, unit) kernel_prog" where
  "retryPendingTaskFinalizations deps policy plan = bindP (getP (\<lambda>s. map fst (kn_finalizations s))) (retry_finalizations deps policy plan)"

definition task_finished ::
  "'env runtime_deps \<Rightarrow> compiled_policy \<Rightarrow> execution_plan \<Rightarrow> session_envelope option \<Rightarrow> run_context \<Rightarrow> workspace_handle \<Rightarrow> nat option \<Rightarrow> task_result \<Rightarrow>
   ('env, task_result) kernel_prog" where
  "task_finished deps policy plan envelope ctx w use result =
     (case use of
        Some u \<Rightarrow>
          if \<not> waiting_for_input result \<and> dp_finalizeTaskSession deps \<noteq> None \<and> dp_retireTaskSession deps \<noteq> None
          then thenP (modifyP (\<lambda>s. s\<lparr>kn_retained := True, kn_finalizations := AList.update u
                 \<lparr>hf_result = result, hf_sessionEnvelope = envelope, hf_runContext = ctx, hf_workspace = w, hf_useCompleted = False\<rparr> (kn_finalizations s)\<rparr>))
                 (settleTaskSession deps policy plan u)
          else maybeWritebackTaskSessionUpdate deps policy plan result envelope ctx None
      | None \<Rightarrow> maybeWritebackTaskSessionUpdate deps policy plan result envelope ctx None)"

definition unless_retained :: "('env, unit) kernel_prog \<Rightarrow> ('env, unit) kernel_prog" where
  "unless_retained m = bindP (getP kn_retained) (\<lambda>retained. if retained then retP () else m)"

definition runTaskWithSession ::
  "'env runtime_deps \<Rightarrow> compiled_policy \<Rightarrow> execution_plan \<Rightarrow> session_artifact option \<Rightarrow> session_envelope option \<Rightarrow> provider_task \<Rightarrow> run_context \<Rightarrow>
   ('env, task_result) kernel_prog" where
  "runTaskWithSession deps policy plan session envelope task ctx =
     thenP (case session of None \<Rightarrow> retP () | Some a \<Rightarrow> registerSecret (sa_bytes a))
       (bindP (begin_use deps) (\<lambda>use.
          thenP (modifyP (\<lambda>s. s\<lparr>kn_retained := False\<rparr>))
            (finallyP
              (bindP (callP (dp_workspace deps) CallWorkspace) (\<lambda>w.
                 finallyP
                   (bindP (callP (dp_runTask deps session task w use) (CallRunTask session))
                      (task_finished deps policy plan envelope ctx w use))
                   (unless_retained (dispose_workspace deps w))))
              (unless_retained (complete_use deps use)))))"

definition runTask ::
  "'env runtime_deps \<Rightarrow> compiled_policy \<Rightarrow> execution_plan \<Rightarrow> string \<Rightarrow> provider_task \<Rightarrow> run_context \<Rightarrow> ('env, task_result) kernel_prog" where
  "runTask deps policy plan p task ctx =
     (case unsupportedTaskFailure deps task of
        Some (code, message) \<Rightarrow> retP (failedTask code message)
      | None \<Rightarrow>
          if ep_kind plan = PlanNoSession then runTaskWithSession deps policy plan None None task ctx
          else
            bindP (needP ''session_store_required'' (dp_sessionStore deps)) (\<lambda>st.
            bindP (needP ''session_driver_required'' (dp_validateSession deps)) (\<lambda>validate.
            bindP (callP (sp_read st p (Some (dp_providerId deps)) ''run'') (CallRead ''run'')) (\<lambda>r.
              case r of
                None \<Rightarrow> retP (failedTask NeedsReconnect ''Provider session is missing.'')
              | Some session \<Rightarrow>
                  let run = runTaskWithSession deps policy plan (Some (se_artifact session)) (Some session) task ctx in
                  if ep_kind plan = PlanStaticSession
                  then bindP (callP (validate (se_artifact session)) (CallValidate (se_artifact session))) (\<lambda>validation.
                    case validation of InvalidSession f \<Rightarrow> retP (TaskFailed f None []) | ValidSession _ \<Rightarrow> run)
                  else run))))"

section \<open>Refresh, then run\<close>

definition run_with ::
  "'env runtime_deps \<Rightarrow> compiled_policy \<Rightarrow> execution_plan \<Rightarrow> session_envelope \<Rightarrow> provider_task \<Rightarrow> run_context \<Rightarrow> ('env, task_result) kernel_prog" where
  "run_with deps policy plan session task ctx = runTaskWithSession deps policy plan (Some (se_artifact session)) (Some session) task ctx"

definition stale_message :: string where
  "stale_message = ''A newer provider session generation already exists.''"

text \<open>What follows a refresh that is neither blocked nor skipped as not required.\<close>

definition run_after_refresh ::
  "'env runtime_deps \<Rightarrow> compiled_policy \<Rightarrow> execution_plan \<Rightarrow> provider_task \<Rightarrow> run_context \<Rightarrow> string \<Rightarrow> refresh_result \<Rightarrow> ('env, run_result) kernel_prog" where
  "run_after_refresh deps policy plan task ctx missing refresh =
     (case refresh of
        RefreshBlocked reason message ws \<Rightarrow> retP (RunBlocked reason message ws)
      | RefreshSkipped SkipStaleGeneration _ ws \<Rightarrow> retP (RunBlocked BlockStaleGeneration stale_message ws)
      | _ \<Rightarrow>
          (case sessionForPostRefreshTask refresh of
             None \<Rightarrow> retP (RunBlocked BlockReconnect missing
               (case refresh of RefreshReady _ _ ws \<Rightarrow> ws | RefreshSkipped _ _ ws \<Rightarrow> ws | RefreshBlocked _ _ ws \<Rightarrow> ws))
           | Some session \<Rightarrow> bindP (run_with deps policy plan session task ctx) (\<lambda>result. retP (RunCompleted refresh result))))"

definition guard_wanted :: "task_result \<Rightarrow> bool" where
  "guard_wanted result = (case result of TaskFailed f _ _ \<Rightarrow> shouldGuardedRefresh f | _ \<Rightarrow> False)"

definition finalization_pending :: "task_result \<Rightarrow> bool" where
  "finalization_pending result = list_ex (\<lambda>w. rw_code w = ''task_session_finalization_pending'') (task_warnings result)"

definition run_fresh ::
  "'env runtime_deps \<Rightarrow> compiled_policy \<Rightarrow> execution_plan \<Rightarrow> string \<Rightarrow> provider_task \<Rightarrow> run_context \<Rightarrow> refresh_result \<Rightarrow> session_envelope \<Rightarrow>
   ('env, run_result) kernel_prog" where
  "run_fresh deps policy plan p task ctx refresh session =
     bindP (run_with deps policy plan session task ctx) (\<lambda>result.
       if guard_wanted result \<and> \<not> finalization_pending result
       then bindP (refreshSession deps policy plan p ctx True)
              (run_after_refresh deps policy plan task ctx ''Provider session is missing after guarded refresh.'')
       else retP (RunCompleted refresh result))"

definition refreshThenRunTask ::
  "'env runtime_deps \<Rightarrow> compiled_policy \<Rightarrow> execution_plan \<Rightarrow> string \<Rightarrow> provider_task \<Rightarrow> run_context \<Rightarrow> ('env, run_result) kernel_prog" where
  "refreshThenRunTask deps policy plan p task ctx =
     (case unsupportedTaskFailure deps task of
        Some (code, message) \<Rightarrow> retP (RunBlocked BlockTaskMode message [])
      | None \<Rightarrow>
          bindP (refreshSession deps policy plan p ctx False) (\<lambda>refresh.
            case (ep_kind plan, refresh) of
              (PlanNoSession, RefreshSkipped SkipNotRequired _ _) \<Rightarrow>
                bindP (runTaskWithSession deps policy plan None None task ctx) (\<lambda>result.
                  if guard_wanted result
                  then bindP (runTaskWithSession deps policy plan None None task ctx) (\<lambda>again. retP (RunCompleted refresh again))
                  else retP (RunCompleted refresh result))
            | (PlanStaticSession, RefreshSkipped SkipNotRequired (Some session) _) \<Rightarrow>
                bindP (run_with deps policy plan session task ctx) (\<lambda>result. retP (RunCompleted refresh result))
            | (PlanRotatingSession, RefreshSkipped SkipNotRequired (Some session) _) \<Rightarrow> run_fresh deps policy plan p task ctx refresh session
            | _ \<Rightarrow> run_after_refresh deps policy plan task ctx ''Provider session is missing after refresh.'' refresh))"

section \<open>Health and creation\<close>

definition runtimeHealthCheck :: "'env runtime_deps \<Rightarrow> execution_plan \<Rightarrow> string \<Rightarrow> ('env, health_result) kernel_prog" where
  "runtimeHealthCheck deps plan p =
     (if ep_kind plan = PlanNoSession then retP \<lparr>hr_healthy = True, hr_failures = [], hr_warnings = []\<rparr>
      else
        bindP (needP ''session_store_required'' (dp_sessionStore deps)) (\<lambda>st.
        bindP (needP ''session_driver_required'' (dp_validateSession deps)) (\<lambda>validate.
        bindP (callP (sp_read st p (Some (dp_providerId deps)) ''health-check'') (CallRead ''health-check'')) (\<lambda>r.
          case r of
            None \<Rightarrow> retP \<lparr>hr_healthy = False, hr_failures = [missingSessionFailure], hr_warnings = []\<rparr>
          | Some session \<Rightarrow>
              bindP (callP (validate (se_artifact session)) (CallValidate (se_artifact session))) (\<lambda>validation.
                case validation of
                  InvalidSession f \<Rightarrow> retP \<lparr>hr_healthy = False, hr_failures = [f], hr_warnings = []\<rparr>
                | ValidSession ws \<Rightarrow> retP \<lparr>hr_healthy = True, hr_failures = [], hr_warnings = ws\<rparr>)))))"

definition createSubscriptionRuntime ::
  "runtime_policy \<Rightarrow> provider_capabilities \<Rightarrow> agent_capabilities \<Rightarrow> store_capabilities option \<Rightarrow> runner_capabilities \<Rightarrow>
   rejection_code + compiled_policy \<times> execution_plan" where
  "createSubscriptionRuntime policy provider agent store runner =
     (case negotiateCapabilities policy provider agent store runner of
        Rejected code _ _ \<Rightarrow> Inl code
      | Accepted compiled plan \<Rightarrow> Inr (compiled, plan))"

definition new_kernel :: "'env \<Rightarrow> 'env kernel" where
  "new_kernel env = \<lparr>kn_env = env, kn_log = [], kn_leaseClosed = False, kn_retained = False, kn_finalizations = [], kn_writebacks = []\<rparr>"

end
