(* ===== verification/Kernel_Laws.thy ===== *)
theory Kernel_Laws
  imports Runtime_Kernel
begin

text \<open>
  What a run of the kernel does, whatever its ports answer: a weakest precondition for programs over
  ports, the protocol of a lease in the log of port calls, and what holds of refresh, write-back,
  finalization and of a whole run.
\<close>

section \<open>Weakest preconditions\<close>

definition wp :: "('s, 'e, 'a) prog \<Rightarrow> ('e + 'a \<Rightarrow> 's \<Rightarrow> bool) \<Rightarrow> 's \<Rightarrow> bool" where
  "wp m Q s = (case m s of (r, t) \<Rightarrow> Q r t)"

named_theorems wp_rules

lemma wp_ret [wp_rules]: "wp (retP x) Q s = Q (Inr x) s"
  and wp_throw [wp_rules]: "wp (throwP e) Q s = Q (Inl e) s"
  and wp_get [wp_rules]: "wp (getP f) Q s = Q (Inr (f s)) s"
  and wp_modify [wp_rules]: "wp (modifyP g) Q' s' = Q' (Inr ()) (g s')"
  by (simp_all add: wp_def)

lemma wp_bind [wp_rules]: "wp (bindP m f) Q s = wp m (\<lambda>r t. case r of Inl e \<Rightarrow> Q (Inl e) t | Inr x \<Rightarrow> wp (f x) Q t) s"
  by (auto simp: wp_def bindP_def split: prod.splits sum.splits)

lemma wp_then [wp_rules]: "wp (thenP m n) Q s = wp m (\<lambda>r t. case r of Inl e \<Rightarrow> Q (Inl e) t | Inr x \<Rightarrow> wp n Q t) s"
  by (simp add: thenP_def wp_bind)

lemma wp_finally [wp_rules]:
  "wp (finallyP m c) Q s = wp m (\<lambda>r t. wp c (\<lambda>r' u. case r' of Inl e \<Rightarrow> Q (Inl e) u | Inr x \<Rightarrow> Q r u) t) s"
  by (auto simp: wp_def finallyP_def split: prod.splits sum.splits)

lemma wp_catch [wp_rules]: "wp (catchP m h) Q s = wp m (\<lambda>r t. case r of Inl e \<Rightarrow> wp (h e) Q t | Inr x \<Rightarrow> Q (Inr x) t) s"
  by (auto simp: wp_def catchP_def split: prod.splits sum.splits)

lemma wp_mono: "wp m Q s \<Longrightarrow> (\<And>r t. Q r t \<Longrightarrow> Q' r t) \<Longrightarrow> wp m Q' s"
  by (auto simp: wp_def)

lemma wpD: "wp m Q s \<Longrightarrow> m s = (r, t) \<Longrightarrow> Q r t"
  by (simp add: wp_def)

lemma wpI: "(\<And>r t. m s = (r, t) \<Longrightarrow> Q r t) \<Longrightarrow> wp m Q s"
  by (auto simp: wp_def)

text \<open>A cleanup that moves the state along a relation the postcondition is stable under.\<close>

lemma wp_cleanup:
  assumes "moves R c" "\<And>e u. R t u \<Longrightarrow> Q (Inl e) u" "\<And>u. R t u \<Longrightarrow> Q r u"
  shows "wp c (\<lambda>r' u. case r' of Inl e \<Rightarrow> Q (Inl e) u | Inr x \<Rightarrow> Q r u) t"
proof (rule wpI)
  fix r' u
  assume "c t = (r', u)"
  then have "R t u" using assms(1) by (rule movesD [rotated])
  then show "case r' of Inl e \<Rightarrow> Q (Inl e) u | Inr x \<Rightarrow> Q r u" using assms(2,3) by (simp split: sum.splits)
qed

lemma moves_wp: "moves R m \<Longrightarrow> wp m (\<lambda>r t. R s t) s"
  by (simp add: moves_def wp_def case_prod_beta)

text \<open>A port answers anything.\<close>

lemma wp_call: "(\<And>r e. Q r (s\<lparr>kn_env := e, kn_log := kn_log s @ [entry r]\<rparr>)) \<Longrightarrow> wp (callP f entry) Q s"
  by (auto simp: wp_def callP_def split: prod.splits)

lemma wp_register [wp_rules]: "wp (registerSecret b) Q s = Q (Inr ()) (s\<lparr>kn_log := kn_log s @ [CallRegister b]\<rparr>)"
  by (simp add: registerSecret_def wp_modify)

lemma wp_need [wp_rules]: "wp (needP e x) Q s = (case x of None \<Rightarrow> Q (Inl e) s | Some v \<Rightarrow> Q (Inr v) s)"
  by (auto simp: needP_def wp_def split: option.splits)

section \<open>The protocol of a lease\<close>

text \<open>
  What the log says of the lease at hand. The protocol is broken by a lease call out of order, by a
  call for another lease, by a finalization with another hash than the acquisition named, by a write for
  another provider or lease, and by a commit of another hash or key than the store answered.
\<close>

datatype lease_watch =
    NoLease
  | Granted acquire_input string
  | FinalizedLease acquire_input string
  | StartedLease acquire_input string
  | WrittenLease acquire_input string string string
  | UnacknowledgedLease string
  | BrokenProtocol

fun answered :: "'e + 'a \<Rightarrow> 'b \<Rightarrow> 'b \<Rightarrow> 'b" where
  "answered (Inl _) old new = old"
| "answered (Inr _) old new = new"

fun acquired :: "acquire_input \<Rightarrow> string + lease_answer \<Rightarrow> lease_watch" where
  "acquired q (Inr (LeaseGranted i _)) = Granted q i"
| "acquired q _ = NoLease"

fun committed_watch :: "string \<Rightarrow> lease_watch \<Rightarrow> string + commit_result \<Rightarrow> lease_watch" where
  "committed_watch i old (Inl _) = old"
| "committed_watch i old (Inr (CommitStale _)) = UnacknowledgedLease i"
| "committed_watch i old (Inr _) = NoLease"

fun written_watch :: "acquire_input \<Rightarrow> string \<Rightarrow> string \<Rightarrow> string + write_result \<Rightarrow> lease_watch" where
  "written_watch q i key (Inr (WriteAccepted _ h)) = WrittenLease q i h key"
| "written_watch q i key (Inr (WriteReplay _ h)) = WrittenLease q i h key"
| "written_watch q i key _ = StartedLease q i"

fun on_acquire :: "acquire_input \<Rightarrow> string + lease_answer \<Rightarrow> lease_watch \<Rightarrow> lease_watch" where
  "on_acquire q r NoLease = acquired q r"
| "on_acquire q r (UnacknowledgedLease i) = acquired q r"
| "on_acquire q r _ = BrokenProtocol"

fun on_finalize :: "string \<Rightarrow> string \<Rightarrow> 'e + 'a \<Rightarrow> lease_watch \<Rightarrow> lease_watch" where
  "on_finalize i h r (Granted q j) =
     (if i = j \<and> h = aq_restoredGenerationHash q then answered r (Granted q j) (FinalizedLease q j) else BrokenProtocol)"
| "on_finalize i h r _ = BrokenProtocol"

fun on_started :: "string \<Rightarrow> 'e + 'a \<Rightarrow> lease_watch \<Rightarrow> lease_watch" where
  "on_started i r (FinalizedLease q j) = (if i = j then answered r (FinalizedLease q j) (StartedLease q j) else BrokenProtocol)"
| "on_started i r _ = BrokenProtocol"

fun on_write :: "write_request \<Rightarrow> string + write_result \<Rightarrow> lease_watch \<Rightarrow> lease_watch" where
  "on_write w r (StartedLease q j) =
     (if wq_leaseId w = j \<and> wq_providerInstanceId w = aq_providerInstanceId q then written_watch q j (wq_idempotencyKey w) r else BrokenProtocol)"
| "on_write w r _ = BrokenProtocol"

fun on_committed :: "string \<Rightarrow> string \<Rightarrow> string \<Rightarrow> string + commit_result \<Rightarrow> lease_watch \<Rightarrow> lease_watch" where
  "on_committed i h key r (FinalizedLease q j) =
     (if i = j \<and> h = aq_restoredGenerationHash q then committed_watch j (FinalizedLease q j) r else BrokenProtocol)"
| "on_committed i h key r (WrittenLease q j h' key') =
     (if i = j \<and> h = h' \<and> key = key' then committed_watch j (WrittenLease q j h' key') r else BrokenProtocol)"
| "on_committed i h key r _ = BrokenProtocol"

text \<open>The lease at hand, if the protocol is kept.\<close>

fun watched :: "lease_watch \<Rightarrow> string option" where
  "watched (Granted q i) = Some i"
| "watched (FinalizedLease q i) = Some i"
| "watched (StartedLease q i) = Some i"
| "watched (WrittenLease q i h k) = Some i"
| "watched (UnacknowledgedLease i) = Some i"
| "watched _ = None"

definition on_release :: "string \<Rightarrow> lease_watch \<Rightarrow> lease_watch" where
  "on_release i x = (if watched x = Some i then NoLease else BrokenProtocol)"

definition watch_step :: "lease_watch \<Rightarrow> port_call \<Rightarrow> lease_watch" where
  "watch_step x c = (case c of
       CallAcquire q r \<Rightarrow> on_acquire q r x
     | CallFinalize i h r \<Rightarrow> on_finalize i h r x
     | CallStarted i r \<Rightarrow> on_started i r x
     | CallWrite w r \<Rightarrow> on_write w r x
     | CallCommitted i h key r \<Rightarrow> on_committed i h key r x
     | CallRelease i why r \<Rightarrow> on_release i x
     | _ \<Rightarrow> x)"

definition lease_call :: "port_call \<Rightarrow> bool" where
  "lease_call c = (case c of CallAcquire _ _ \<Rightarrow> True | CallFinalize _ _ _ \<Rightarrow> True | CallStarted _ _ \<Rightarrow> True | CallWrite _ _ \<Rightarrow> True
     | CallCommitted _ _ _ _ \<Rightarrow> True | CallRelease _ _ _ \<Rightarrow> True | _ \<Rightarrow> False)"

lemma watch_step_call [simp]:
  "watch_step x (CallAcquire q r1) = on_acquire q r1 x" "watch_step x (CallFinalize i h r2) = on_finalize i h r2 x"
  "watch_step x (CallStarted i r3) = on_started i r3 x" "watch_step x (CallWrite w r4) = on_write w r4 x"
  "watch_step x (CallCommitted i h key r5) = on_committed i h key r5 x" "watch_step x (CallRelease i why r3) = on_release i x"
  by (simp_all add: watch_step_def)

definition watch :: "port_call list \<Rightarrow> lease_watch" where
  "watch calls = foldl watch_step NoLease calls"

lemma watch_append [simp]: "watch (calls @ new) = foldl watch_step (watch calls) new"
  by (simp add: watch_def)

fun settled :: "lease_watch \<Rightarrow> bool" where
  "settled NoLease = True"
| "settled (UnacknowledgedLease i) = True"
| "settled _ = False"

lemma other_call [simp]: "\<not> lease_call c \<Longrightarrow> watch_step x c = x"
  by (cases c) (simp_all add: lease_call_def watch_step_def)

lemma not_lease_calls [simp]:
  "\<not> lease_call (CallRead a b)" "\<not> lease_call (CallValidate v w)" "\<not> lease_call (CallFreshness v f)" "\<not> lease_call (CallRefresh v g)"
  "\<not> lease_call (CallRunTask h i)" "\<not> lease_call (CallFinalizeTask j i)" "\<not> lease_call (CallRetire j k)" "\<not> lease_call (CallBegin l)"
  "\<not> lease_call (CallComplete j k)" "\<not> lease_call (CallWorkspace n)" "\<not> lease_call (CallDispose a k)" "\<not> lease_call (CallRegister a)"
  by (simp_all add: lease_call_def)

lemma settled_acquire [simp]: "settled x \<Longrightarrow> on_acquire q r x = acquired q r"
  by (cases x) simp_all

lemma settled_commit [simp]: "settled (committed_watch i old (Inr x))"
  by (cases x) simp_all

lemma watched_release [simp]: "watched x = Some i \<Longrightarrow> on_release i x = NoLease"
  by (simp add: on_release_def)

section \<open>Refresh keeps the protocol\<close>

text \<open>The kernel can always release a lease.\<close>

definition can_release :: "'env runtime_deps \<Rightarrow> bool" where
  "can_release deps = (\<forall>ls. dp_leaseStore deps = Some ls \<longrightarrow> lp_release ls \<noteq> None)"

lemma wp_dispose:
  "Q (Inr ()) s \<Longrightarrow> (\<And>r e. Q r (s\<lparr>kn_env := e, kn_log := kn_log s @ [CallDispose (wh_path w) r]\<rparr>)) \<Longrightarrow> wp (dispose_workspace deps w) Q s"
  by (simp add: dispose_workspace_def wp_rules wp_call)

lemma wp_begin:
  "Q (Inr None) s \<Longrightarrow> (\<And>m e. Q (Inl m) (s\<lparr>kn_env := e, kn_log := kn_log s @ [CallBegin (Inl m)]\<rparr>)) \<Longrightarrow>
   (\<And>u e. Q (Inr (Some u)) (s\<lparr>kn_env := e, kn_log := kn_log s @ [CallBegin (Inr u)]\<rparr>)) \<Longrightarrow> wp (begin_use deps) Q s"
  by (auto simp: begin_use_def wp_rules split: option.splits sum.splits intro!: wp_call)

lemma wp_complete:
  "Q (Inr ()) s \<Longrightarrow> (\<And>u r e. use = Some u \<Longrightarrow> Q r (s\<lparr>kn_env := e, kn_log := kn_log s @ [CallComplete u r]\<rparr>)) \<Longrightarrow>
   wp (complete_use deps use) Q s"
  by (auto simp: complete_use_def wp_rules split: option.splits intro!: wp_call)

lemma wp_release:
  "(Option.bind (dp_leaseStore deps) lp_release = None \<Longrightarrow> Q (Inr ()) s) \<Longrightarrow>
   (\<And>r e. Q (Inr ()) (s\<lparr>kn_env := e, kn_log := kn_log s @ [CallRelease i why r]\<rparr>)) \<Longrightarrow> wp (releaseLeaseQuietly deps i why) Q s"
  by (auto simp: releaseLeaseQuietly_def wp_rules split: option.splits sum.splits intro!: wp_call)

definition granted_for :: "string \<Rightarrow> string \<Rightarrow> string \<Rightarrow> 'env kernel \<Rightarrow> bool" where
  "granted_for p h i s = (\<exists>q. watch (kn_log s) = Granted q i \<and> aq_providerInstanceId q = p \<and> aq_restoredGenerationHash q = h)"

text \<open>Inside a lease: it is at hand and not closed, or it is closed.\<close>

definition lease_kept :: "string \<Rightarrow> 'env kernel \<Rightarrow> bool" where
  "lease_kept i s = (if kn_leaseClosed s then settled (watch (kn_log s)) else watched (watch (kn_log s)) = Some i)"

lemma watch_others: "\<forall>c\<in>set new. \<not> lease_call c \<Longrightarrow> foldl watch_step x new = x"
  by (induction new arbitrary: x) simp_all

lemma lease_kept_other [simp]:
  "\<forall>c\<in>set new. \<not> lease_call c \<Longrightarrow> lease_kept i (s\<lparr>kn_env := e, kn_log := kn_log s @ new\<rparr>) = lease_kept i s"
  by (simp add: lease_kept_def watch_others)

lemma granted_for_other [simp]:
  "\<forall>c\<in>set new. \<not> lease_call c \<Longrightarrow> granted_for p h i (s\<lparr>kn_env := e, kn_log := kn_log s @ new\<rparr>) = granted_for p h i s"
  by (simp add: granted_for_def watch_others)

lemma granted_kept: "granted_for p h i s \<Longrightarrow> \<not> kn_leaseClosed s \<Longrightarrow> lease_kept i s"
  by (auto simp: granted_for_def lease_kept_def)

lemma refresh_writeback_watch:
  assumes "granted_for p (se_generationHash leased) i s" "\<not> kn_leaseClosed s"
  shows "wp (refresh_writeback deps st ls p ctx i leased refreshed) (\<lambda>r. lease_kept i) s"
  using assms unfolding refresh_writeback_def granted_for_def
  by (auto simp: wp_rules Let_def close_lease_def lease_kept_def split: sum.splits write_result.splits commit_result.splits intro!: wp_call)

lemma refresh_provider_watch:
  assumes "granted_for p (se_generationHash leased) i s" "\<not> kn_leaseClosed s"
  shows "wp (refresh_provider deps st ls refresh p ctx i use leased) (\<lambda>r. lease_kept i) s"
proof -
  have "wp (refresh_writeback deps st ls p ctx i leased refreshed) (\<lambda>r. wp (dispose_workspace deps w) (\<lambda>r. lease_kept i)) s'"
    if "granted_for p (se_generationHash leased) i s'" "\<not> kn_leaseClosed s'" for refreshed w s'
    using refresh_writeback_watch [OF that] by (rule wp_mono) (auto intro!: wp_dispose)
  then show ?thesis using assms granted_kept [OF assms]
    by (auto simp: refresh_provider_def wp_rules split: sum.splits provider_state.splits intro!: wp_call wp_dispose)
qed

definition at_rest :: "'env kernel \<Rightarrow> bool" where
  "at_rest s = settled (watch (kn_log s))"

lemma at_rest_other [simp]:
  "\<forall>c\<in>set new. \<not> lease_call c \<Longrightarrow> at_rest (s\<lparr>kn_env := e, kn_log := kn_log s @ new\<rparr>) = at_rest s"
  "\<forall>c\<in>set new. \<not> lease_call c \<Longrightarrow> at_rest (s\<lparr>kn_log := kn_log s @ new\<rparr>) = at_rest s"
  by (simp_all add: at_rest_def watch_others)

lemma refresh_leased_watch:
  assumes "granted_for p (se_generationHash session) i s" "\<not> kn_leaseClosed s" "can_release deps" "dp_leaseStore deps = Some ls"
  shows "wp (refresh_leased deps st ls validate refresh p ctx i use session) (\<lambda>r. at_rest) s"
proof -
  let ?finish = "bindP (getP kn_leaseClosed) (\<lambda>closed. if closed then retP () else releaseLeaseQuietly deps i ''refresh_completed_without_committed_writeback'')"
  have finish: "wp ?finish (\<lambda>r. at_rest) t" if "lease_kept i t" for t
    using that assms(3,4) by (auto simp: wp_rules lease_kept_def at_rest_def can_release_def intro!: wp_release)
  have "wp (refresh_provider deps st ls refresh p ctx i use leased) (\<lambda>r. wp ?finish (\<lambda>r. at_rest)) s'"
    if "granted_for p (se_generationHash leased) i s'" "\<not> kn_leaseClosed s'" for leased s'
    using refresh_provider_watch [OF that] by (rule wp_mono) (rule finish)
  then show ?thesis using assms(1,2) granted_kept [OF assms(1,2)]
    unfolding refresh_leased_def wp_finally
    by (auto simp: wp_ret wp_bind [of "callP _ _"] split: sum.splits option.splits session_validation.splits intro!: wp_call finish)
qed

lemma wp_acquire:
  assumes "at_rest s" "\<And>m t. at_rest t \<Longrightarrow> Q (Inl m) t" "\<And>x t. at_rest t \<Longrightarrow> Q (Inr (LeaseStale x)) t"
    "\<And>x t. at_rest t \<Longrightarrow> Q (Inr (LeaseDenied x)) t"
    "\<And>i d t. granted_for (aq_providerInstanceId q) (aq_restoredGenerationHash q) i t \<Longrightarrow> Q (Inr (LeaseGranted i d)) t"
  shows "wp (callP f (CallAcquire q)) Q s"
proof (rule wp_call)
  fix r e
  let ?t = "s\<lparr>kn_env := e, kn_log := kn_log s @ [CallAcquire q r]\<rparr>"
  have w: "watch (kn_log ?t) = acquired q r" using assms(1) by (simp add: at_rest_def)
  show "Q r ?t"
  proof (cases r)
    case (Inr x)
    then show ?thesis using w assms(3-5) by (cases x) (auto simp: at_rest_def granted_for_def)
  qed (use w assms(2) in \<open>simp add: at_rest_def\<close>)
qed

lemma refresh_rotating_watch:
  assumes "at_rest s" "can_release deps" "dp_leaseStore deps = Some ls"
  shows "wp (refresh_rotating deps policy st ls validate refresh p ctx session) (\<lambda>r. at_rest) s"
proof -
  have leased: "wp (refresh_leased deps st ls validate refresh p ctx i use session) (\<lambda>r. wp (complete_use deps use) (\<lambda>r. at_rest)) s'"
    if "granted_for p (se_generationHash session) i s'" "\<not> kn_leaseClosed s'" for i use s'
    using refresh_leased_watch [OF that assms(2,3)] by (rule wp_mono) (auto intro!: wp_complete)
  have reset: "granted_for p h i (s\<lparr>kn_leaseClosed := False\<rparr>) = granted_for p h i s" for h i and s :: "'a kernel"
    by (simp add: granted_for_def)
  show ?thesis using assms(1)
    by (auto simp: refresh_rotating_def Let_def wp_rules reset
        split: sum.splits lease_answer.splits intro!: wp_begin wp_complete wp_acquire leased)
qed

lemma refreshSession_watch:
  assumes "at_rest s" "can_release deps"
  shows "wp (refreshSession deps policy plan p ctx force) (\<lambda>r. at_rest) s"
  using assms refresh_rotating_watch [OF _ assms(2)]
  by (auto simp: refreshSession_def validateStaticRuntimeSession_def inspectFreshness_def wp_rules
      split: sum.splits option.splits plan_kind.splits freshness.splits session_validation.splits intro!: wp_call)

section \<open>A write-back keeps the protocol\<close>

lemmas wb_defs = wb_finalize_def wb_start_def wb_write_def wb_commit_def held_phase_def update_held_def

definition wb_open :: "nat option \<Rightarrow> string \<Rightarrow> 'env kernel \<Rightarrow> bool" where
  "wb_open use i s = (case map_of (kn_writebacks s) use of None \<Rightarrow> False
     | Some h \<Rightarrow> if hw_phase h = PhCommitted then at_rest s else watched (watch (kn_log s)) = Some i)"

lemma wb_steps_watch:
  assumes "granted_for (wq_providerInstanceId (hw_intent held)) (se_generationHash (hw_sessionEnvelope held)) (wq_leaseId (hw_intent held)) s"
    "map_of (kn_writebacks s) use = Some held" "hw_phase held = PhAcquired"
  shows "wp (wb_steps st ls use held) (\<lambda>r. wb_open use (wq_leaseId (hw_intent held))) s"
  using assms unfolding granted_for_def
  by (auto simp: wb_steps_def wb_defs Let_def wp_rules wb_open_def at_rest_def
      split: sum.splits write_result.splits commit_result.splits intro!: wp_call)

lemma wb_acquire_watch:
  assumes "at_rest s" "lp_release ls \<noteq> None"
  shows "wp (wb_acquire deps policy st ls envelope upd ctx nextHash None) (\<lambda>r. at_rest) s"
proof -
  have release: "wp (wb_release ls None i) (\<lambda>r. at_rest) t" if "wb_open None i t" for i t
    using that assms(2)
    by (auto simp: wb_release_def held_phase_def wb_open_def at_rest_def wp_rules split: option.splits sum.splits if_splits intro!: wp_call)
  have "wp (wb_run st ls None held) (\<lambda>r. at_rest) t"
    if "granted_for (wq_providerInstanceId (hw_intent held)) (se_generationHash (hw_sessionEnvelope held)) (wq_leaseId (hw_intent held)) t"
      "map_of (kn_writebacks t) None = Some held" "hw_phase held = PhAcquired" for held t
    using wb_steps_watch [OF that]
    unfolding wb_run_def wp_finally by (rule wp_mono) (auto split: sum.splits intro!: wp_mono [OF release])
  then show ?thesis using assms(1)
    by (auto simp: wb_acquire_def Let_def wp_rules wb_held_def granted_for_def split: sum.splits lease_answer.splits intro!: wp_acquire)
qed

lemma writeback_watch:
  assumes "at_rest s" "can_release deps"
  shows "wp (writeback_write deps policy plan envelope upd ctx None) (\<lambda>r. at_rest) s"
proof -
  have forget: "at_rest (t\<lparr>kn_writebacks := x\<rparr>) = at_rest t" for t :: "'a kernel" and x
    by (simp add: at_rest_def)
  have "wp (wb_acquire deps policy st ls envelope upd ctx nextHash None) (\<lambda>r. wp (forget None) (\<lambda>r. at_rest)) s"
    if "dp_leaseStore deps = Some ls" for st ls nextHash
    using that assms wb_acquire_watch [OF assms(1), of ls deps policy st envelope upd ctx nextHash]
    by (auto simp: can_release_def forget_def wp_rules forget elim!: wp_mono)
  then show ?thesis using assms(1)
    by (auto simp: writeback_write_def wb_once_def Let_def wp_rules split: option.splits)
qed

text \<open>A kernel that keeps a finished task until its session is finalized.\<close>

definition retains :: "'env runtime_deps \<Rightarrow> bool" where
  "retains deps = (dp_begin deps \<noteq> None \<and> dp_finalizeTaskSession deps \<noteq> None \<and> dp_retireTaskSession deps \<noteq> None)"

section \<open>A run keeps the protocol\<close>

lemma wp_keeps: "(\<And>s. P s \<Longrightarrow> wp m (\<lambda>r. P) s) \<Longrightarrow> keeps P m"
  by (simp add: moves_def wp_def case_prod_beta)

lemma call_rests [simp, intro]: "(\<And>r. \<not> lease_call (entry r)) \<Longrightarrow> keeps at_rest (callP f entry)"
  by (rule wp_keeps) (auto intro!: wp_call)

lemma update_rests [simp]:
  "at_rest (s\<lparr>kn_retained := b\<rparr>) = at_rest s" "at_rest (s\<lparr>kn_finalizations := fs\<rparr>) = at_rest s" "at_rest (s\<lparr>kn_writebacks := ws\<rparr>) = at_rest s"
  by (simp_all add: at_rest_def)

lemmas rest_rules = keeping.moves_bind keeping.moves_then keeping.moves_finally keeping.moves_catch

lemma parts_rest [simp, intro]:
  "keeps at_rest (needP m x)" "keeps at_rest (registerSecret b)" "keeps at_rest (dispose_workspace deps w)"
  "keeps at_rest (begin_use deps)" "keeps at_rest (complete_use deps use)"
  by (auto simp: needP_def registerSecret_def dispose_workspace_def begin_use_def complete_use_def split: option.splits)

lemma maybe_writeback_rests: "can_release deps \<Longrightarrow> keeps at_rest (maybeWritebackTaskSessionUpdate deps policy plan result envelope ctx None)"
  unfolding maybeWritebackTaskSessionUpdate_def
  by (auto split: option.splits intro!: rest_rules wp_keeps [of at_rest "writeback_write _ _ _ _ _ _ _"] writeback_watch)

lemma use_without_begin: "dp_begin deps = None \<Longrightarrow> begin_use deps = retP None"
  by (simp add: begin_use_def)

lemma run_with_session_rests:
  assumes "can_release deps" "\<not> retains deps"
  shows "keeps at_rest (runTaskWithSession deps policy plan session envelope task ctx)"
proof -
  have finished: "keeps at_rest (task_finished deps policy plan envelope ctx w use result)" if "dp_begin deps = None \<longrightarrow> use = None" for w use result
    using that assms maybe_writeback_rests by (auto simp: task_finished_def retains_def split: option.splits)
  show ?thesis
  proof (cases "dp_begin deps")
    case None
    then show ?thesis using finished
      by (auto simp: runTaskWithSession_def use_without_begin unless_retained_def split: option.splits intro!: rest_rules)
  next
    case (Some f)
    then show ?thesis using finished
      by (auto simp: runTaskWithSession_def unless_retained_def split: option.splits intro!: rest_rules)
  qed
qed

lemma run_after_rests:
  assumes "can_release deps" "\<not> retains deps"
  shows "keeps at_rest (run_with deps policy plan session task ctx)" "keeps at_rest (run_after_refresh deps policy plan task ctx missing refresh)"
  using run_with_session_rests [OF assms]
  by (auto simp: run_with_def run_after_refresh_def split: option.splits refresh_result.splits skip_reason.splits intro!: rest_rules)

lemma refresh_then_run_rests:
  assumes "can_release deps" "\<not> retains deps"
  shows "keeps at_rest (refreshThenRunTask deps policy plan p task ctx)"
proof -
  have "keeps at_rest (refreshSession deps policy plan p ctx force)" for force
    using refreshSession_watch [OF _ assms(1)] by (rule wp_keeps)
  then show ?thesis using run_after_rests [OF assms] run_with_session_rests [OF assms]
    by (auto simp: refreshThenRunTask_def run_fresh_def
        split: option.splits plan_kind.splits refresh_result.splits skip_reason.splits intro!: rest_rules)
qed

lemma run_task_rests:
  assumes "can_release deps" "\<not> retains deps"
  shows "keeps at_rest (runTask deps policy plan p task ctx)"
  using run_with_session_rests [OF assms]
  by (auto simp: runTask_def Let_def split: option.splits session_validation.splits intro!: rest_rules)

end
