(* ===== verification/Kernel_Relations.thy ===== *)
theory Kernel_Relations
  imports Kernel_Laws
begin

text \<open>
  Relations between the kernel before and after a method, from what its port calls do: if every call
  moves the kernel along a preorder, and what is opened is closed along it, so does every method. The
  instances: the log of calls grows, and workspaces and session uses are given back.
\<close>

section \<open>From calls to methods\<close>

locale kernel_relation = state_preorder R for R :: "'env kernel \<Rightarrow> 'env kernel \<Rightarrow> bool" +
  fixes deps :: "'env runtime_deps"
  assumes quiet: "R s (s\<lparr>kn_leaseClosed := b\<rparr>)" "R s (s\<lparr>kn_writebacks := ws\<rparr>)" "R s (s\<lparr>kn_log := kn_log s @ [CallRegister x]\<rparr>)"
    and store_calls: "dp_sessionStore deps = Some st \<Longrightarrow> moves R (callP (sp_read st p y z) (CallRead z))"
      "dp_sessionStore deps = Some st \<Longrightarrow> moves R (callP (sp_write st w) (CallWrite w))"
    and lease_calls: "dp_leaseStore deps = Some ls \<Longrightarrow> moves R (callP (lp_acquire ls q) (CallAcquire q))"
      "dp_leaseStore deps = Some ls \<Longrightarrow> moves R (callP (lp_finalize ls i h) (CallFinalize i h))"
      "dp_leaseStore deps = Some ls \<Longrightarrow> moves R (callP (lp_markWritebackStarted ls i) (CallStarted i))"
      "dp_leaseStore deps = Some ls \<Longrightarrow> moves R (callP (lp_markWritebackCommitted ls i h k) (CallCommitted i h k))"
      "dp_leaseStore deps = Some ls \<Longrightarrow> lp_release ls = Some release \<Longrightarrow> moves R (callP (release i why) (CallRelease i why))"
    and driver_calls: "dp_validateSession deps = Some validate \<Longrightarrow> moves R (callP (validate a) (CallValidate a))"
      "dp_refreshSession deps = Some refresh \<Longrightarrow> moves R (callP (refresh a d u) (CallRefresh a))"
      "dp_inspectSessionFreshness deps = Some inspect \<Longrightarrow> moves R (callP (inspect a) (CallFreshness a))"
    and workspace_failed: "callP (dp_workspace deps) CallWorkspace s = (Inl m, t) \<Longrightarrow> R s t"
    and workspace_closed: "callP (dp_workspace deps) CallWorkspace s = (Inr d, t) \<Longrightarrow> R t t' \<Longrightarrow> R s (snd (dispose_workspace deps d t'))"
    and use_failed: "begin_use deps s = (Inl m, t) \<Longrightarrow> R s t"
    and use_closed: "begin_use deps s = (Inr u, t) \<Longrightarrow> R t t' \<Longrightarrow> R s (snd (complete_use deps u t'))"
begin

lemma with_workspace:
  assumes "\<And>d. moves R (m d)"
  shows "moves R (bindP (callP (dp_workspace deps) CallWorkspace) (\<lambda>d. finallyP (m d) (dispose_workspace deps d)))"
  unfolding moves_def
proof
  fix s
  show "R s (snd (bindP (callP (dp_workspace deps) CallWorkspace) (\<lambda>d. finallyP (m d) (dispose_workspace deps d)) s))"
  proof (cases rule: bindP_cases [of "callP (dp_workspace deps) CallWorkspace" s "\<lambda>d. finallyP (m d) (dispose_workspace deps d)"])
    case (1 e t)
    then show ?thesis using workspace_failed by simp
  next
    case (2 d t)
    have "R t (snd (m d t))" using assms by (simp add: moves_def)
    from workspace_closed [OF 2(1) this] show ?thesis
      unfolding 2(2) by (auto simp: finallyP_def split: prod.splits sum.splits)
  qed
qed

lemma with_use:
  assumes "\<And>u. moves R (m u)"
  shows "moves R (bindP (begin_use deps) (\<lambda>u. finallyP (m u) (complete_use deps u)))"
  unfolding moves_def
proof
  fix s
  show "R s (snd (bindP (begin_use deps) (\<lambda>u. finallyP (m u) (complete_use deps u)) s))"
  proof (cases rule: bindP_cases [of "begin_use deps" s "\<lambda>u. finallyP (m u) (complete_use deps u)"])
    case (1 e t)
    then show ?thesis using use_failed by simp
  next
    case (2 u t)
    have "R t (snd (m u t))" using assms by (simp add: moves_def)
    from use_closed [OF 2(1) this] show ?thesis
      unfolding 2(2) by (auto simp: finallyP_def split: prod.splits sum.splits)
  qed
qed

lemma need_moves [simp, intro]: "moves R (needP m x)"
  by (auto simp: needP_def split: option.splits)

lemma register_moves [simp, intro]: "moves R (registerSecret b)"
  unfolding registerSecret_def by (intro moves_modify quiet)

lemma close_moves [simp, intro]: "moves R close_lease"
  unfolding close_lease_def by (intro moves_modify quiet)

lemmas parts_move = moves_bind moves_then moves_finally moves_catch

lemma need_then: "(\<And>v. x = Some v \<Longrightarrow> moves R (f v)) \<Longrightarrow> moves R (bindP (needP m x) f)"
  by (cases x) (auto simp: needP_def)

lemma quiet_release_moves: "moves R (releaseLeaseQuietly deps i why)"
  by (auto simp: releaseLeaseQuietly_def bind_eq_Some_conv split: option.splits intro!: parts_move lease_calls)

lemma refresh_writeback_moves:
  "dp_sessionStore deps = Some st \<Longrightarrow> dp_leaseStore deps = Some ls \<Longrightarrow> moves R (refresh_writeback deps st ls p ctx i leased refreshed)"
  by (auto simp: refresh_writeback_def Let_def split: write_result.splits intro!: parts_move lease_calls store_calls)

lemma refresh_provider_moves:
  "dp_sessionStore deps = Some st \<Longrightarrow> dp_leaseStore deps = Some ls \<Longrightarrow> dp_refreshSession deps = Some refresh \<Longrightarrow>
   moves R (refresh_provider deps st ls refresh p ctx i use leased)"
  unfolding refresh_provider_def
  by (rule with_workspace) (auto split: provider_state.splits intro!: parts_move driver_calls refresh_writeback_moves)

lemma refresh_leased_moves:
  "dp_sessionStore deps = Some st \<Longrightarrow> dp_leaseStore deps = Some ls \<Longrightarrow> dp_refreshSession deps = Some refresh \<Longrightarrow>
   dp_validateSession deps = Some validate \<Longrightarrow> moves R (refresh_leased deps st ls validate refresh p ctx i use session)"
  by (auto simp: refresh_leased_def split: option.splits session_validation.splits
      intro!: parts_move driver_calls store_calls refresh_provider_moves quiet_release_moves)

lemma refresh_rotating_moves:
  "dp_sessionStore deps = Some st \<Longrightarrow> dp_leaseStore deps = Some ls \<Longrightarrow> dp_refreshSession deps = Some refresh \<Longrightarrow>
   dp_validateSession deps = Some validate \<Longrightarrow> moves R (refresh_rotating deps policy st ls validate refresh p ctx session)"
  unfolding refresh_rotating_def Let_def
  by (rule with_use) (auto split: lease_answer.splits intro!: parts_move lease_calls refresh_leased_moves moves_modify quiet)

lemma inspect_moves: "moves R (inspectFreshness deps a)"
  unfolding inspectFreshness_def by (rule need_then) (auto split: option.splits intro!: parts_move driver_calls)

lemma static_moves: "moves R (validateStaticRuntimeSession deps plan p)"
  unfolding validateStaticRuntimeSession_def
  by (intro need_then) (auto split: option.splits session_validation.splits intro!: parts_move store_calls driver_calls)

lemma refresh_moves: "moves R (refreshSession deps policy plan p ctx force)"
proof (cases "ep_kind plan")
  case PlanRotatingSession
  then show ?thesis unfolding refreshSession_def
    by simp (intro need_then, auto split: option.splits freshness.splits intro!: parts_move store_calls inspect_moves refresh_rotating_moves)
qed (simp_all add: refreshSession_def static_moves)

lemma health_moves: "moves R (runtimeHealthCheck deps plan p)"
  unfolding runtimeHealthCheck_def
  by (simp, intro impI need_then) (auto split: option.splits session_validation.splits intro!: parts_move store_calls driver_calls)

lemma held_moves: "moves R (held_phase use)" "moves R (update_held use f)" "moves R (forget use)"
  unfolding held_phase_def update_held_def forget_def
  by (auto split: option.splits intro!: moves_modify quiet stays)

lemma wb_run_moves:
  "dp_sessionStore deps = Some st \<Longrightarrow> dp_leaseStore deps = Some ls \<Longrightarrow> moves R (wb_run st ls use held)"
  unfolding wb_run_def wb_steps_def wb_finalize_def wb_start_def wb_write_def wb_commit_def wb_release_def Let_def
  by (auto split: option.splits prod.splits write_result.splits commit_result.splits writeback_phase.splits
      intro!: parts_move held_moves lease_calls store_calls)

lemma writeback_moves: "moves R (writeback_write deps policy plan envelope upd ctx use)"
  by (auto simp: writeback_write_def wb_once_def wb_acquire_def Let_def split: option.splits lease_answer.splits
      intro!: parts_move held_moves lease_calls moves_modify quiet wb_run_moves)

lemma maybe_writeback_moves: "moves R (maybeWritebackTaskSessionUpdate deps policy plan result envelope ctx use)"
  by (auto simp: maybeWritebackTaskSessionUpdate_def split: option.splits intro!: parts_move writeback_moves)

end

text \<open>A relation that also holds along the calls of a finalization.\<close>

locale settle_relation = kernel_relation +
  assumes flags: "R s (s\<lparr>kn_retained := b\<rparr>)" "R s (s\<lparr>kn_finalizations := fs\<rparr>)"
    and settle_calls: "dp_finalizeTaskSession deps = Some finalizeTask \<Longrightarrow> moves R (callP (finalizeTask j) (CallFinalizeTask j))"
      "dp_retireTaskSession deps = Some retire \<Longrightarrow> moves R (callP (retire j) (CallRetire j))"
    and dispose_call: "moves R (dispose_workspace deps d)"
begin

lemma settle_moves: "moves R (settleTaskSession deps policy plan use)"
  unfolding settleTaskSession_def settle_finalize_def
  by (auto split: option.splits intro!: parts_move need_then settle_calls maybe_writeback_moves dispose_call held_moves moves_modify flags)

lemma retry_moves: "moves R (retry_finalizations deps policy plan uses)"
  by (induction uses) (auto simp: moves_def [of R "Pair (Inr ())"] stays intro!: parts_move settle_moves)

lemma retry_pending_moves: "moves R (retryPendingTaskFinalizations deps policy plan)"
  unfolding retryPendingTaskFinalizations_def by (intro parts_move retry_moves moves_ret)

lemma finished_moves: "moves R (task_finished deps policy plan envelope ctx w use result)"
proof -
  have f: "R s (s\<lparr>kn_retained := b, kn_finalizations := fs\<rparr>)" for s b fs by (rule chains [OF flags])
  show ?thesis unfolding task_finished_def
    by (auto split: option.splits intro!: parts_move settle_moves maybe_writeback_moves moves_modify f)
qed

end

text \<open>A relation that also holds along the calls of a task.\<close>

locale run_relation = settle_relation +
  assumes run_call: "moves R (callP (dp_runTask deps session task d u) (CallRunTask session))"
    and workspace_call: "moves R (callP (dp_workspace deps) CallWorkspace)"
    and use_calls: "moves R (begin_use deps)" "moves R (complete_use deps u)"
begin

lemma run_session_moves: "moves R (runTaskWithSession deps policy plan session envelope task ctx)"
  unfolding runTaskWithSession_def unless_retained_def
  by (auto split: option.splits intro!: parts_move workspace_call dispose_call use_calls run_call finished_moves moves_modify flags)

lemma run_task_moves: "moves R (runTask deps policy plan p task ctx)"
  unfolding runTask_def
  by (auto split: option.splits session_validation.splits intro!: run_session_moves)
     (intro need_then, auto simp: Let_def split: option.splits session_validation.splits intro!: parts_move store_calls driver_calls run_session_moves)

lemma refresh_then_run_moves: "moves R (refreshThenRunTask deps policy plan p task ctx)"
  unfolding refreshThenRunTask_def run_fresh_def run_with_def run_after_refresh_def
  by (auto split: option.splits plan_kind.splits refresh_result.splits skip_reason.splits intro!: parts_move refresh_moves run_session_moves)

end

section \<open>The log grows\<close>

definition log_grows :: "'env kernel \<Rightarrow> 'env kernel \<Rightarrow> bool" where
  "log_grows s t = (\<exists>new. kn_log t = kn_log s @ new)"

lemma call_grows [simp, intro]: "moves log_grows (callP f entry)"
  by (auto simp: moves_def log_grows_def callP_def split: prod.splits)

lemma grows_same: "kn_log t = kn_log s \<Longrightarrow> log_grows s t"
  by (simp add: log_grows_def)

interpretation logged: state_preorder log_grows
proof
  show "log_grows s s" for s :: "'a kernel" by (simp add: log_grows_def)
  show "log_grows s t \<Longrightarrow> log_grows t u \<Longrightarrow> log_grows s u" for s t u :: "'a kernel"
    unfolding log_grows_def by (metis append.assoc)
qed

lemma parts_grow [simp, intro]:
  "moves log_grows (dispose_workspace deps d)" "moves log_grows (begin_use deps)" "moves log_grows (complete_use deps u)"
  unfolding dispose_workspace_def begin_use_def complete_use_def by (auto split: option.splits)

interpretation logged: run_relation log_grows deps for deps
proof unfold_locales
  show "log_grows s (s\<lparr>kn_log := kn_log s @ [CallRegister x]\<rparr>)" for s :: "'a kernel" and x by (simp add: log_grows_def)
  show "callP (dp_workspace deps) CallWorkspace s = (Inl m, t) \<Longrightarrow> log_grows s t" for s t m using call_grows movesD by metis
  show "begin_use deps s = (Inl m, t) \<Longrightarrow> log_grows s t" for s t m using parts_grow(2) movesD by metis
  show "callP (dp_workspace deps) CallWorkspace s = (Inr d, t) \<Longrightarrow> log_grows t t' \<Longrightarrow> log_grows s (snd (dispose_workspace deps d t'))" for s t t' d
    using call_grows parts_grow(1) movesD logged.chains by (metis moves_def)
  show "begin_use deps s = (Inr u, t) \<Longrightarrow> log_grows t t' \<Longrightarrow> log_grows s (snd (complete_use deps u t'))" for s t t' u
    using parts_grow(2,3) movesD logged.chains by (metis moves_def)
qed (auto intro: grows_same)

section \<open>Resources are given back\<close>

datatype resource = OpenWorkspace string | OpenUse nat

definition resource_step :: "resource list \<Rightarrow> port_call \<Rightarrow> resource list" where
  "resource_step rs c = (case c of
       CallWorkspace (Inr d) \<Rightarrow> if wh_dispose d then OpenWorkspace (wh_path d) # rs else rs
     | CallDispose path r \<Rightarrow> remove1 (OpenWorkspace path) rs
     | CallBegin (Inr u) \<Rightarrow> OpenUse u # rs
     | CallComplete u r \<Rightarrow> remove1 (OpenUse u) rs
     | _ \<Rightarrow> rs)"

definition open_resources :: "port_call list \<Rightarrow> resource list" where
  "open_resources calls = foldl resource_step [] calls"

lemma open_resources_snoc [simp]: "open_resources (calls @ [c]) = resource_step (open_resources calls) c"
  by (simp add: open_resources_def)

definition resource_call :: "port_call \<Rightarrow> bool" where
  "resource_call c = (case c of CallWorkspace _ \<Rightarrow> True | CallDispose _ _ \<Rightarrow> True | CallBegin _ \<Rightarrow> True | CallComplete _ _ \<Rightarrow> True | _ \<Rightarrow> False)"

lemma no_resource [simp]: "\<not> resource_call c \<Longrightarrow> resource_step rs c = rs"
  by (cases c) (simp_all add: resource_step_def resource_call_def)

lemma not_resource_calls [simp]:
  "\<not> resource_call (CallRead a b)" "\<not> resource_call (CallValidate v w)" "\<not> resource_call (CallFreshness v f)" "\<not> resource_call (CallRefresh v g)"
  "\<not> resource_call (CallRunTask h i)" "\<not> resource_call (CallRegister a)" "\<not> resource_call (CallAcquire q r1)" "\<not> resource_call (CallFinalize a a2 r2)"
  "\<not> resource_call (CallStarted a r3)" "\<not> resource_call (CallWrite wr r4)" "\<not> resource_call (CallCommitted a a2 a3 r5)" "\<not> resource_call (CallRelease a a2 r3)"
  by (simp_all add: resource_call_def)

definition same_resources :: "'env kernel \<Rightarrow> 'env kernel \<Rightarrow> bool" where
  "same_resources s t = (open_resources (kn_log t) = open_resources (kn_log s) \<and> kn_retained t = kn_retained s)"

lemma call_same_resources [simp, intro]: "(\<And>r. \<not> resource_call (entry r)) \<Longrightarrow> moves same_resources (callP f entry)"
  by (auto simp: moves_def same_resources_def callP_def split: prod.splits)

lemma same_resources_same: "open_resources (kn_log t) = open_resources (kn_log s) \<Longrightarrow> kn_retained t = kn_retained s \<Longrightarrow> same_resources s t"
  by (simp add: same_resources_def)

interpretation balanced: state_preorder same_resources
  by unfold_locales (simp_all add: same_resources_def)

lemma dispose_gives_back:
  assumes "callP f CallWorkspace s = (Inr d, t)" "same_resources t t'"
  shows "same_resources s (snd (dispose_workspace deps d t'))"
  using assms by (auto simp: same_resources_def dispose_workspace_def callP_def resource_step_def split: prod.splits)

lemma complete_gives_back:
  assumes "begin_use deps s = (Inr u, t)" "same_resources t t'"
  shows "same_resources s (snd (complete_use deps u t'))"
  using assms by (auto simp: same_resources_def begin_use_def bindP_def complete_use_def callP_def resource_step_def split: prod.splits option.splits sum.splits)

interpretation balanced: kernel_relation same_resources deps for deps
proof unfold_locales
  show "callP (dp_workspace deps) CallWorkspace s = (Inl m, t) \<Longrightarrow> same_resources s t" for s t m
    by (auto simp: callP_def same_resources_def resource_step_def split: prod.splits)
  show "begin_use deps s = (Inl m, t) \<Longrightarrow> same_resources s t" for s t m
    by (auto simp: begin_use_def bindP_def callP_def same_resources_def resource_step_def split: prod.splits option.splits sum.splits)
qed (auto intro: dispose_gives_back complete_gives_back same_resources_same)

lemma bindP_run_cong: "(\<And>x t. m s = (Inr x, t) \<Longrightarrow> f x t = g x t) \<Longrightarrow> bindP m f s = bindP m g s"
  by (auto simp: bindP_def split: prod.splits sum.splits)

lemma finally_unless: "moves same_resources m \<Longrightarrow> \<not> kn_retained s \<Longrightarrow> finallyP m (unless_retained c) s = finallyP m c s"
  by (auto simp: finallyP_def unless_retained_def moves_def same_resources_def case_prod_beta)

lemma callP_retained: "callP f entry s = (r, t) \<Longrightarrow> kn_retained t = kn_retained s"
  by (auto simp: callP_def split: prod.splits)

lemma begin_reset: "begin_use deps s = (r, t) \<Longrightarrow> begin_use deps (s\<lparr>kn_retained := b\<rparr>) = (r, t\<lparr>kn_retained := b\<rparr>)"
  by (auto simp: begin_use_def bindP_def callP_def split: option.splits prod.splits sum.splits)

lemma begin_none: "begin_use deps s = (Inr u, t) \<Longrightarrow> dp_begin deps = None \<Longrightarrow> u = None"
  by (simp add: begin_use_def)

text \<open>The part of a task's run between the begin and the end of its use.\<close>

definition task_body ::
  "'env runtime_deps \<Rightarrow> compiled_policy \<Rightarrow> execution_plan \<Rightarrow> session_artifact option \<Rightarrow> session_envelope option \<Rightarrow> provider_task \<Rightarrow> run_context \<Rightarrow>
   nat option \<Rightarrow> ('env, task_result) kernel_prog" where
  "task_body deps policy plan session envelope task ctx u =
     finallyP
       (bindP (callP (dp_workspace deps) CallWorkspace) (\<lambda>d.
          finallyP (bindP (callP (dp_runTask deps session task d u) (CallRunTask session)) (task_finished deps policy plan envelope ctx d u))
            (unless_retained (dispose_workspace deps d))))
       (unless_retained (complete_use deps u))"

lemma task_body_balanced:
  assumes "\<not> retains deps" "begin_use deps s = (Inr u, t)" "\<not> kn_retained t"
  shows "same_resources s (snd (task_body deps policy plan session envelope task ctx u t))"
proof -
  define body where "body d = bindP (callP (dp_runTask deps session task d u) (CallRunTask session)) (task_finished deps policy plan envelope ctx d u)" for d
  let ?call = "callP (dp_workspace deps) CallWorkspace"
  let ?place = "bindP ?call (\<lambda>d. finallyP (body d) (dispose_workspace deps d))"
  have body: "moves same_resources (body d)" for d
    using assms(1) begin_none [OF assms(2)] unfolding body_def retains_def task_finished_def
    by (auto split: option.splits intro!: balanced.parts_move balanced.maybe_writeback_moves)
  have place: "moves same_resources ?place" using body by (rule balanced.with_workspace)
  have eq: "bindP ?call (\<lambda>d. finallyP (body d) (unless_retained (dispose_workspace deps d))) t = ?place t"
    using assms(3) by (intro bindP_run_cong finally_unless [OF body]) (simp add: callP_retained)
  have "task_body deps policy plan session envelope task ctx u t = finallyP ?place (unless_retained (complete_use deps u)) t"
    using eq unfolding task_body_def body_def [symmetric] by (simp add: finallyP_def)
  also have "\<dots> = finallyP ?place (complete_use deps u) t" using place assms(3) by (rule finally_unless)
  finally have run: "task_body deps policy plan session envelope task ctx u t = finallyP ?place (complete_use deps u) t" .
  have "same_resources t (snd (?place t))" using place by (simp add: moves_def)
  from complete_gives_back [OF assms(2) this] show ?thesis
    unfolding run by (auto simp: finallyP_def split: prod.splits sum.splits)
qed

lemma run_session_body:
  "runTaskWithSession deps policy plan session envelope task ctx =
   thenP (case session of None \<Rightarrow> retP () | Some a \<Rightarrow> registerSecret (sa_bytes a))
     (bindP (begin_use deps) (\<lambda>u. thenP (modifyP (\<lambda>s. s\<lparr>kn_retained := False\<rparr>)) (task_body deps policy plan session envelope task ctx u)))"
  by (simp add: runTaskWithSession_def task_body_def)

lemma run_with_session_balanced:
  assumes "\<not> retains deps"
  shows "open_resources (kn_log (snd (runTaskWithSession deps policy plan session envelope task ctx s))) = open_resources (kn_log s)"
proof -
  obtain s1 where s1: "(case session of None \<Rightarrow> retP () | Some a \<Rightarrow> registerSecret (sa_bytes a)) s = (Inr (), s1)"
    and log: "open_resources (kn_log s1) = open_resources (kn_log s)"
    by (cases session) (simp_all add: registerSecret_def)
  obtain r t where t: "begin_use deps s1 = (r, t)" by fastforce
  show ?thesis
  proof (cases r)
    case (Inl m)
    then show ?thesis using s1 t log balanced.use_failed [of deps s1 m t]
      by (simp add: run_session_body thenP_def bindP_def same_resources_def)
  next
    case (Inr u)
    have "same_resources (s1\<lparr>kn_retained := False\<rparr>) (snd (task_body deps policy plan session envelope task ctx u (t\<lparr>kn_retained := False\<rparr>)))"
      using begin_reset [OF t] Inr by (intro task_body_balanced [OF assms]) simp_all
    then show ?thesis using s1 t log Inr by (simp add: run_session_body thenP_def bindP_def same_resources_def)
  qed
qed

definition resources_kept :: "'env kernel \<Rightarrow> 'env kernel \<Rightarrow> bool" where
  "resources_kept s t = (open_resources (kn_log t) = open_resources (kn_log s))"

interpretation kept: state_preorder resources_kept
  by unfold_locales (simp_all add: resources_kept_def)

lemma balanced_kept: "moves same_resources m \<Longrightarrow> moves resources_kept m"
  by (simp add: moves_def same_resources_def resources_kept_def)

lemma refresh_then_run_balanced:
  assumes "\<not> retains deps"
  shows "moves resources_kept (refreshThenRunTask deps policy plan p task ctx)"
proof -
  have "moves resources_kept (runTaskWithSession deps policy plan session envelope task ctx)" for session envelope
    using run_with_session_balanced [OF assms] by (simp add: moves_def resources_kept_def)
  moreover have "moves resources_kept (refreshSession deps policy plan p ctx force)" for force
    by (rule balanced_kept [OF balanced.refresh_moves])
  ultimately show ?thesis
    unfolding refreshThenRunTask_def run_fresh_def run_with_def run_after_refresh_def
    by (auto split: option.splits plan_kind.splits refresh_result.splits skip_reason.splits intro!: kept.moves_bind)
qed

end
