(* ===== verification/Kernel_Runs.thy ===== *)
theory Kernel_Runs
  imports Kernel_Relations
begin

text \<open>
  What the answers of the kernel say of the calls it made: a refresh that reports a new session, the
  runs of a task, and the finalization of a task that is kept.
\<close>

section \<open>A refreshed session was written\<close>

text \<open>The lease was granted for the generation read under it.\<close>

definition leased_read :: "string \<Rightarrow> string \<Rightarrow> session_envelope \<Rightarrow> port_call set \<Rightarrow> bool" where
  "leased_read p i leased calls = (\<exists>q d. CallAcquire q (Inr (LeaseGranted i d)) \<in> calls \<and> aq_providerInstanceId q = p \<and>
     aq_restoredGenerationHash q = se_generationHash leased \<and> CallRead ''refresh'' (Inr (Some leased)) \<in> calls)"

text \<open>The session of a refresh is what the store accepted under the lease, and a commit of it was answered.\<close>

definition written_under :: "string \<Rightarrow> session_envelope \<Rightarrow> write_result \<Rightarrow> port_call set \<Rightarrow> bool" where
  "written_under p e w calls =
     (\<exists>request leased answer. leased_read p (wq_leaseId request) leased calls \<and> CallWrite request (Inr w) \<in> calls \<and>
        w \<in> {WriteAccepted (se_generation e) (se_generationHash e), WriteReplay (se_generation e) (se_generationHash e)} \<and>
        wq_providerInstanceId request = p \<and> wq_expectedGeneration request = se_generation leased \<and> wq_nextArtifact request = se_artifact e \<and>
        CallCommitted (wq_leaseId request) (se_generationHash e) (wq_idempotencyKey request) (Inr answer) \<in> calls)"

definition new_calls :: "port_call list \<Rightarrow> 'env kernel \<Rightarrow> port_call set" where
  "new_calls old t = set (drop (length old) (kn_log t))"

lemma leased_read_mono: "leased_read p i leased C \<Longrightarrow> C \<subseteq> D \<Longrightarrow> leased_read p i leased D"
  unfolding leased_read_def by blast

lemma written_under_mono: "written_under p e w C \<Longrightarrow> C \<subseteq> D \<Longrightarrow> written_under p e w D"
  unfolding written_under_def using leased_read_mono [of p _ _ C D] by blast

lemma new_calls_grow: "log_grows t u \<Longrightarrow> new_calls old t \<subseteq> new_calls old u"
  by (auto simp: new_calls_def log_grows_def)

definition ready_written :: "port_call list \<Rightarrow> string \<Rightarrow> string + refresh_result \<Rightarrow> 'env kernel \<Rightarrow> bool" where
  "ready_written old p r t = (case r of Inr (RefreshReady e w ws) \<Rightarrow> written_under p e w (new_calls old t) | _ \<Rightarrow> True)"

lemma ready_written_simps [simp]:
  "ready_written old p (Inl m) t" "ready_written old p (Inr (RefreshBlocked b x ws)) t" "ready_written old p (Inr (RefreshSkipped k y ws)) t"
  "ready_written old p (Inr (RefreshReady e w ws)) t = written_under p e w (new_calls old t)"
  by (simp_all add: ready_written_def)

lemma writtenI:
  assumes "leased_read p i leased (new_calls (kn_log s0) s)" "kn_log s = kn_log s0 @ pre" "kn_log t = kn_log s @ new"
    "{CallWrite req (Inr w), CallCommitted i h (wq_idempotencyKey req) (Inr c)} \<subseteq> set new" "w \<in> {WriteAccepted g h, WriteReplay g h}"
    "req\<lparr>wq_leaseId := i, wq_providerInstanceId := p, wq_expectedGeneration := se_generation leased, wq_nextArtifact := a\<rparr> = req"
  shows "written_under p (nextEnvelope leased a g h) w (new_calls (kn_log s0) t)"
proof -
  have "leased_read p i leased (new_calls (kn_log s0) t)"
    using assms(1) by (rule leased_read_mono) (simp add: assms(2,3) new_calls_def)
  moreover have "wq_leaseId req = i" "wq_providerInstanceId req = p" "wq_expectedGeneration req = se_generation leased" "wq_nextArtifact req = a"
    using assms(6) by (metis write_request.select_convs write_request.surjective write_request.update_convs)+
  ultimately show ?thesis
    unfolding written_under_def using assms(2-5) by (intro exI [of _ req] exI [of _ leased] exI [of _ c]) (auto simp: new_calls_def nextEnvelope_def)
qed

lemma refresh_writeback_ready:
  assumes "leased_read p i leased (new_calls (kn_log s0) s)" "kn_log s = kn_log s0 @ pre"
  shows "wp (refresh_writeback deps st ls p ctx i leased refreshed) (ready_written (kn_log s0) p) s"
  by (auto simp: refresh_writeback_def Let_def wp_rules close_lease_def split: sum.splits write_result.splits
      intro!: wp_call writtenI [OF assms])

text \<open>The same once a cleanup has followed.\<close>

definition ready_then :: "port_call list \<Rightarrow> string \<Rightarrow> ('env, unit) kernel_prog \<Rightarrow> string + refresh_result \<Rightarrow> 'env kernel \<Rightarrow> bool" where
  "ready_then old p c r t = wp c (\<lambda>r' u. case r' of Inl e \<Rightarrow> ready_written old p (Inl e) u | Inr x \<Rightarrow> ready_written old p r u) t"

lemma wp_ready_finally: "wp (finallyP m c) (ready_written old p) s = wp m (ready_then old p c) s"
  unfolding wp_finally ready_then_def ..

lemma ready_after:
  assumes "moves log_grows c" "ready_written old p r t"
  shows "ready_then old p c r t"
  unfolding ready_then_def using assms(1)
proof (rule wp_cleanup)
  fix u
  assume "log_grows t u"
  with assms(2) show "ready_written old p r u"
    by (auto simp: ready_written_def split: sum.splits refresh_result.splits elim!: written_under_mono [OF _ new_calls_grow])
qed simp

lemmas ready_wp = wp_ready_finally wp_ret wp_get wp_modify wp_bind wp_then wp_register wp_need

lemma refresh_provider_ready:
  assumes "leased_read p i leased (new_calls (kn_log s0) s)" "kn_log s = kn_log s0 @ pre"
  shows "wp (refresh_provider deps st ls refresh p ctx i use leased) (ready_written (kn_log s0) p) s"
proof -
  have "wp (refresh_writeback deps st ls p ctx i leased refreshed) (ready_then (kn_log s0) p (dispose_workspace deps w))
      (s\<lparr>kn_env := e, kn_log := kn_log s @ later\<rparr>)" for refreshed w e later
  proof (rule wp_mono [OF refresh_writeback_ready])
    show "leased_read p i leased (new_calls (kn_log s0) (s\<lparr>kn_env := e, kn_log := kn_log s @ later\<rparr>))"
      using assms(1) by (rule leased_read_mono) (auto simp: new_calls_def)
  qed (auto simp: assms(2) intro: ready_after)
  then show ?thesis
    by (auto simp: refresh_provider_def ready_wp split: sum.splits provider_state.splits intro!: wp_call ready_after)
qed

lemma release_grows: "moves log_grows (bindP (getP kn_leaseClosed) (\<lambda>closed. if closed then retP () else releaseLeaseQuietly deps i why))"
  by (auto intro!: logged.parts_move logged.quiet_release_moves)

lemma refresh_leased_ready:
  assumes "kn_log s = kn_log s0 @ pre" "CallAcquire q (Inr (LeaseGranted i d)) \<in> set pre" "aq_providerInstanceId q = p"
    "aq_restoredGenerationHash q = se_generationHash session"
  shows "wp (refresh_leased deps st ls validate refresh p ctx i use session) (ready_written (kn_log s0) p) s"
proof -
  have "wp (refresh_provider deps st ls refresh p ctx i use leased)
      (ready_then (kn_log s0) p (bindP (getP kn_leaseClosed) (\<lambda>closed. if closed then retP () else releaseLeaseQuietly deps i why)))
     (s\<lparr>kn_env := e, kn_log := kn_log s @ [CallRead ''refresh'' (Inr (Some leased)), CallValidate a v]\<rparr>)"
    if "se_generationHash leased = se_generationHash session" for leased a v why e
  proof (rule wp_mono [OF refresh_provider_ready])
    show "leased_read p i leased (new_calls (kn_log s0) (s\<lparr>kn_env := e, kn_log := kn_log s @ [CallRead ''refresh'' (Inr (Some leased)), CallValidate a v]\<rparr>))"
      unfolding leased_read_def using assms that by (intro exI [of _ q] exI [of _ d]) (simp add: new_calls_def)
  qed (auto simp: assms(1) intro: ready_after [OF release_grows])
  then show ?thesis
    by (auto simp: refresh_leased_def ready_wp missing_session_def blocked_by_def split: sum.splits option.splits session_validation.splits
        intro!: wp_call ready_after [OF release_grows])
qed

lemma refresh_rotating_ready:
  assumes "kn_log s = kn_log s0 @ pre"
  shows "wp (refresh_rotating deps policy st ls validate refresh p ctx session) (ready_written (kn_log s0) p) s"
proof -
  have leased: "wp (refresh_leased deps st ls validate refresh p ctx i use session) (ready_then (kn_log s0) p (complete_use deps use))
      (s\<lparr>kn_env := e, kn_log := kn_log s0 @ new, kn_leaseClosed := False\<rparr>)"
    if granted: "\<exists>d. CallAcquire \<lparr>aq_providerInstanceId = p, aq_runId = rx_runId ctx, aq_attempt = rx_attempt ctx, aq_ttlMs = cp_timeoutMs policy,
        aq_restoredGenerationHash = se_generationHash session\<rparr> (Inr (LeaseGranted i d)) \<in> set new"
    for i use new e
  proof -
    obtain d where d: "CallAcquire \<lparr>aq_providerInstanceId = p, aq_runId = rx_runId ctx, aq_attempt = rx_attempt ctx, aq_ttlMs = cp_timeoutMs policy,
        aq_restoredGenerationHash = se_generationHash session\<rparr> (Inr (LeaseGranted i d)) \<in> set new" using granted by blast
    show ?thesis by (rule wp_mono [OF refresh_leased_ready [OF _ d]]) (auto intro: ready_after)
  qed
  show ?thesis using assms
    by (auto simp: refresh_rotating_def Let_def ready_wp split: sum.splits lease_answer.splits
        intro!: wp_begin wp_call ready_after leased) blast+
qed

lemma refresh_ready: "wp (refreshSession deps policy plan p ctx force) (ready_written (kn_log s) p) s"
  by (auto simp: refreshSession_def validateStaticRuntimeSession_def inspectFreshness_def missing_session_def blocked_by_def wp_rules
      split: sum.splits option.splits plan_kind.splits freshness.splits session_validation.splits
      intro!: wp_call refresh_rotating_ready)

section \<open>The runs of a task\<close>

definition run_answer :: "port_call \<Rightarrow> (string + task_result) list" where
  "run_answer c = (case c of CallRunTask a r \<Rightarrow> [r] | _ \<Rightarrow> [])"

definition run_results :: "port_call list \<Rightarrow> (string + task_result) list" where
  "run_results calls = concat (map run_answer calls)"

lemma run_results_append [simp]: "run_results (calls @ new) = run_results calls @ run_results new"
  and run_results_Cons [simp]: "run_results (c # cs) = run_answer c @ run_results cs"
  and run_results_Nil [simp]: "run_results [] = []"
  by (simp_all add: run_results_def)

lemma run_answer_simps [simp]:
  "run_answer (CallRunTask s1 r0) = [r0]"
  "run_answer (CallRead a b) = []" "run_answer (CallValidate v w) = []" "run_answer (CallFreshness v f) = []" "run_answer (CallRefresh v g) = []"
  "run_answer (CallFinalizeTask j i) = []" "run_answer (CallRetire j k) = []" "run_answer (CallBegin l) = []"
  "run_answer (CallComplete j k) = []" "run_answer (CallWorkspace n) = []" "run_answer (CallDispose a k) = []" "run_answer (CallRegister a) = []"
  "run_answer (CallAcquire q r1) = []" "run_answer (CallFinalize a a2 r2) = []" "run_answer (CallStarted a k) = []" "run_answer (CallWrite wr r4) = []"
  "run_answer (CallCommitted a a2 a3 r5) = []" "run_answer (CallRelease a a2 k) = []"
  by (simp_all add: run_answer_def)

definition same_runs :: "'env kernel \<Rightarrow> 'env kernel \<Rightarrow> bool" where
  "same_runs s t = (run_results (kn_log t) = run_results (kn_log s))"

lemma same_runs_refl [simp, intro]: "same_runs s s"
  by (simp add: same_runs_def)

lemma call_same_runs [simp, intro]: "(\<And>r. run_answer (entry r) = []) \<Longrightarrow> moves same_runs (callP f entry)"
  by (auto simp: moves_def same_runs_def callP_def split: prod.splits)

interpretation unrun: state_preorder same_runs
  by unfold_locales (simp_all add: same_runs_def)

lemma parts_unrun [simp, intro]:
  "moves same_runs (dispose_workspace deps d)" "moves same_runs (begin_use deps)" "moves same_runs (complete_use deps u)"
  unfolding dispose_workspace_def begin_use_def complete_use_def by (auto split: option.splits)

interpretation unrun: settle_relation same_runs deps for deps
proof unfold_locales
  show "callP (dp_workspace deps) CallWorkspace s = (Inl m, t) \<Longrightarrow> same_runs s t" for s t m
    by (rule movesD [OF call_same_runs]) simp_all
  show "begin_use deps s = (Inl m, t) \<Longrightarrow> same_runs s t" for s t m using parts_unrun(2) movesD by metis
  show "callP (dp_workspace deps) CallWorkspace s = (Inr d, t) \<Longrightarrow> same_runs t t' \<Longrightarrow> same_runs s (snd (dispose_workspace deps d t'))" for s t t' d
    using parts_unrun(1) [of deps d] movesD [OF call_same_runs [of CallWorkspace], of "dp_workspace deps"] by (simp add: moves_def same_runs_def)
  show "begin_use deps s = (Inr u, t) \<Longrightarrow> same_runs t t' \<Longrightarrow> same_runs s (snd (complete_use deps u t'))" for s t t' u
    using parts_unrun(3) [of deps u] movesD [OF parts_unrun(2)] by (simp add: moves_def same_runs_def)
qed (auto simp: same_runs_def)

lemma more_warnings_none [simp]: "more_warnings [] x = x"
  by (cases x) simp_all

lemma guard_more_warnings [simp]: "guard_wanted (more_warnings ws x) = guard_wanted x"
  by (cases x) (simp_all add: guard_wanted_def)

text \<open>The result of a run is the agent's answer, with warnings, unless the task is kept for finalization.\<close>

definition answers_run :: "'env runtime_deps \<Rightarrow> task_result \<Rightarrow> task_result \<Rightarrow> bool" where
  "answers_run deps x a = (retains deps \<or> (\<exists>ws. x = more_warnings ws a))"

definition one_run :: "'env runtime_deps \<Rightarrow> 'env kernel \<Rightarrow> string + task_result \<Rightarrow> 'env kernel \<Rightarrow> bool" where
  "one_run deps s r t = (\<exists>rs. run_results (kn_log t) = run_results (kn_log s) @ rs \<and> length rs \<le> 1 \<and>
     (\<forall>x. r = Inr x \<longrightarrow> (\<exists>a. rs = [Inr a] \<and> answers_run deps x a)))"

lemma maybe_writeback_result:
  "wp (maybeWritebackTaskSessionUpdate deps policy plan result envelope ctx use) (\<lambda>r t. \<forall>x. r = Inr x \<longrightarrow> (\<exists>ws. x = more_warnings ws result)) s"
  unfolding maybeWritebackTaskSessionUpdate_def
  by (auto simp: wp_rules split: option.splits sum.splits intro: exI [of _ "[]"] intro!: wpI)

lemma task_finished_result:
  assumes "dp_begin deps = None \<longrightarrow> use = None"
  shows "wp (task_finished deps policy plan envelope ctx d use a) (\<lambda>r t. same_runs s t \<and> (\<forall>x. r = Inr x \<longrightarrow> answers_run deps x a)) s"
proof (rule wpI)
  fix r t
  assume run: "task_finished deps policy plan envelope ctx d use a s = (r, t)"
  have "same_runs s t" using movesD [OF unrun.finished_moves run] .
  moreover have "answers_run deps x a" if "r = Inr x" for x
  proof (cases "retains deps")
    case False
    then have "task_finished deps policy plan envelope ctx d use a = maybeWritebackTaskSessionUpdate deps policy plan a envelope ctx None"
      using assms by (auto simp: task_finished_def retains_def split: option.splits)
    with run that show ?thesis using wpD [OF maybe_writeback_result] by (fastforce simp: answers_run_def)
  qed (simp add: answers_run_def)
  ultimately show "same_runs s t \<and> (\<forall>x. r = Inr x \<longrightarrow> answers_run deps x a)" by blast
qed

lemma one_run_same: "one_run deps s r t \<Longrightarrow> same_runs t u \<Longrightarrow> one_run deps s r u"
  by (simp add: one_run_def same_runs_def)

lemma one_run_fails: "one_run deps s r t \<Longrightarrow> one_run deps s (Inl e) t"
  by (auto simp: one_run_def)

lemma one_run_start: "one_run deps s r t \<Longrightarrow> same_runs s' s \<Longrightarrow> one_run deps s' r t"
  by (simp add: one_run_def same_runs_def)

lemma no_run: "same_runs s t \<Longrightarrow> one_run deps s (Inl e) t"
  by (auto simp: one_run_def same_runs_def)

lemma one_run_finally:
  assumes "wp m (one_run deps s0) s" "moves same_runs c"
  shows "wp (finallyP m c) (one_run deps s0) s"
  unfolding wp_finally using assms(1)
  by (rule wp_mono) (auto intro!: wp_cleanup [OF assms(2)] intro: one_run_same one_run_fails)

lemma one_run_after:
  assumes "moves same_runs m" "\<And>x t. same_runs s t \<Longrightarrow> m s = (Inr x, t) \<Longrightarrow> wp (f x) (one_run deps t) t"
  shows "wp (bindP m f) (one_run deps s) s"
  unfolding wp_bind
proof (rule wpI)
  fix r t
  assume run: "m s = (r, t)"
  then have same: "same_runs s t" using assms(1) by (rule movesD [rotated])
  show "case r of Inl e \<Rightarrow> one_run deps s (Inl e) t | Inr x \<Rightarrow> wp (f x) (one_run deps s) t"
    using no_run [OF same] wp_mono [OF assms(2) [OF same]] run one_run_start [OF _ same] by (auto split: sum.splits)
qed

lemma run_once:
  assumes "dp_begin deps = None \<longrightarrow> use = None"
  shows "wp (bindP (callP (dp_runTask deps session task d use) (CallRunTask session)) (task_finished deps policy plan envelope ctx d use)) (one_run deps s) s"
proof -
  have "one_run deps s r t" if "same_runs (s\<lparr>kn_env := e, kn_log := kn_log s @ [CallRunTask session (Inr a)]\<rparr>) t" "\<forall>x. r = Inr x \<longrightarrow> answers_run deps x a"
    for a e r t
    using that by (auto simp: one_run_def same_runs_def)
  then show ?thesis unfolding wp_bind
    by (intro wp_call) (auto simp: one_run_def split: sum.splits intro!: wp_mono [OF task_finished_result [OF assms]])
qed

lemma unless_unrun: "moves same_runs c \<Longrightarrow> moves same_runs (unless_retained c)"
  unfolding unless_retained_def by (auto intro!: unrun.parts_move)

lemma run_session_once: "wp (runTaskWithSession deps policy plan session envelope task ctx) (one_run deps s) s"
  unfolding runTaskWithSession_def thenP_def
proof (intro run_once one_run_after one_run_finally unless_unrun)
  show "moves same_runs (case session of None \<Rightarrow> retP () | Some a \<Rightarrow> registerSecret (sa_bytes a))"
    by (cases session) auto
qed (auto intro: begin_none unrun.moves_modify simp: same_runs_def)

text \<open>
  A whole run: at most two runs of the task, a second one only after the first was answered with a
  failure that asks for a reconnect, and the last one's answer is the result.
\<close>

definition run_chain :: "'env runtime_deps \<Rightarrow> execution_plan \<Rightarrow> (string + task_result) list \<Rightarrow> bool" where
  "run_chain deps plan rs = (length rs \<le> 1 \<or>
     (\<exists>a b. rs = [Inr a, b] \<and> ep_kind plan \<noteq> PlanStaticSession \<and> (retains deps \<or> guard_wanted a)))"

definition whole_run :: "'env runtime_deps \<Rightarrow> execution_plan \<Rightarrow> 'env kernel \<Rightarrow> string + run_result \<Rightarrow> 'env kernel \<Rightarrow> bool" where
  "whole_run deps plan s r t = (\<exists>rs. run_results (kn_log t) = run_results (kn_log s) @ rs \<and> run_chain deps plan rs \<and>
     (\<forall>refresh x. r = Inr (RunCompleted refresh x) \<longrightarrow> rs \<noteq> [] \<and> (\<exists>a. last rs = Inr a \<and> answers_run deps x a)))"

definition final_run :: "'env runtime_deps \<Rightarrow> 'env kernel \<Rightarrow> string + run_result \<Rightarrow> 'env kernel \<Rightarrow> bool" where
  "final_run deps s r t = (\<exists>rs. run_results (kn_log t) = run_results (kn_log s) @ rs \<and> length rs \<le> 1 \<and>
     (\<forall>refresh x. r = Inr (RunCompleted refresh x) \<longrightarrow> (\<exists>a. rs = [Inr a] \<and> answers_run deps x a)))"

lemma final_none: "same_runs s t \<Longrightarrow> (\<And>refresh x. r \<noteq> Inr (RunCompleted refresh x)) \<Longrightarrow> final_run deps s r t"
  by (auto simp: final_run_def same_runs_def)

lemma final_whole: "final_run deps s r t \<Longrightarrow> same_runs s' s \<Longrightarrow> whole_run deps plan s' r t"
  by (fastforce simp: final_run_def whole_run_def run_chain_def same_runs_def)

lemma wp_final_one: "wp (bindP (runTaskWithSession deps policy plan session envelope task ctx) (\<lambda>x. retP (RunCompleted refresh x))) (final_run deps s) s"
  unfolding wp_bind wp_ret by (rule wp_mono [OF run_session_once]) (auto simp: one_run_def final_run_def split: sum.splits)

lemma run_after_final: "wp (run_after_refresh deps policy plan task ctx missing refresh) (final_run deps s) s"
  using wp_final_one [of deps policy plan]
  by (auto simp: run_after_refresh_def run_with_def wp_ret final_none same_runs_def split: option.splits refresh_result.splits skip_reason.splits)

text \<open>A second run after an answer that asks for it.\<close>

lemma whole_second:
  assumes "one_run deps s (Inr x) t" "guard_wanted x" "ep_kind plan \<noteq> PlanStaticSession" "same_runs t t'" "final_run deps t' r u"
  shows "whole_run deps plan s r u"
proof -
  obtain a where a: "run_results (kn_log t) = run_results (kn_log s) @ [Inr a]" "answers_run deps x a" using assms(1) by (auto simp: one_run_def)
  obtain rs where rs: "run_results (kn_log u) = run_results (kn_log t') @ rs" "length rs \<le> 1"
    "\<forall>refresh y. r = Inr (RunCompleted refresh y) \<longrightarrow> (\<exists>b. rs = [Inr b] \<and> answers_run deps y b)" using assms(5) by (auto simp: final_run_def)
  have "retains deps \<or> guard_wanted a" using a(2) assms(2) by (auto simp: answers_run_def)
  then have "run_chain deps plan (Inr a # rs)" using rs(2) assms(3) by (cases rs) (auto simp: run_chain_def)
  moreover have "run_results (kn_log u) = run_results (kn_log s) @ Inr a # rs" using rs(1) a(1) assms(4) by (simp add: same_runs_def)
  ultimately show ?thesis using rs(3) unfolding whole_run_def by (intro exI [of _ "Inr a # rs"]) auto
qed

lemma guarded_run:
  assumes "ep_kind plan \<noteq> PlanStaticSession" "\<And>x t. one_run deps s (Inr x) t \<Longrightarrow> g x \<Longrightarrow> guard_wanted x \<and> wp n (\<lambda>r u. \<exists>t'. same_runs t t' \<and> final_run deps t' r u) t"
  shows "wp (bindP (runTaskWithSession deps policy plan session envelope task ctx) (\<lambda>x. if g x then n else retP (RunCompleted refresh x))) (whole_run deps plan s) s"
  unfolding wp_bind
proof (rule wp_mono [OF run_session_once])
  fix r t
  assume one: "one_run deps s r t"
  show "case r of Inl e \<Rightarrow> whole_run deps plan s (Inl e) t
    | Inr x \<Rightarrow> wp (if g x then n else retP (RunCompleted refresh x)) (whole_run deps plan s) t"
  proof (cases r)
    case (Inl e)
    with one show ?thesis by (auto simp: one_run_def whole_run_def run_chain_def)
  next
    case (Inr x)
    show ?thesis
    proof (cases "g x")
      case True
      with assms(2) [of x t] one Inr have "guard_wanted x" "wp n (\<lambda>r u. \<exists>t'. same_runs t t' \<and> final_run deps t' r u) t" by auto
      then show ?thesis using True Inr one whole_second [OF _ _ assms(1)] by (auto elim!: wp_mono)
    next
      case False
      with one Inr show ?thesis by (auto simp: wp_ret one_run_def whole_run_def run_chain_def)
    qed
  qed
qed

lemma whole_from:
  "same_runs s t \<Longrightarrow> wp m (whole_run deps plan t) t \<Longrightarrow> wp m (whole_run deps plan s) t"
  by (erule wp_mono) (simp add: whole_run_def same_runs_def)

lemma final_from: "wp m (final_run deps t) t \<Longrightarrow> wp m (whole_run deps plan t) t"
  by (erule wp_mono) (erule final_whole [OF _ same_runs_refl])

lemma run_fresh_whole:
  assumes "ep_kind plan = PlanRotatingSession"
  shows "wp (run_fresh deps policy plan p task ctx refresh session) (whole_run deps plan t) t"
proof -
  have "wp (bindP (refreshSession deps policy plan p ctx True) (run_after_refresh deps policy plan task ctx missing))
      (\<lambda>r u. \<exists>t'. same_runs t t' \<and> final_run deps t' r u) t" for missing t
    unfolding wp_bind
    by (rule wp_mono [OF moves_wp [OF unrun.refresh_moves]])
       (auto split: sum.splits intro!: wp_mono [OF run_after_final] intro: final_none)
  then show ?thesis using assms unfolding run_fresh_def run_with_def by (intro guarded_run) auto
qed

lemma run_bare_whole:
  assumes "ep_kind plan = PlanNoSession"
  shows "wp (bindP (runTaskWithSession deps policy plan None None task ctx) (\<lambda>result.
      if guard_wanted result
      then bindP (runTaskWithSession deps policy plan None None task ctx) (\<lambda>again. retP (RunCompleted refresh again))
      else retP (RunCompleted refresh result))) (whole_run deps plan t) t"
proof -
  have "wp (bindP (runTaskWithSession deps policy plan None None task ctx) (\<lambda>again. retP (RunCompleted refresh again)))
      (\<lambda>r u. \<exists>t'. same_runs t t' \<and> final_run deps t' r u) t" for t
    by (rule wp_mono [OF wp_final_one]) (auto intro: same_runs_refl)
  then show ?thesis using assms by (intro guarded_run) auto
qed

lemma refresh_then_run_whole: "wp (refreshThenRunTask deps policy plan p task ctx) (whole_run deps plan s) s"
proof (cases "unsupportedTaskFailure deps task")
  case None
  show ?thesis unfolding refreshThenRunTask_def None option.case wp_bind
  proof (rule wp_mono [OF moves_wp [OF unrun.refresh_moves]], goal_cases)
    case (1 r t)
    then show ?case
      by (auto simp: run_with_def split: sum.splits plan_kind.splits refresh_result.splits skip_reason.splits option.splits
          intro!: whole_from [OF 1] final_from wp_final_one run_after_final run_fresh_whole run_bare_whole final_whole [OF _ 1] final_none)
  qed
qed (auto simp: refreshThenRunTask_def wp_ret intro!: final_whole [of deps s] final_none)

end
