(* ===== verification/Kernel_Claims.thy ===== *)
theory Kernel_Claims
  imports Kernel_Runs
begin

text \<open>
  The properties of the runtime kernel (\<open>src/core/application/runtime.ts\<close> and
  \<open>task-session-writeback.ts\<close>), each with a run on concrete ports.
\<close>

section \<open>A kernel on concrete ports\<close>

definition kernel_artifact :: "string \<Rightarrow> session_artifact" where
  "kernel_artifact b = \<lparr>sa_kind = JsonFile, sa_providerId = ''codex'', sa_formatVersion = ''1'', sa_bytes = b, sa_contentType = ''json''\<rparr>"

definition kernel_session :: session_envelope where
  "kernel_session = \<lparr>se_providerInstanceId = ''p'', se_providerId = ''codex'', se_artifact = kernel_artifact ''a'', se_generation = 1,
     se_generationHash = generation_text (kernel_artifact ''a''), se_storageVersion = ''1'', se_custody = LocalOnly, se_metadata = []\<rparr>"

definition kernel_store :: "'env session_store_port" where
  "kernel_store = \<lparr>sp_read = (\<lambda>p x why e. (Inr (Some kernel_session), e)),
     sp_write = (\<lambda>w e. (Inr (WriteAccepted (wq_expectedGeneration w + 1) (generation_text (wq_nextArtifact w))), e)), sp_supportsIdempotency = True\<rparr>"

definition kernel_leases :: "commit_result \<Rightarrow> 'env lease_store_port" where
  "kernel_leases answer = \<lparr>lp_acquire = (\<lambda>q e. (Inr (LeaseGranted ''l1'' (Instant 0)), e)), lp_finalize = (\<lambda>i h e. (Inr (i, h), e)),
     lp_markWritebackStarted = (\<lambda>i e. (Inr (), e)), lp_markWritebackCommitted = (\<lambda>i h k e. (Inr answer, e)),
     lp_release = Some (\<lambda>i why e. (Inr (), e))\<rparr>"

definition kernel_place :: workspace_handle where
  "kernel_place = \<lparr>wh_path = ''/tmp/w'', wh_dispose = True\<rparr>"

definition kernel_deps :: "commit_result \<Rightarrow> 'env runtime_deps" where
  "kernel_deps answer = \<lparr>dp_providerId = ''codex'', dp_validateSession = Some (\<lambda>a e. (Inr (ValidSession []), e)),
     dp_refreshSession = Some (\<lambda>a d u e. (Inr \<lparr>rn_artifact = kernel_artifact ''b'', rn_providerState = StRefreshed, rn_warnings = []\<rparr>, e)),
     dp_inspectSessionFreshness = None, dp_taskModes = [Review], dp_taskExecutionCapabilities = None,
     dp_runTask = (\<lambda>a t d u e. (Inr (TaskDone ''ok'' (Some (7, kernel_artifact ''c'')) []), e)), dp_finalizeTaskSession = None, dp_retireTaskSession = None,
     dp_sessionStore = Some kernel_store, dp_leaseStore = Some (kernel_leases answer), dp_workspace = (\<lambda>e. (Inr kernel_place, e)),
     dp_dispose = (\<lambda>path e. (Inr (), e)), dp_begin = Some (\<lambda>e. (Inr 3, e)), dp_complete = (\<lambda>u e. (Inr (), e)),
     dp_idempotencyKey = idempotencyKey, dp_digest = (\<lambda>x. x)\<rparr>"

definition kernel_policy :: compiled_policy where
  "kernel_policy = \<lparr>cp_trustMode = LocalOnly, cp_providerId = ''codex'', cp_agentId = ''codex'', cp_storeId = Some ''file'', cp_runnerId = ''local'',
     cp_requiresDurableWriteback = True, cp_requiresLease = True, cp_requiresCas = True, cp_allowsInteractiveRuntime = False,
     cp_maxSessionBytes = Fin 1000, cp_maxTaskOutputBytes = Fin 1000, cp_timeoutMs = Fin 1000,
     cp_minFreshMs = Fin 0, cp_refreshBeforeExpiryMs = Fin 0, cp_maxSessionAgeMs = Fin 1000\<rparr>"

definition kernel_plan :: execution_plan where
  "kernel_plan = \<lparr>ep_kind = PlanRotatingSession, ep_readSession = True, ep_acquireLease = True, ep_refresh = PlanLazy,
     ep_writeback = WritebackAfterRefresh, ep_sessionForAgent = SessionRefreshed\<rparr>"

definition kernel_task :: provider_task where
  "kernel_task = \<lparr>tk_kind = Review, tk_prompt = ''go'', tk_execution = None\<rparr>"

definition kernel_context :: run_context where
  "kernel_context = \<lparr>rx_runId = ''r'', rx_attempt = 1\<rparr>"

lemma kernel_deps_facts [simp]:
  "can_release (kernel_deps answer)" "\<not> retains (kernel_deps answer)"
  by (simp_all add: can_release_def retains_def kernel_deps_def kernel_leases_def)

section \<open>Leases\<close>



section \<open>Resources\<close>



end
