(* ===== verification/Spec2Isabelle.thy ===== *)
theory Spec2Isabelle
  imports Queue_Processor Core_States Child_Lifetime Account_Selection Pool_Histories Custody_Claims Kernel_Claims
begin

text \<open>
  A verification of the core of the subscription runtime: the queue that feeds it, the workers and
  accounts that serve a task, and the custody of the provider session a task runs with. Paths below
  are relative to the repository.

  \<^bold>\<open>Parts and theories.\<close>

  \<^item> \<open>Prelude\<close>: the language. Numbers with infinities and NaN, dates with the invalid date, trimming,
    optional values, a JavaScript \<open>Map\<close> as an association list, and the lemmas the components share.
    \<open>Effects\<close>: an \<open>async\<close> function as a program over a state that may throw, with sequencing,
    \<open>try/catch\<close> and \<open>try/finally\<close>, and the rules by which a relation of states is proved of a program.

  \<^item> \<open>Retry_Policy\<close>, \<open>Queue_Validation\<close>, \<open>Task_Queue\<close>, \<open>Queue_Laws\<close>: \<open>src/queue-core/task-queue\<close>. The
    record \<open>queue\<close> is the state of \<open>InMemorySubscriptionTaskQueue\<close>; \<open>q_enqueue\<close>, \<open>q_claim\<close>, \<open>q_complete\<close>,
    \<open>q_release\<close>, \<open>q_fail\<close> and the rest are its methods. The laws: an invariant of every reachable queue,
    exclusive and fenced leases, the life of a task, idempotent enqueue, claims in order.

  \<^item> \<open>Queue_Processor\<close>: \<open>src/queue-core/queue-processing\<close>. Each claim loop is cut at its await points
    (\<open>loop_resume\<close>); \<open>proc_start\<close> and \<open>proc_stop\<close> are the methods. The queue is a port, a locale,
    interpreted with the in-memory queue. The laws: counters that agree with the loops, loops that end
    after stop, and two histories in which the processor misbehaves.

  \<^item> \<open>Core_States\<close>, \<open>Runtime_Policy\<close>, \<open>Child_Lifetime\<close>: \<open>src/core/domain/state-machines.ts\<close>,
    \<open>src/core/application/policy.ts\<close> and \<open>src/core/child-lifetime/domain\<close>. The laws: which combinations
    negotiation accepts, what an accepted plan protects, the bounds of a child's budget.

  \<^item> \<open>Capacity\<close>, \<open>Capacity_Store\<close>, \<open>Capacity_Laws\<close>, \<open>Capacity_Worker\<close>:
    \<open>src/worker-core/account-capacity\<close>. Signals and demands, the in-memory store with its recheck claims,
    and the worker that consults it before every run, for any number of workers on one store. The laws:
    exclusive rechecks, a dead session blocks every worker, runs only on open accounts, calls that end.

  \<^item> \<open>Account_Leases\<close>, \<open>Account_Selection\<close>: \<open>src/worker-core/account-capacity-selection\<close>. The lease store
    with fencing tokens and the selection over both stores.

  \<^item> \<open>Worker_Pool\<close>, \<open>Pool_Laws\<close>, \<open>Pool_Histories\<close>: \<open>src/worker-core/worker-pool.ts\<close> and its helpers. Slots
    live in a heap of shared objects; every method is cut at its awaits into events (\<open>pool_step\<close>). An event
    is a sequence of elementary moves, and what the moves keep holds of every history: exclusive slots,
    an exact queue, one settlement per run, bounded attempts, shared keys, disposal.

  \<^item> \<open>Session_Domain\<close>, \<open>Lease_Files\<close>, \<open>Session_Custody\<close>: \<open>src/store-local-file/session-leases\<close>,
    \<open>src/store-local-file/session-custody\<close> and the session types of \<open>src/core/domain/types.ts\<close>. Lease records,
    active records and encrypted sessions are files; each write of a file may fail before or after its effect,
    and the process may die there. \<open>Lease_Laws\<close>, \<open>Custody_Laws\<close>, \<open>Custody_Histories\<close>: operations as
    sequences of moves and what every history keeps. \<open>Session_Register\<close>: the abstract versioned register
    the store refines. \<open>Custody_Claims\<close>: the properties.

  \<^item> \<open>Runtime_Kernel\<close>: \<open>src/core/application/runtime.ts\<close>, \<open>task-session-writeback.ts\<close> and the helpers beside
    them. \<open>refreshSession\<close>, \<open>runTask\<close>, \<open>refreshThenRunTask\<close>, \<open>settleTaskSession\<close> and \<open>writeback_write\<close> are the
    methods, programs over ports that answer anything or throw; the record \<open>kernel\<close> holds the environment, the
    pending finalizations and write-backs and a log of the port calls. \<open>Kernel_Laws\<close>: weakest preconditions
    and the protocol of a lease. \<open>Kernel_Relations\<close>: a locale that carries what port calls do to what methods
    do, with the growing log and the open resources as instances. \<open>Kernel_Claims\<close>: the properties.

  \<^bold>\<open>How the code is modelled.\<close> Classes are records and their methods functions that return a result or
  an error with the new state. Random ids, the clock and the answers of injected collaborators are
  arguments. Where the order of asynchronous steps matters, a method is cut at its awaits and a history is a
  list of events in any order; where a lock makes a method atomic (the file stores) it is one program.
  No definition needs fuel: loops recurse on lists or on a measure that is proved to fall.

  \<^bold>\<open>Not modelled.\<close> The provider adapters for Codex and Claude, the local worker host, project control,
  diagnostics, launchers and scripts drive external processes, file systems, sandboxes and services, none of
  which is in the repository. Event logs, projections, codecs and views report on the behaviour modelled
  here. The adapters of BullMQ and of GitHub's secrets call libraries and services. The lock file of the
  file stores is taken as what it provides, one operation at a time per provider. Two calls
  into one kernel do not overlap. The redactor and its text stream, payload parsing, observability calls and
  the text of log messages are left out.
\<close>

end
